(* ===== verification/Prelude.thy ===== *)
theory Prelude
  imports Main "HOL-Library.Word"
begin

text \<open>
  What the components share: the types that stand for Go's basic types, the
  list-of-rows reading of an SQL table with the lemmas its queries need, the
  few functions of Go's \<open>strings\<close> package the code calls, and the fact
  collections the component proofs draw on.

  Conventions of the whole development:
  \<^item> a Go \<open>string\<close> is a byte sequence, hence an Isabelle \<open>string\<close> (a list of 8-bit
    characters);
  \<^item> a \<open>time.Time\<close> is an instant, counted in nanoseconds from Go's zero instant, so
    that \<open>IsZero\<close> is equality with 0 and \<open>Before\<close>/\<open>After\<close> are \<open><\<close>/\<open>>\<close>; a
    \<open>time.Duration\<close> is a number of nanoseconds;
  \<^item> a pair of results \<open>(T, error)\<close> is a sum, \<open>Inl\<close> the error; a lone \<open>error\<close> is
    an option, \<open>None\<close> for \<open>nil\<close>;
  \<^item> readings of the clock and of the random source are arguments of the operations that
    take them.
\<close>

type_synonym time = int
type_synonym duration = int

abbreviation Second :: duration where "Second \<equiv> 1000000000"
abbreviation Minute :: duration where "Minute \<equiv> 60 * Second"
abbreviation Hour :: duration where "Hour \<equiv> 60 * Minute"

named_theorems store_defs \<open>definitions of the persistence operations\<close>
named_theorems service_defs \<open>definitions of the service operations\<close>
named_theorems row_simps \<open>reading an updated table\<close>

subsection \<open>SQL tables as lists of rows\<close>

text \<open>
  A table is the list of its rows; \<open>key\<close> reads the primary key of a row. Postgres keeps
  the key unique, which is \<open>keyed\<close>.
\<close>

definition keyed :: "('r \<Rightarrow> 'k) \<Rightarrow> 'r list \<Rightarrow> bool" where
  "keyed key rows \<longleftrightarrow> distinct (map key rows)"

fun select_row :: "('r \<Rightarrow> 'k) \<Rightarrow> 'k \<Rightarrow> 'r list \<Rightarrow> 'r option" where
  "select_row key k [] = None"
| "select_row key k (r # rs) = (if key r = k then Some r else select_row key k rs)"

definition update_rows :: "('r \<Rightarrow> 'k) \<Rightarrow> 'k \<Rightarrow> ('r \<Rightarrow> 'r) \<Rightarrow> 'r list \<Rightarrow> 'r list" where
  "update_rows key k f rows = map (\<lambda>r. if key r = k then f r else r) rows"

definition delete_rows :: "('r \<Rightarrow> 'k) \<Rightarrow> 'k \<Rightarrow> 'r list \<Rightarrow> 'r list" where
  "delete_rows key k rows = filter (\<lambda>r. key r \<noteq> k) rows"

definition insert_row :: "'r \<Rightarrow> 'r list \<Rightarrow> 'r list" where
  "insert_row r rows = rows @ [r]"

definition order_by_asc :: "('r \<Rightarrow> time) \<Rightarrow> 'r list \<Rightarrow> 'r list" where
  "order_by_asc f rows = sort_key f rows"

definition order_by_desc :: "('r \<Rightarrow> time) \<Rightarrow> 'r list \<Rightarrow> 'r list" where
  "order_by_desc f rows = sort_key (\<lambda>r. - f r) rows"

lemma select_row_Some: "select_row key k rows = Some r \<Longrightarrow> r \<in> set rows \<and> key r = k"
  by (induction rows) (auto split: if_splits)

lemma select_row_None: "select_row key k rows = None \<longleftrightarrow> k \<notin> key ` set rows"
  by (induction rows) auto

lemma select_row_mem: "keyed key rows \<Longrightarrow> r \<in> set rows \<Longrightarrow> select_row key (key r) rows = Some r"
  by (induction rows) (auto simp: keyed_def rev_image_eqI)

lemma select_row_iff:
  "keyed key rows \<Longrightarrow> select_row key k rows = Some r \<longleftrightarrow> r \<in> set rows \<and> key r = k"
  using select_row_Some select_row_mem by fastforce

lemma select_row_insert [row_simps]:
  "select_row key k (insert_row r rows) =
     (case select_row key k rows of Some r' \<Rightarrow> Some r'
      | None \<Rightarrow> if key r = k then Some r else None)"
  by (induction rows) (auto simp: insert_row_def)

lemma select_row_insert_fresh:
  "key r \<notin> key ` set rows \<Longrightarrow>
   (\<lambda>k. select_row key k (insert_row r rows)) = (\<lambda>k. select_row key k rows)(key r \<mapsto> r)"
  by (auto simp: fun_eq_iff row_simps select_row_None [THEN iffD2] split: option.splits
      dest: select_row_Some)

lemma select_row_update [row_simps]:
  "(\<And>r. key (f r) = key r) \<Longrightarrow>
   select_row key j (update_rows key k f rows) =
     (if j = k then map_option f (select_row key j rows) else select_row key j rows)"
  by (induction rows) (auto simp: update_rows_def)

lemma select_row_delete [row_simps]:
  "select_row key j (delete_rows key k rows) = (if j = k then None else select_row key j rows)"
  by (induction rows) (auto simp: delete_rows_def)

lemma keyed_Nil [simp]: "keyed key []"
  by (simp add: keyed_def)

lemma keyed_insert [simp]:
  "keyed key (insert_row r rows) \<longleftrightarrow> keyed key rows \<and> key r \<notin> key ` set rows"
  by (auto simp: keyed_def insert_row_def)

lemma keyed_update [simp]:
  "(\<And>r. key (f r) = key r) \<Longrightarrow> keyed key (update_rows key k f rows) = keyed key rows"
proof -
  assume "\<And>r. key (f r) = key r"
  then have "map key (update_rows key k f rows) = map key rows"
    by (simp add: update_rows_def)
  then show ?thesis by (simp add: keyed_def)
qed

lemma keyed_delete: "keyed key rows \<Longrightarrow> keyed key (delete_rows key k rows)"
  by (simp add: keyed_def delete_rows_def distinct_map_filter)

lemma set_insert_row [simp]: "set (insert_row r rows) = insert r (set rows)"
  by (simp add: insert_row_def)

lemma set_delete_rows [simp]: "set (delete_rows key k rows) = {r \<in> set rows. key r \<noteq> k}"
  by (auto simp: delete_rows_def)

lemma set_update_rows:
  "set (update_rows key k f rows) = (\<lambda>r. if key r = k then f r else r) ` set rows"
  by (simp add: update_rows_def)

lemma set_order_by [simp]:
  "set (order_by_asc f rows) = set rows" "set (order_by_desc f rows) = set rows"
  by (simp_all add: order_by_asc_def order_by_desc_def)

lemma length_order_by [simp]:
  "length (order_by_asc f rows) = length rows" "length (order_by_desc f rows) = length rows"
  by (simp_all add: order_by_asc_def order_by_desc_def)

lemma distinct_order_by [simp]:
  "distinct (order_by_asc f rows) = distinct rows" "distinct (order_by_desc f rows) = distinct rows"
  by (simp_all add: order_by_asc_def order_by_desc_def)

lemma sorted_order_by_asc: "sorted (map f (order_by_asc f rows))"
  by (simp add: order_by_asc_def)

lemma sorted_order_by_desc: "sorted_wrt (\<lambda>a b. f a \<ge> f b) (order_by_desc f rows)"
proof -
  have "sorted (map (\<lambda>r. - f r) (order_by_desc f rows))"
    by (simp add: order_by_desc_def)
  then show ?thesis
    by (simp add: sorted_wrt_map)
qed

lemma keyed_distinct: "keyed key rows \<Longrightarrow> distinct rows"
  by (auto simp: keyed_def distinct_map)

lemma ran_select_row: "keyed key rows \<Longrightarrow> ran (\<lambda>k. select_row key k rows) = set rows"
  by (force simp: ran_def select_row_iff)

lemma dom_select_row: "dom (\<lambda>k. select_row key k rows) = key ` set rows"
  by (auto simp: dom_def select_row_None simp flip: not_None_eq)

subsection \<open>Go's \<open>strings\<close> package\<close>

definition HasPrefix :: "string \<Rightarrow> string \<Rightarrow> bool" where
  "HasPrefix s p \<longleftrightarrow> take (length p) s = p"

definition isSpace :: "char \<Rightarrow> bool" where
  "isSpace c \<longleftrightarrow> c \<in> {CHR '' '', CHR 0x09, CHR 0x0A, CHR 0x0B, CHR 0x0C, CHR 0x0D}"

text \<open>
  \<open>strings.TrimSpace\<close> on ASCII text. (Its treatment of the Unicode spaces beyond ASCII is
  not modelled.)
\<close>

definition TrimSpace :: "string \<Rightarrow> string" where
  "TrimSpace s = rev (dropWhile isSpace (rev (dropWhile isSpace s)))"

definition lowerChar :: "char \<Rightarrow> char" where
  "lowerChar c = (let n = of_char c :: nat in if 65 \<le> n \<and> n \<le> 90 then char_of (n + 32) else c)"

definition ToLower :: "string \<Rightarrow> string" where
  "ToLower s = map lowerChar s"

definition upperChar :: "char \<Rightarrow> char" where
  "upperChar c = (let n = of_char c :: nat in if 97 \<le> n \<and> n \<le> 122 then char_of (n - 32) else c)"

text \<open>\<open>strings.ToUpper\<close>, on ASCII text as well.\<close>

definition ToUpper :: "string \<Rightarrow> string" where
  "ToUpper s = map upperChar s"

text \<open>\<open>strings.Join\<close>.\<close>

fun Join :: "string list \<Rightarrow> string \<Rightarrow> string" where
  "Join [] sep = []"
| "Join [x] sep = x"
| "Join (x # y # xs) sep = x @ sep @ Join (y # xs) sep"

fun LastIndexChar :: "string \<Rightarrow> char \<Rightarrow> nat option" where
  "LastIndexChar [] c = None"
| "LastIndexChar (x # xs) c =
     (case LastIndexChar xs c of Some i \<Rightarrow> Some (Suc i) | None \<Rightarrow> if x = c then Some 0 else None)"

text \<open>\<open>strings.Split(s, ",")\<close>: the pieces between the separators, always at least one.\<close>

fun splitOn :: "char \<Rightarrow> string \<Rightarrow> string list" where
  "splitOn d [] = [[]]"
| "splitOn d (c # cs) =
     (if c = d then [] # splitOn d cs
      else (case splitOn d cs of p # ps \<Rightarrow> (c # p) # ps | [] \<Rightarrow> [[c]]))"

lemma HasPrefix_append [simp]: "HasPrefix (p @ s) p"
  by (simp add: HasPrefix_def)

lemma upperChar_idem [simp]: "upperChar (upperChar c) = upperChar c"
  by (auto simp: upperChar_def Let_def)

lemma ToUpper_idem [simp]: "ToUpper (ToUpper s) = ToUpper s"
  by (simp add: ToUpper_def)

lemma dropWhile_isSpace_idem [simp]:
  "dropWhile isSpace (dropWhile isSpace s) = dropWhile isSpace s"
  by (rule dropWhile_idem)

lemma splitOn_not_Nil [simp]: "splitOn d s \<noteq> []"
  by (cases s) (auto split: list.splits)

subsection \<open>Decimal text\<close>

text \<open>\<open>%d\<close> of \<open>fmt\<close> and \<open>strconv.Itoa\<close>.\<close>

fun decimal :: "nat \<Rightarrow> string" where
  "decimal n = (if n < 10 then [char_of (48 + n)] else decimal (n div 10) @ [char_of (48 + n mod 10)])"

declare decimal.simps [simp del]

definition Itoa :: "int \<Rightarrow> string" where
  "Itoa i = (if i < 0 then ''-'' @ decimal (nat (- i)) else decimal (nat i))"

end
