(* ===== verification/Go_Errors.thy ===== *)
theory Go_Errors
  imports Prelude
begin

text \<open>
  Go error values and the two functions of package \<open>errors\<close> the program classifies them
  with. One datatype holds every error type of the program: the sentinels of
  \<open>httpx/errors.go\<close> and \<open>database/sql\<close>, the wrapping errors of \<open>fmt.Errorf\<close> with
  \<open>%w\<close>, \<open>reports.RetryableError\<close>, \<open>httpx.APIError\<close>, Echo's \<open>HTTPError\<close>, and every
  other error as its text (\<open>OtherErr\<close>).
\<close>

datatype sentinel =
    SqlErrNoRows
  | ErrNotFound
  | ErrValidation
  | ErrBadRequest
  | ErrConflict
  | ErrUnauthorized
  | ErrPermissionDenied
  | ErrInternal

type_synonym details = "(string \<times> string) list"

datatype goerr =
    Sentinel sentinel
  | OtherErr string
  | WrapError string goerr
  | RetryableError "goerr option"
  | APIError "goerr option" string details
  | HTTPError int "string option" "goerr option"

fun sentinel_text :: "sentinel \<Rightarrow> string" where
  "sentinel_text SqlErrNoRows = ''sql: no rows in result set''"
| "sentinel_text ErrNotFound = ''not found''"
| "sentinel_text ErrValidation = ''validation error''"
| "sentinel_text ErrBadRequest = ''bad request''"
| "sentinel_text ErrConflict = ''conflict''"
| "sentinel_text ErrUnauthorized = ''unauthorized''"
| "sentinel_text ErrPermissionDenied = ''permission denied''"
| "sentinel_text ErrInternal = ''internal error''"

text \<open>
  The \<open>Error\<close> methods. Of a message of Echo's \<open>HTTPError\<close> that is not a string the text
  is not modelled.
\<close>

fun Error :: "goerr \<Rightarrow> string" where
  "Error (Sentinel s) = sentinel_text s"
| "Error (OtherErr m) = m"
| "Error (WrapError m e) = m"
| "Error (RetryableError None) = ''retryable''"
| "Error (RetryableError (Some e)) = Error e"
| "Error (APIError e m d) =
     (if m \<noteq> '''' then m else (case e of Some e' \<Rightarrow> Error e' | None \<Rightarrow> ''error''))"
| "Error (HTTPError c m None) = ''code='' @ Itoa c @ '', message='' @ (case m of Some t \<Rightarrow> t | None \<Rightarrow> '''')"
| "Error (HTTPError c m (Some e)) =
     ''code='' @ Itoa c @ '', message='' @ (case m of Some t \<Rightarrow> t | None \<Rightarrow> '''') @ '', internal='' @ Error e"

text \<open>\<open>fmt.Errorf("%w: text", e)\<close>.\<close>

definition Errorf_w :: "goerr \<Rightarrow> string \<Rightarrow> goerr" where
  "Errorf_w e text = WrapError (Error e @ '': '' @ text) e"

text \<open>\<open>fmt.Errorf("text: %w", e)\<close>.\<close>

definition Errorf_prefix :: "string \<Rightarrow> goerr \<Rightarrow> goerr" where
  "Errorf_prefix text e = WrapError (text @ '': '' @ Error e) e"

text \<open>The \<open>Unwrap\<close> methods: one step down the chain.\<close>

fun Unwrap :: "goerr \<Rightarrow> goerr option" where
  "Unwrap (WrapError m e) = Some e"
| "Unwrap (RetryableError e) = e"
| "Unwrap (APIError e m d) = e"
| "Unwrap (HTTPError c m e) = e"
| "Unwrap e = None"

text \<open>\<open>errors.Is\<close> against a sentinel: the chain of \<open>Unwrap\<close> is walked to its end.\<close>

fun errors_Is :: "goerr \<Rightarrow> sentinel \<Rightarrow> bool" where
  "errors_Is (Sentinel s) t \<longleftrightarrow> s = t"
| "errors_Is (OtherErr m) t \<longleftrightarrow> False"
| "errors_Is (WrapError m e) t \<longleftrightarrow> errors_Is e t"
| "errors_Is (RetryableError None) t \<longleftrightarrow> False"
| "errors_Is (RetryableError (Some e)) t \<longleftrightarrow> errors_Is e t"
| "errors_Is (APIError None m d) t \<longleftrightarrow> False"
| "errors_Is (APIError (Some e) m d) t \<longleftrightarrow> errors_Is e t"
| "errors_Is (HTTPError c m None) t \<longleftrightarrow> False"
| "errors_Is (HTTPError c m (Some e)) t \<longleftrightarrow> errors_Is e t"

text \<open>\<open>errors.As\<close> with a \<open>*RetryableError\<close> target: is one on the chain?\<close>

fun IsRetryable :: "goerr \<Rightarrow> bool" where
  "IsRetryable (RetryableError e) \<longleftrightarrow> True"
| "IsRetryable (WrapError m e) \<longleftrightarrow> IsRetryable e"
| "IsRetryable (APIError (Some e) m d) \<longleftrightarrow> IsRetryable e"
| "IsRetryable (HTTPError c m (Some e)) \<longleftrightarrow> IsRetryable e"
| "IsRetryable e \<longleftrightarrow> False"

text \<open>\<open>errors.As\<close> with an \<open>*APIError\<close> target: the first one on the chain.\<close>

fun errors_As_APIError :: "goerr \<Rightarrow> (goerr option \<times> string \<times> details) option" where
  "errors_As_APIError (APIError e m d) = Some (e, m, d)"
| "errors_As_APIError (WrapError m e) = errors_As_APIError e"
| "errors_As_APIError (RetryableError (Some e)) = errors_As_APIError e"
| "errors_As_APIError (HTTPError c m (Some e)) = errors_As_APIError e"
| "errors_As_APIError e = None"

text \<open>\<open>reports.Retryable\<close>: wrap once, and keep \<open>nil\<close> and an already retryable error.\<close>

definition Retryable :: "goerr option \<Rightarrow> goerr option" where
  "Retryable err =
     (case err of
        None \<Rightarrow> None
      | Some e \<Rightarrow> if IsRetryable e then Some e else Some (RetryableError (Some e)))"

definition NewAPIError :: "goerr \<Rightarrow> string \<Rightarrow> details \<Rightarrow> goerr" where
  "NewAPIError err message d = APIError (Some err) message d"

text \<open>The recursions above are the loops of \<open>errors.Is\<close> and \<open>errors.As\<close> over \<open>Unwrap\<close>.\<close>

lemma errors_Is_chain:
  "errors_Is e t \<longleftrightarrow> e = Sentinel t \<or> (case Unwrap e of None \<Rightarrow> False | Some u \<Rightarrow> errors_Is u t)"
  by (cases "(e, t)" rule: errors_Is.cases) auto

lemma IsRetryable_chain:
  "IsRetryable e \<longleftrightarrow> (\<exists>r. e = RetryableError r) \<or> (case Unwrap e of None \<Rightarrow> False | Some u \<Rightarrow> IsRetryable u)"
  by (cases e rule: IsRetryable.cases) auto

lemma errors_As_APIError_chain:
  "errors_As_APIError e = (case e of APIError u m d \<Rightarrow> Some (u, m, d)
     | _ \<Rightarrow> (case Unwrap e of None \<Rightarrow> None | Some u \<Rightarrow> errors_As_APIError u))"
  by (cases e rule: errors_As_APIError.cases) auto

lemma errors_Is_Errorf_w [simp]: "errors_Is (Errorf_w e text) t \<longleftrightarrow> errors_Is e t"
  by (simp add: Errorf_w_def)

lemma Error_Errorf_w [simp]: "Error (Errorf_w e text) = Error e @ '': '' @ text"
  by (simp add: Errorf_w_def)

lemma IsRetryable_Errorf_w [simp]: "IsRetryable (Errorf_w e text) \<longleftrightarrow> IsRetryable e"
  by (simp add: Errorf_w_def)

lemma errors_As_APIError_Errorf_w [simp]:
  "errors_As_APIError (Errorf_w e text) = errors_As_APIError e"
  by (simp add: Errorf_w_def)

lemma Retryable_None [simp]: "Retryable None = None"
  by (simp add: Retryable_def)

lemma Retryable_Some: "\<exists>e'. Retryable (Some e) = Some e' \<and> IsRetryable e' \<and> Error e' = Error e"
  by (simp add: Retryable_def)

lemma Retryable_not_None [simp]: "Retryable (Some e) \<noteq> None" "None \<noteq> Retryable (Some e)"
  by (simp_all add: Retryable_def)

lemma Retryable_idem: "Retryable (Retryable err) = Retryable err"
  by (auto simp: Retryable_def split: option.splits)

lemma errors_Is_Retryable: "Retryable (Some e) = Some e' \<Longrightarrow> errors_Is e' t \<longleftrightarrow> errors_Is e t"
  by (auto simp: Retryable_def split: if_splits)

end
