(* ===== verification/Uuid.thy ===== *)
theory Uuid
  imports Prelude
begin

text \<open>
  Package \<open>github.com/google/uuid\<close> as the program uses it: the 16-byte value, its text
  form (\<open>String\<close>) and the parser of the four accepted text forms (\<open>Parse\<close>,
  \<open>ParseBytes\<close>). \<open>uuid.New\<close> reads the random source, so its value is an argument of
  the operations that call it. The main lemma is the round trip: every value parses back
  from its text. Package \<open>encoding/hex\<close> is modelled by its \<open>EncodeToString\<close>.
\<close>

unbundle bit_operations_syntax

type_synonym byte = "8 word"

datatype uuid = UUID byte byte byte byte byte byte byte byte
                     byte byte byte byte byte byte byte byte

abbreviation uuid_Nil :: uuid where
  "uuid_Nil \<equiv> UUID 0 0 0 0 0 0 0 0 0 0 0 0 0 0 0 0"

fun uuid_bytes :: "uuid \<Rightarrow> byte list" where
  "uuid_bytes (UUID a0 a1 a2 a3 a4 a5 a6 a7 a8 a9 a10 a11 a12 a13 a14 a15) =
     [a0, a1, a2, a3, a4, a5, a6, a7, a8, a9, a10, a11, a12, a13, a14, a15]"

definition uuid_of_bytes :: "byte list \<Rightarrow> uuid" where
  "uuid_of_bytes bs =
     UUID (bs ! 0) (bs ! 1) (bs ! 2) (bs ! 3) (bs ! 4) (bs ! 5) (bs ! 6) (bs ! 7)
          (bs ! 8) (bs ! 9) (bs ! 10) (bs ! 11) (bs ! 12) (bs ! 13) (bs ! 14) (bs ! 15)"

definition hextable :: string where
  "hextable = ''0123456789abcdef''"

definition hexEncodeByte :: "byte \<Rightarrow> string" where
  "hexEncodeByte b = [hextable ! unat (drop_bit 4 b), hextable ! unat (b AND 15)]"

definition EncodeToString :: "byte list \<Rightarrow> string" where
  "EncodeToString bs = concat (map hexEncodeByte bs)"

definition encodeHex :: "uuid \<Rightarrow> string" where
  "encodeHex u =
     (let bs = uuid_bytes u in
        EncodeToString (take 4 bs) @ ''-'' @
        EncodeToString (take 2 (drop 4 bs)) @ ''-'' @
        EncodeToString (take 2 (drop 6 bs)) @ ''-'' @
        EncodeToString (take 2 (drop 8 bs)) @ ''-'' @
        EncodeToString (drop 10 bs))"

definition uuid_String :: "uuid \<Rightarrow> string" where
  "uuid_String u = encodeHex u"

text \<open>
  \<open>xvalues\<close> is a table of 256 entries: the value of a hex digit, 255 for any other byte.
\<close>

definition xvalues :: "char \<Rightarrow> byte" where
  "xvalues c =
     (let n = of_char c :: nat in
        if 48 \<le> n \<and> n \<le> 57 then of_nat (n - 48)
        else if 97 \<le> n \<and> n \<le> 102 then of_nat (n - 87)
        else if 65 \<le> n \<and> n \<le> 70 then of_nat (n - 55)
        else 255)"

definition xtob :: "char \<Rightarrow> char \<Rightarrow> byte option" where
  "xtob x1 x2 =
     (let b1 = xvalues x1; b2 = xvalues x2 in
        if b1 \<noteq> 255 \<and> b2 \<noteq> 255 then Some (push_bit 4 b1 OR b2) else None)"

definition xtob_all :: "string \<Rightarrow> nat list \<Rightarrow> byte list option" where
  "xtob_all s xs = those (map (\<lambda>x. xtob (s ! x) (s ! (x + 1))) xs)"

definition dashed_offsets :: "nat list" where
  "dashed_offsets = [0, 2, 4, 6, 9, 11, 14, 16, 19, 21, 24, 26, 28, 30, 32, 34]"

datatype uuid_error = InvalidLength nat | InvalidURNPrefix string | InvalidFormat

definition parse_dashed :: "string \<Rightarrow> uuid_error + uuid" where
  "parse_dashed s =
     (if s ! 8 \<noteq> CHR ''-'' \<or> s ! 13 \<noteq> CHR ''-'' \<or> s ! 18 \<noteq> CHR ''-'' \<or> s ! 23 \<noteq> CHR ''-''
      then Inl InvalidFormat
      else (case xtob_all s dashed_offsets of
              None \<Rightarrow> Inl InvalidFormat
            | Some bs \<Rightarrow> Inr (uuid_of_bytes bs)))"

definition uuid_Parse :: "string \<Rightarrow> uuid_error + uuid" where
  "uuid_Parse s =
     (if length s = 36 then parse_dashed s
      else if length s = 45 then
        (if ToLower (take 9 s) \<noteq> ''urn:uuid:'' then Inl (InvalidURNPrefix (take 9 s))
         else parse_dashed (drop 9 s))
      else if length s = 38 then parse_dashed (drop 1 s)
      else if length s = 32 then
        (case xtob_all s (map (\<lambda>i. i * 2) [0..<16]) of
           None \<Rightarrow> Inl InvalidFormat
         | Some bs \<Rightarrow> Inr (uuid_of_bytes bs))
      else Inl (InvalidLength (length s)))"

subsection \<open>The round trip\<close>

lemma hextable_value: "n < 16 \<Longrightarrow> xvalues (hextable ! n) = of_nat n"
proof -
  have "list_all (\<lambda>n. xvalues (hextable ! n) = of_nat n) [0..<16]"
    by code_simp
  then show "n < 16 \<Longrightarrow> xvalues (hextable ! n) = of_nat n"
    by (simp add: list_all_iff)
qed

lemma nibble_bounds: "unat (drop_bit 4 (b :: byte)) < 16" "unat (b AND 15) < 16"
proof -
  have "unat b < 256" using unsigned_less [where ?'a = nat and w = b] by simp
  then show "unat (drop_bit 4 b) < 16"
    by (subst unat_drop_bit_eq) (simp add: drop_bit_eq_div)
  have "unat (b AND 15) \<le> unat (15 :: byte)"
    by (rule word_and_le1 [THEN word_le_nat_alt [THEN iffD1]])
  then show "unat (b AND 15) < 16" by simp
qed

lemma nibbles_join: "push_bit 4 (drop_bit 4 b) OR (b AND 15) = (b :: byte)"
proof (rule bit_eqI)
  fix n
  have m: "(15 :: byte) = mask 4" by (simp add: mask_eq_exp_minus_1)
  show "bit (push_bit 4 (drop_bit 4 b) OR (b AND 15)) n = bit b n"
    unfolding m by (auto simp: bit_simps dest: bit_imp_le_length)
qed

lemma word_small_neq: "unat (b :: byte) < 16 \<Longrightarrow> b \<noteq> 255"
  by auto

lemma xtob_hexEncodeByte: "xtob (hextable ! unat (drop_bit 4 b)) (hextable ! unat (b AND 15)) = Some b"
  using nibble_bounds [of b]
  by (simp add: xtob_def hextable_value nibbles_join word_small_neq)

lemma length_hexEncodeByte [simp]: "length (hexEncodeByte b) = 2"
  by (simp add: hexEncodeByte_def)

lemma uuid_String_length: "length (uuid_String u) = 36"
  by (cases u) (simp add: uuid_String_def encodeHex_def EncodeToString_def)

lemma parse_dashed_String: "parse_dashed (uuid_String u) = Inr u"
  by (cases u)
    (simp add: uuid_String_def encodeHex_def EncodeToString_def hexEncodeByte_def
      parse_dashed_def xtob_all_def dashed_offsets_def xtob_hexEncodeByte uuid_of_bytes_def)

lemma parse_dashed_append:
  assumes "length s = 36"
  shows "parse_dashed (s @ rest) = parse_dashed s"
  by (simp add: parse_dashed_def xtob_all_def dashed_offsets_def nth_append assms)

lemma uuid_Parse_String: "uuid_Parse (uuid_String u) = Inr u"
  by (simp add: uuid_Parse_def uuid_String_length parse_dashed_String)

lemma uuid_String_inject [simp]: "uuid_String u = uuid_String v \<longleftrightarrow> u = v"
  by (metis uuid_Parse_String Inr_inject)

lemma uuid_String_not_Nil [simp]: "uuid_String u \<noteq> []"
  using uuid_String_length [of u] by auto

end
