(* ===== verification/Platform.thy ===== *)
theory Platform
  imports Go_Errors Uuid
begin

text \<open>
  The small platform packages the services rest on: the request-scoped context values
  (\<open>platform/authn\<close>, \<open>platform/jobs\<close> attempt information), the authorisation checks
  (\<open>platform/authz\<close>) and the in-process event bus (\<open>platform/events\<close>).
\<close>

subsection \<open>Principals and contexts\<close>

record Principal =
  UserID :: string
  Roles :: "string list"
  AuthMethod :: string

record AttemptInfo =
  Attempt :: int
  MaxAttempts :: int

text \<open>
  A \<open>context.Context\<close> is read through the keys the program defines; each key is a
  field, \<open>None\<close> where the key was never set. (The last is the untyped key \<open>"request_id"\<close> that
  \<open>RequestIDFromContext\<close> still honours.)
\<close>

record ctx =
  ctx_principal :: "Principal option"
  ctx_attempt :: "AttemptInfo option"
  ctx_request_id :: "string option"
  ctx_request_id_plain :: "string option"

definition Background :: ctx where
  "Background = \<lparr>ctx_principal = None, ctx_attempt = None, ctx_request_id = None,
     ctx_request_id_plain = None\<rparr>"

definition zero_Principal :: Principal where
  "zero_Principal = \<lparr>UserID = '''', Roles = [], AuthMethod = ''''\<rparr>"

definition Anonymous :: Principal where
  "Anonymous = \<lparr>UserID = '''', Roles = [], AuthMethod = ''anonymous''\<rparr>"

definition WithPrincipal :: "ctx \<Rightarrow> Principal \<Rightarrow> ctx" where
  "WithPrincipal c p = c\<lparr>ctx_principal := Some p\<rparr>"

definition FromContext :: "ctx \<Rightarrow> Principal \<times> bool" where
  "FromContext c =
     (case ctx_principal c of Some p \<Rightarrow> (p, True) | None \<Rightarrow> (zero_Principal, False))"

definition ContextWithAttempt :: "ctx \<Rightarrow> AttemptInfo \<Rightarrow> ctx" where
  "ContextWithAttempt c info = c\<lparr>ctx_attempt := Some info\<rparr>"

definition AttemptFromContext :: "ctx \<Rightarrow> AttemptInfo option" where
  "AttemptFromContext c = ctx_attempt c"

lemma FromContext_WithPrincipal [simp]: "FromContext (WithPrincipal c p) = (p, True)"
  by (simp add: FromContext_def WithPrincipal_def)

lemma AttemptFromContext_simps [simp]:
  "AttemptFromContext (ContextWithAttempt c info) = Some info"
  "AttemptFromContext (WithPrincipal c p) = AttemptFromContext c"
  by (simp_all add: AttemptFromContext_def ContextWithAttempt_def WithPrincipal_def)

lemma FromContext_ContextWithAttempt [simp]:
  "FromContext (ContextWithAttempt c info) = FromContext c"
  by (simp add: FromContext_def ContextWithAttempt_def)

subsection \<open>Authorisation\<close>

definition RequireAuthenticated :: "Principal \<Rightarrow> bool \<Rightarrow> goerr option" where
  "RequireAuthenticated p authDisabled =
     (if authDisabled then None
      else if UserID p = '''' then Some (Sentinel ErrPermissionDenied)
      else None)"

fun HasRole_loop :: "string list \<Rightarrow> string \<Rightarrow> bool" where
  "HasRole_loop [] role = False"
| "HasRole_loop (r # rs) role = (if r = role then True else HasRole_loop rs role)"

definition HasRole :: "Principal \<Rightarrow> string \<Rightarrow> bool" where
  "HasRole p role = HasRole_loop (Roles p) role"

lemma HasRole_iff: "HasRole p role \<longleftrightarrow> role \<in> set (Roles p)"
proof -
  have "HasRole_loop rs role \<longleftrightarrow> role \<in> set rs" for rs
    by (induction rs) auto
  then show ?thesis by (simp add: HasRole_def)
qed

text \<open>
  The caller of a service operation as the service sees it: the principal of the context,
  accepted when authentication is disabled or the principal is not anonymous.
\<close>

definition authenticated :: "bool \<Rightarrow> ctx \<Rightarrow> bool" where
  "authenticated authDisabled c \<longleftrightarrow> authDisabled \<or> UserID (fst (FromContext c)) \<noteq> ''''"

lemma RequireAuthenticated_None [simp]:
  "RequireAuthenticated p d = None \<longleftrightarrow> d \<or> UserID p \<noteq> ''''"
  by (simp add: RequireAuthenticated_def)

subsection \<open>The event bus\<close>

text \<open>
  Handlers act on the state \<open>'s\<close> of the program. \<open>Publish\<close> runs every handler of the
  event's name in the order of subscription; an error of one handler is logged and does
  not stop the others. The list it returns is what is logged.
\<close>

record 'p Event =
  ev_Name :: string
  ev_Payload :: 'p

type_synonym ('p, 's) EventHandler = "ctx \<Rightarrow> 'p Event \<Rightarrow> 's \<Rightarrow> goerr option \<times> 's"

record ('p, 's) Bus =
  handlers :: "string \<Rightarrow> ('p, 's) EventHandler list"

definition NewBus :: "('p, 's) Bus" where
  "NewBus = \<lparr>handlers = (\<lambda>_. [])\<rparr>"

definition Subscribe :: "('p, 's) Bus \<Rightarrow> string \<Rightarrow> ('p, 's) EventHandler \<Rightarrow> ('p, 's) Bus" where
  "Subscribe b name h = b\<lparr>handlers := (handlers b)(name := handlers b name @ [h])\<rparr>"

fun Publish_loop ::
  "('p, 's) EventHandler list \<Rightarrow> ctx \<Rightarrow> 'p Event \<Rightarrow> 's \<Rightarrow> goerr list \<times> 's" where
  "Publish_loop [] c ev s = ([], s)"
| "Publish_loop (h # hs) c ev s =
     (case h c ev s of
        (None, s') \<Rightarrow> Publish_loop hs c ev s'
      | (Some e, s') \<Rightarrow> (case Publish_loop hs c ev s' of (es, s'') \<Rightarrow> (e # es, s'')))"

definition Publish :: "('p, 's) Bus \<Rightarrow> ctx \<Rightarrow> 'p Event \<Rightarrow> 's \<Rightarrow> goerr list \<times> 's" where
  "Publish b c ev s = Publish_loop (handlers b (ev_Name ev)) c ev s"

lemma Publish_NewBus [simp]: "Publish NewBus c ev s = ([], s)"
  by (simp add: Publish_def NewBus_def)

lemma Publish_loop_append:
  "Publish_loop (hs @ hs') c ev s =
     (case Publish_loop hs c ev s of (es, s1) \<Rightarrow>
       (case Publish_loop hs' c ev s1 of (es', s2) \<Rightarrow> (es @ es', s2)))"
  by (induction hs arbitrary: s) (auto split: prod.splits option.splits)

lemma Publish_Subscribe:
  "Publish (Subscribe b name h) c ev s =
     (case Publish b c ev s of (es, s1) \<Rightarrow>
        if ev_Name ev = name
        then (case h c ev s1 of (None, s2) \<Rightarrow> (es, s2) | (Some e, s2) \<Rightarrow> (es @ [e], s2))
        else (es, s1))"
  by (auto simp: Publish_def Subscribe_def Publish_loop_append split: prod.splits option.splits)

lemma Publish_loop_preserves:
  assumes "\<And>h s. h \<in> set hs \<Longrightarrow> P s \<Longrightarrow> P (snd (h c ev s))" and "P s"
  shows "P (snd (Publish_loop hs c ev s))"
  using assms
proof (induction hs arbitrary: s)
  case (Cons h hs)
  obtain r s' where h: "h c ev s = (r, s')" by force
  with Cons.prems have "P s'" by (metis list.set_intros(1) snd_conv)
  with Cons.IH Cons.prems(1) have "P (snd (Publish_loop hs c ev s'))" by simp
  with h show ?case by (auto split: option.splits prod.splits)
qed simp

end
