(* ===== verification/Todos_Store.thy ===== *)
theory Todos_Store
  imports Platform "HOL-Library.AList"
begin

text \<open>
  The todos domain model (\<open>todos/domain.go\<close>), its persistence port
  (\<open>todos/store.go\<close>) and the in-memory implementation of the port
  (\<open>todos/fake_store.go\<close>). The port is the record \<open>TodoStore\<close> of operations on a
  state \<open>'s\<close>; the locale \<open>todo_store\<close> states what its clients rely on, over the
  abstract view of the state as a map from ids to todos. \<open>FakeStore\<close> is interpreted
  here, the Postgres adapter in \<open>Todos_Postgres\<close>.
\<close>

subsection \<open>Domain\<close>

record Todo =
  td_TodoID :: uuid
  td_CreatedAt :: time
  td_UpdatedAt :: time
  td_Label :: string
  td_Completed :: bool

record TodoParams =
  tp_Label :: string
  tp_Completed :: bool

record TodoSummaryCounts =
  sm_Total :: int
  sm_Completed :: int
  sm_Outstanding :: int

definition EventTodoCreated :: string where
  "EventTodoCreated = ''todos.created''"

record CreateParams =
  cp_TodoID :: uuid
  cp_CreatedAt :: time
  cp_UpdatedAt :: time
  cp_Label :: string
  cp_Completed :: bool

record UpdateParams =
  up_TodoID :: uuid
  up_UpdatedAt :: time
  up_Label :: string
  up_Completed :: bool

text \<open>The todo a create stores, and what an update does to a stored todo.\<close>

definition created_todo :: "CreateParams \<Rightarrow> Todo" where
  "created_todo p = \<lparr>td_TodoID = cp_TodoID p, td_CreatedAt = cp_CreatedAt p,
     td_UpdatedAt = cp_UpdatedAt p, td_Label = cp_Label p, td_Completed = cp_Completed p\<rparr>"

definition updated_todo :: "UpdateParams \<Rightarrow> Todo \<Rightarrow> Todo" where
  "updated_todo p t = t\<lparr>td_Label := up_Label p, td_Completed := up_Completed p,
     td_UpdatedAt := up_UpdatedAt p\<rparr>"

lemma td_TodoID_simps [simp]:
  "td_TodoID (created_todo p) = cp_TodoID p"
  "td_TodoID (updated_todo q t) = td_TodoID t"
  by (simp_all add: created_todo_def updated_todo_def)

subsection \<open>The port\<close>

record 's TodoStore =
  st_CreateTodo :: "CreateParams \<Rightarrow> 's \<Rightarrow> (goerr + Todo) \<times> 's"
  st_UpdateTodo :: "UpdateParams \<Rightarrow> 's \<Rightarrow> (goerr + Todo) \<times> 's"
  st_DeleteTodo :: "uuid \<Rightarrow> 's \<Rightarrow> goerr option \<times> 's"
  st_FindTodoById :: "uuid \<Rightarrow> 's \<Rightarrow> (goerr + Todo) \<times> 's"
  st_ListAllTodos :: "'s \<Rightarrow> (goerr + Todo list) \<times> 's"
  st_CountTodos :: "'s \<Rightarrow> (goerr + TodoSummaryCounts) \<times> 's"

text \<open>
  The contract. \<open>view\<close> is the abstract content, \<open>invar\<close> what the implementation
  keeps of its own representation, \<open>healthy\<close> that no coming call fails. A call that
  reports an error may have been carried out all the same; nothing else can have
  happened to the content.
\<close>

locale todo_store =
  fixes st :: "'s TodoStore"
    and view :: "'s \<Rightarrow> uuid \<Rightarrow> Todo option"
    and invar :: "'s \<Rightarrow> bool"
    and healthy :: "'s \<Rightarrow> bool"
  assumes view_key: "invar s \<Longrightarrow> view s i = Some t \<Longrightarrow> td_TodoID t = i"
    and create_Inr: "invar s \<Longrightarrow> st_CreateTodo st p s = (Inr t, s') \<Longrightarrow>
          t = created_todo p \<and> view s' = (view s)(cp_TodoID p \<mapsto> t)"
    and create_Inl: "invar s \<Longrightarrow> st_CreateTodo st p s = (Inl e, s') \<Longrightarrow>
          view s' = view s \<or> view s' = (view s)(cp_TodoID p \<mapsto> created_todo p)"
    and create_invar: "invar s \<Longrightarrow> st_CreateTodo st p s = (r, s') \<Longrightarrow> invar s'"
    and create_healthy: "invar s \<Longrightarrow> healthy s \<Longrightarrow> view s (cp_TodoID p) = None \<Longrightarrow>
          \<exists>s'. st_CreateTodo st p s = (Inr (created_todo p), s') \<and> healthy s'"
    and update_Inr: "invar s \<Longrightarrow> st_UpdateTodo st q s = (Inr t, s') \<Longrightarrow>
          \<exists>t0. view s (up_TodoID q) = Some t0 \<and> t = updated_todo q t0 \<and>
               view s' = (view s)(up_TodoID q \<mapsto> t)"
    and update_Inl: "invar s \<Longrightarrow> st_UpdateTodo st q s = (Inl e, s') \<Longrightarrow>
          view s' = view s \<or>
          (\<exists>t0. view s (up_TodoID q) = Some t0 \<and> view s' = (view s)(up_TodoID q \<mapsto> updated_todo q t0))"
    and update_no_rows: "invar s \<Longrightarrow> st_UpdateTodo st q s = (Inl e, s') \<Longrightarrow>
          errors_Is e SqlErrNoRows \<Longrightarrow> view s (up_TodoID q) = None"
    and update_invar: "invar s \<Longrightarrow> st_UpdateTodo st q s = (r, s') \<Longrightarrow> invar s'"
    and update_healthy: "invar s \<Longrightarrow> healthy s \<Longrightarrow> view s (up_TodoID q) = Some t0 \<Longrightarrow>
          \<exists>s'. st_UpdateTodo st q s = (Inr (updated_todo q t0), s') \<and> healthy s'"
    and update_missing: "invar s \<Longrightarrow> healthy s \<Longrightarrow> view s (up_TodoID q) = None \<Longrightarrow>
          st_UpdateTodo st q s = (Inl (Sentinel SqlErrNoRows), s)"
    and delete_None: "invar s \<Longrightarrow> st_DeleteTodo st i s = (None, s') \<Longrightarrow> view s' = (view s)(i := None)"
    and delete_Some: "invar s \<Longrightarrow> st_DeleteTodo st i s = (Some e, s') \<Longrightarrow>
          view s' = view s \<or> view s' = (view s)(i := None)"
    and delete_invar: "invar s \<Longrightarrow> st_DeleteTodo st i s = (r', s') \<Longrightarrow> invar s'"
    and delete_healthy: "invar s \<Longrightarrow> healthy s \<Longrightarrow> view s i = Some t0 \<Longrightarrow>
          \<exists>s'. st_DeleteTodo st i s = (None, s') \<and> healthy s'"
    and find_Inr: "invar s \<Longrightarrow> st_FindTodoById st i s = (Inr t, s') \<Longrightarrow> view s i = Some t"
    and find_no_rows: "invar s \<Longrightarrow> st_FindTodoById st i s = (Inl e, s') \<Longrightarrow>
          errors_Is e SqlErrNoRows \<Longrightarrow> view s i = None"
    and find_view: "invar s \<Longrightarrow> st_FindTodoById st i s = (r, s') \<Longrightarrow> view s' = view s \<and> invar s'"
    and find_healthy: "invar s \<Longrightarrow> healthy s \<Longrightarrow> st_FindTodoById st i s =
          ((case view s i of Some t \<Rightarrow> Inr t | None \<Rightarrow> Inl (Sentinel SqlErrNoRows)), s)"
    and list_Inr: "invar s \<Longrightarrow> st_ListAllTodos st s = (Inr ts, s') \<Longrightarrow>
          set ts = ran (view s) \<and> distinct ts"
    and list_view: "invar s \<Longrightarrow> st_ListAllTodos st s = (lr, s') \<Longrightarrow> view s' = view s \<and> invar s'"
    and list_healthy: "invar s \<Longrightarrow> healthy s \<Longrightarrow> \<exists>ts. st_ListAllTodos st s = (Inr ts, s)"
    and count_Inr: "invar s \<Longrightarrow> st_CountTodos st s = (Inr sm, s') \<Longrightarrow>
          sm_Total sm = int (card (ran (view s))) \<and>
          sm_Completed sm = int (card {t \<in> ran (view s). td_Completed t}) \<and>
          sm_Outstanding sm = sm_Total sm - sm_Completed sm"
    and count_view: "invar s \<Longrightarrow> st_CountTodos st s = (cr, s') \<Longrightarrow> view s' = view s \<and> invar s'"
    and count_healthy: "invar s \<Longrightarrow> healthy s \<Longrightarrow> \<exists>sm. st_CountTodos st s = (Inr sm, s)"

subsection \<open>FakeStore\<close>

text \<open>
  The Go map is an association list with distinct keys; a \<open>range\<close> over it visits the
  entries in the order of the list, one of the orders Go allows. The mutex makes each
  method one step.
\<close>

type_synonym fake_todos = "(uuid \<times> Todo) list"

definition fake_CreateTodo :: "CreateParams \<Rightarrow> fake_todos \<Rightarrow> (goerr + Todo) \<times> fake_todos" where
  "fake_CreateTodo arg f =
     (let t = \<lparr>td_TodoID = cp_TodoID arg, td_CreatedAt = cp_CreatedAt arg,
               td_UpdatedAt = cp_UpdatedAt arg, td_Label = cp_Label arg,
               td_Completed = cp_Completed arg\<rparr>
      in (Inr t, AList.update (td_TodoID t) t f))"

definition fake_UpdateTodo :: "UpdateParams \<Rightarrow> fake_todos \<Rightarrow> (goerr + Todo) \<times> fake_todos" where
  "fake_UpdateTodo arg f =
     (case map_of f (up_TodoID arg) of
        None \<Rightarrow> (Inl (Sentinel SqlErrNoRows), f)
      | Some t \<Rightarrow>
          let t' = t\<lparr>td_Label := up_Label arg, td_Completed := up_Completed arg,
                    td_UpdatedAt := up_UpdatedAt arg\<rparr>
          in (Inr t', AList.update (up_TodoID arg) t' f))"

definition fake_DeleteTodo :: "uuid \<Rightarrow> fake_todos \<Rightarrow> goerr option \<times> fake_todos" where
  "fake_DeleteTodo i f =
     (case map_of f i of
        None \<Rightarrow> (Some (Sentinel SqlErrNoRows), f)
      | Some _ \<Rightarrow> (None, AList.delete i f))"

definition fake_FindTodoById :: "uuid \<Rightarrow> fake_todos \<Rightarrow> (goerr + Todo) \<times> fake_todos" where
  "fake_FindTodoById i f =
     (case map_of f i of
        None \<Rightarrow> (Inl (Sentinel SqlErrNoRows), f)
      | Some t \<Rightarrow> (Inr t, f))"

definition fake_ListAllTodos :: "fake_todos \<Rightarrow> (goerr + Todo list) \<times> fake_todos" where
  "fake_ListAllTodos f = (Inr (map snd f), f)"

fun count_loop :: "Todo list \<Rightarrow> int \<Rightarrow> int \<Rightarrow> int \<times> int" where
  "count_loop [] n completed = (n, completed)"
| "count_loop (t # ts) n completed =
     count_loop ts (n + 1) (if td_Completed t then completed + 1 else completed)"

definition fake_CountTodos :: "fake_todos \<Rightarrow> (goerr + TodoSummaryCounts) \<times> fake_todos" where
  "fake_CountTodos f =
     (case count_loop (map snd f) 0 0 of (n, completed) \<Rightarrow>
        (Inr \<lparr>sm_Total = n, sm_Completed = completed, sm_Outstanding = n - completed\<rparr>, f))"

definition fake_Seed :: "Todo \<Rightarrow> time \<Rightarrow> fake_todos \<Rightarrow> fake_todos" where
  "fake_Seed t now f =
     (let t1 = (if td_CreatedAt t = 0 then t\<lparr>td_CreatedAt := now\<rparr> else t);
          t2 = (if td_UpdatedAt t1 = 0 then t1\<lparr>td_UpdatedAt := td_CreatedAt t1\<rparr> else t1)
      in AList.update (td_TodoID t2) t2 f)"

definition FakeTodoStore :: "fake_todos TodoStore" where
  "FakeTodoStore = \<lparr>st_CreateTodo = fake_CreateTodo, st_UpdateTodo = fake_UpdateTodo,
     st_DeleteTodo = fake_DeleteTodo, st_FindTodoById = fake_FindTodoById,
     st_ListAllTodos = fake_ListAllTodos, st_CountTodos = fake_CountTodos\<rparr>"

definition fake_todos_ok :: "fake_todos \<Rightarrow> bool" where
  "fake_todos_ok f \<longleftrightarrow> distinct (map fst f) \<and> list_all (\<lambda>(k, t). td_TodoID t = k) f"

lemmas fake_todo_defs =
  FakeTodoStore_def fake_CreateTodo_def fake_UpdateTodo_def fake_DeleteTodo_def
  fake_FindTodoById_def fake_ListAllTodos_def fake_CountTodos_def

lemma count_loop_eq:
  "count_loop ts a b =
     (a + int (length ts), b + int (length (filter td_Completed ts)))"
  by (induction ts arbitrary: a b) auto

lemma list_all_alist_update:
  "list_all (\<lambda>(k, v). P k v) f \<Longrightarrow> P k v \<Longrightarrow> list_all (\<lambda>(k, v). P k v) (AList.update k v f)"
  by (induction f) auto

lemma list_all_alist_delete:
  "list_all (\<lambda>(k, v). P k v) f \<Longrightarrow> list_all (\<lambda>(k, v). P k v) (AList.delete k f)"
  by (induction f) (auto simp: AList.delete_eq)

lemma fake_todos_ok_update:
  "fake_todos_ok f \<Longrightarrow> td_TodoID t = k \<Longrightarrow> fake_todos_ok (AList.update k t f)"
  by (simp add: fake_todos_ok_def distinct_update list_all_alist_update)

lemma fake_todos_ok_delete: "fake_todos_ok f \<Longrightarrow> fake_todos_ok (AList.delete k f)"
  by (simp add: fake_todos_ok_def distinct_delete list_all_alist_delete)

lemma fake_todos_key: "fake_todos_ok f \<Longrightarrow> map_of f i = Some t \<Longrightarrow> td_TodoID t = i"
  by (auto simp: fake_todos_ok_def list_all_iff dest!: map_of_SomeD)

lemma fake_todos_values:
  assumes "fake_todos_ok f"
  shows "distinct (map snd f)" and "ran (map_of f) = set (map snd f)"
proof -
  have eq: "map td_TodoID (map snd f) = map fst f"
    using assms by (auto simp: fake_todos_ok_def list_all_iff)
  have "distinct (map td_TodoID (map snd f))"
    unfolding eq using assms by (simp add: fake_todos_ok_def)
  then show "distinct (map snd f)" unfolding distinct_map [of td_TodoID] by (rule conjunct1)
  show "ran (map_of f) = set (map snd f)"
    using assms by (simp add: fake_todos_ok_def ran_distinct)
qed

lemma fake_todos_counts:
  assumes "fake_todos_ok f"
  shows "length f = card (ran (map_of f))"
    and "length (filter (td_Completed \<circ> snd) f) = card {t \<in> ran (map_of f). td_Completed t}"
proof -
  note vals = fake_todos_values [OF assms]
  show "length f = card (ran (map_of f))"
    using distinct_card [OF vals(1)] vals(2) by simp
  have "{t \<in> ran (map_of f). td_Completed t} = set (filter td_Completed (map snd f))"
    using vals(2) by auto
  then show "length (filter (td_Completed \<circ> snd) f) = card {t \<in> ran (map_of f). td_Completed t}"
    using distinct_card [OF distinct_filter [OF vals(1)], of td_Completed]
    by (simp add: filter_map)
qed

interpretation fake_todo: todo_store FakeTodoStore map_of fake_todos_ok "\<lambda>_. True"
proof (unfold_locales, goal_cases)
  case (20 s ts s')
  then show ?case by (simp add: fake_todo_defs) (metis fake_todos_values)
next
  case (23 s sm s')
  then show ?case by (auto simp: fake_todo_defs count_loop_eq fake_todos_counts)
qed (auto simp: fake_todo_defs created_todo_def updated_todo_def update_conv' delete_conv'
      count_loop_eq Let_def fake_todos_key fake_todos_ok_delete
      intro!: fake_todos_ok_update split: option.splits)

end
