(* ===== verification/Database.thy ===== *)
theory Database
  imports Platform
begin

text \<open>
  The Postgres database as the sqlc-generated packages see it: one record with a list of
  rows per table, and the outcome of every statement still to be sent. Row records follow
  \<open>internal/*/postgres/models.go\<close>; \<open>sql.NullTime\<close> and \<open>sql.NullString\<close> are options,
  \<open>None\<close> for SQL's \<open>NULL\<close>.

  A statement sent to the server is served, or refused (it was not executed), or executed
  while its reply is lost: the client sees an error in the last two cases and cannot tell
  them apart. The record carries the outcomes of the coming statements as a script; an
  exhausted script means every further statement is served. Theorems over every script
  are theorems over every pattern of failures.
\<close>

datatype outcome = Served | Refused string | Unacked string

record TodosTodo =
  tt_TodoID :: uuid
  tt_CreatedAt :: time
  tt_UpdatedAt :: time
  tt_Label :: string
  tt_Completed :: bool

record ReportsReport =
  rr_ReportID :: uuid
  rr_OwnerUserID :: string
  rr_ReportType :: string
  rr_Status :: string
  rr_CreatedAt :: time
  rr_UpdatedAt :: time
  rr_StartedAt :: "time option"
  rr_CompletedAt :: "time option"
  rr_FailureReason :: "string option"
  rr_Result :: "string option"
  rr_ProcessingStartedAt :: "time option"
  rr_FailureCode :: "string option"

record AuthUser =
  au_UserID :: uuid
  au_Email :: string
  au_PasswordHash :: string
  au_Roles :: "string list"
  au_CreatedAt :: time

record AuthSession =
  as_SessionID :: uuid
  as_UserID :: uuid
  as_ExpiresAt :: time
  as_CreatedAt :: time

record AuthApiToken =
  at_TokenID :: uuid
  at_UserID :: uuid
  at_TokenHash :: string
  at_ExpiresAt :: time
  at_CreatedAt :: time

text \<open>
  JSON documents as \<open>encoding/json\<close> and the \<open>JSONB\<close> column see them: objects are
  lists of members. The text syntax is abstracted.
\<close>

datatype json =
    JNull
  | JBool bool
  | JNum int
  | JStr string
  | JArr "json list"
  | JObj "(string \<times> json) list"

record Job =
  job_id :: uuid
  job_type :: string
  job_payload :: json
  job_run_at :: time
  job_attempts :: int
  job_max_attempts :: int
  job_locked_until :: "time option"
  job_completed_at :: "time option"
  job_last_error :: "string option"
  job_created_at :: time

record db =
  net :: "outcome list"
  todos_todos :: "TodosTodo list"
  auth_users :: "AuthUser list"
  auth_sessions :: "AuthSession list"
  auth_api_tokens :: "AuthApiToken list"
  reports_reports :: "ReportsReport list"
  platform_jobs :: "Job list"

definition empty_db :: db where
  "empty_db = \<lparr>net = [], todos_todos = [], auth_users = [], auth_sessions = [],
     auth_api_tokens = [], reports_reports = [], platform_jobs = []\<rparr>"

definition next_outcome :: "db \<Rightarrow> outcome \<times> db" where
  "next_outcome d = (case net d of [] \<Rightarrow> (Served, d) | x # xs \<Rightarrow> (x, d\<lparr>net := xs\<rparr>))"

text \<open>One round trip to the server with the statement \<open>stmt\<close>.\<close>

definition run_stmt :: "(db \<Rightarrow> (goerr + 'a) \<times> db) \<Rightarrow> db \<Rightarrow> (goerr + 'a) \<times> db" where
  "run_stmt stmt d =
     (case next_outcome d of
        (Served, d') \<Rightarrow> stmt d'
      | (Refused m, d') \<Rightarrow> (Inl (OtherErr m), d')
      | (Unacked m, d') \<Rightarrow> (Inl (OtherErr m), snd (stmt d')))"

definition duplicate_key :: goerr where
  "duplicate_key = OtherErr ''pq: duplicate key value violates unique constraint''"

definition foreign_key :: goerr where
  "foreign_key = OtherErr ''pq: insert or update on table violates foreign key constraint''"

definition not_null :: goerr where
  "not_null = OtherErr ''pq: null value violates not-null constraint''"

lemma server_errors_not_no_rows [simp]:
  "\<not> errors_Is duplicate_key SqlErrNoRows"
  "\<not> errors_Is foreign_key SqlErrNoRows"
  "\<not> errors_Is not_null SqlErrNoRows"
  by (simp_all add: duplicate_key_def foreign_key_def not_null_def)

text \<open>
  Case analysis of a round trip: the client has the statement's reply, or an error that
  is not \<open>ErrNoRows\<close> and a database where the statement ran or did not run.
\<close>

lemma run_stmt_cases:
  assumes "run_stmt stmt d = (r, d')"
  obtains (reply) xs where "stmt (d\<lparr>net := xs\<rparr>) = (r, d')"
  | (refused) m xs where "r = Inl (OtherErr m)" and "d' = d\<lparr>net := xs\<rparr>"
  | (unacked) m xs where "r = Inl (OtherErr m)" and "d' = snd (stmt (d\<lparr>net := xs\<rparr>))"
proof -
  obtain oc d1 where oc: "next_outcome d = (oc, d1)" by force
  then have "d1 = d\<lparr>net := tl (net d)\<rparr>"
    by (cases d; cases "net d") (auto simp: next_outcome_def)
  then obtain xs where d1: "d1 = d\<lparr>net := xs\<rparr>" by blast
  show thesis
    using assms oc d1 that by (cases oc) (auto simp: run_stmt_def)
qed

lemma run_stmt_served [simp]: "net d = [] \<Longrightarrow> run_stmt stmt d = stmt d"
  by (simp add: run_stmt_def next_outcome_def)

lemma run_stmt_preserves:
  assumes "run_stmt stmt d = (r, d')"
    and "\<And>xs. P (d\<lparr>net := xs\<rparr>)"
    and "\<And>xs. P (snd (stmt (d\<lparr>net := xs\<rparr>)))"
  shows "P d'"
  using assms(1) by (cases rule: run_stmt_cases) (use assms(2,3) in \<open>auto, metis snd_conv\<close>)

text \<open>A statement that only reads: the tables are as before.\<close>

lemma run_stmt_read:
  assumes "run_stmt (\<lambda>d. (f d, d)) d = (r, d')"
  shows "\<exists>xs. d' = d\<lparr>net := xs\<rparr> \<and> (r = f (d\<lparr>net := xs\<rparr>) \<or> (\<exists>m. r = Inl (OtherErr m)))"
  using assms by (cases rule: run_stmt_cases) auto

end
