(* ===== verification/Todos_Postgres.thy ===== *)
theory Todos_Postgres
  imports Todos_Store Database
begin

text \<open>
  The Postgres side of the todos domain: the sqlc queries of
  \<open>todos/postgres/todos.sql.go\<close> as functions on the \<open>todos.todos\<close> table, the adapter
  \<open>todos/postgres/store.go\<close> that makes them a \<open>TodoStore\<close>, and its interpretation of
  the store contract, for every script of statement outcomes.
\<close>

subsection \<open>Queries\<close>

record CountTodosRow =
  ct_Total :: int
  ct_Completed :: int

definition q_CountTodos :: "db \<Rightarrow> (goerr + CountTodosRow) \<times> db" where
  "q_CountTodos = run_stmt (\<lambda>d.
     (Inr \<lparr>ct_Total = int (length (todos_todos d)),
           ct_Completed = int (length (filter tt_Completed (todos_todos d)))\<rparr>, d))"

record CreateTodoParams =
  ctp_TodoID :: uuid
  ctp_CreatedAt :: time
  ctp_UpdatedAt :: time
  ctp_Label :: string
  ctp_Completed :: bool

definition q_CreateTodo :: "CreateTodoParams \<Rightarrow> db \<Rightarrow> (goerr + TodosTodo) \<times> db" where
  "q_CreateTodo arg = run_stmt (\<lambda>d.
     let row = \<lparr>tt_TodoID = ctp_TodoID arg, tt_CreatedAt = ctp_CreatedAt arg,
                tt_UpdatedAt = ctp_UpdatedAt arg, tt_Label = ctp_Label arg,
                tt_Completed = ctp_Completed arg\<rparr>
     in if tt_TodoID row \<in> tt_TodoID ` set (todos_todos d) then (Inl duplicate_key, d)
        else (Inr row, d\<lparr>todos_todos := insert_row row (todos_todos d)\<rparr>))"

definition q_DeleteTodo :: "uuid \<Rightarrow> db \<Rightarrow> (goerr + unit) \<times> db" where
  "q_DeleteTodo todoID = run_stmt (\<lambda>d.
     (Inr (), d\<lparr>todos_todos := delete_rows tt_TodoID todoID (todos_todos d)\<rparr>))"

definition q_FindTodoById :: "uuid \<Rightarrow> db \<Rightarrow> (goerr + TodosTodo) \<times> db" where
  "q_FindTodoById todoID = run_stmt (\<lambda>d.
     (case select_row tt_TodoID todoID (todos_todos d) of
        None \<Rightarrow> (Inl (Sentinel SqlErrNoRows), d)
      | Some row \<Rightarrow> (Inr row, d)))"

definition q_ListAllTodos :: "db \<Rightarrow> (goerr + TodosTodo list) \<times> db" where
  "q_ListAllTodos = run_stmt (\<lambda>d. (Inr (order_by_desc tt_CreatedAt (todos_todos d)), d))"

record UpdateTodoParams =
  utp_TodoID :: uuid
  utp_UpdatedAt :: time
  utp_Label :: string
  utp_Completed :: bool

definition q_UpdateTodo :: "UpdateTodoParams \<Rightarrow> db \<Rightarrow> (goerr + TodosTodo) \<times> db" where
  "q_UpdateTodo arg = run_stmt (\<lambda>d.
     let set_cols = (\<lambda>row. row\<lparr>tt_UpdatedAt := utp_UpdatedAt arg, tt_Label := utp_Label arg,
                              tt_Completed := utp_Completed arg\<rparr>)
     in case select_row tt_TodoID (utp_TodoID arg) (todos_todos d) of
          None \<Rightarrow> (Inl (Sentinel SqlErrNoRows), d)
        | Some row \<Rightarrow> (Inr (set_cols row),
            d\<lparr>todos_todos := update_rows tt_TodoID (utp_TodoID arg) set_cols (todos_todos d)\<rparr>))"

subsection \<open>Adapter\<close>

definition mapTodo :: "TodosTodo \<Rightarrow> Todo" where
  "mapTodo r = \<lparr>td_TodoID = tt_TodoID r, td_CreatedAt = tt_CreatedAt r,
     td_UpdatedAt = tt_UpdatedAt r, td_Label = tt_Label r, td_Completed = tt_Completed r\<rparr>"

definition pg_CreateTodo :: "CreateParams \<Rightarrow> db \<Rightarrow> (goerr + Todo) \<times> db" where
  "pg_CreateTodo arg d =
     (case q_CreateTodo \<lparr>ctp_TodoID = cp_TodoID arg, ctp_CreatedAt = cp_CreatedAt arg,
             ctp_UpdatedAt = cp_UpdatedAt arg, ctp_Label = cp_Label arg,
             ctp_Completed = cp_Completed arg\<rparr> d of
        (Inl err, d') \<Rightarrow> (Inl err, d')
      | (Inr row, d') \<Rightarrow> (Inr (mapTodo row), d'))"

definition pg_UpdateTodo :: "UpdateParams \<Rightarrow> db \<Rightarrow> (goerr + Todo) \<times> db" where
  "pg_UpdateTodo arg d =
     (case q_UpdateTodo \<lparr>utp_TodoID = up_TodoID arg, utp_UpdatedAt = up_UpdatedAt arg,
             utp_Label = up_Label arg, utp_Completed = up_Completed arg\<rparr> d of
        (Inl err, d') \<Rightarrow> (Inl err, d')
      | (Inr row, d') \<Rightarrow> (Inr (mapTodo row), d'))"

definition pg_DeleteTodo :: "uuid \<Rightarrow> db \<Rightarrow> goerr option \<times> db" where
  "pg_DeleteTodo todoID d =
     (case q_DeleteTodo todoID d of (Inl err, d') \<Rightarrow> (Some err, d') | (Inr _, d') \<Rightarrow> (None, d'))"

definition pg_FindTodoById :: "uuid \<Rightarrow> db \<Rightarrow> (goerr + Todo) \<times> db" where
  "pg_FindTodoById todoID d =
     (case q_FindTodoById todoID d of
        (Inl err, d') \<Rightarrow> (Inl err, d')
      | (Inr row, d') \<Rightarrow> (Inr (mapTodo row), d'))"

definition pg_ListAllTodos :: "db \<Rightarrow> (goerr + Todo list) \<times> db" where
  "pg_ListAllTodos d =
     (case q_ListAllTodos d of
        (Inl err, d') \<Rightarrow> (Inl err, d')
      | (Inr rows, d') \<Rightarrow> (Inr (map mapTodo rows), d'))"

definition pg_CountTodos :: "db \<Rightarrow> (goerr + TodoSummaryCounts) \<times> db" where
  "pg_CountTodos d =
     (case q_CountTodos d of
        (Inl err, d') \<Rightarrow> (Inl err, d')
      | (Inr row, d') \<Rightarrow> (Inr \<lparr>sm_Total = ct_Total row, sm_Completed = ct_Completed row,
                              sm_Outstanding = ct_Total row - ct_Completed row\<rparr>, d'))"

definition PgTodoStore :: "db TodoStore" where
  "PgTodoStore = \<lparr>st_CreateTodo = pg_CreateTodo, st_UpdateTodo = pg_UpdateTodo,
     st_DeleteTodo = pg_DeleteTodo, st_FindTodoById = pg_FindTodoById,
     st_ListAllTodos = pg_ListAllTodos, st_CountTodos = pg_CountTodos\<rparr>"

subsection \<open>The adapter meets the contract\<close>

definition todos_view :: "TodosTodo list \<Rightarrow> uuid \<Rightarrow> Todo option" where
  "todos_view rows i = map_option mapTodo (select_row tt_TodoID i rows)"

definition pg_todos_view :: "db \<Rightarrow> uuid \<Rightarrow> Todo option" where
  "pg_todos_view d = todos_view (todos_todos d)"

definition pg_todos_ok :: "db \<Rightarrow> bool" where
  "pg_todos_ok d \<longleftrightarrow> keyed tt_TodoID (todos_todos d)"

definition db_healthy :: "db \<Rightarrow> bool" where
  "db_healthy d \<longleftrightarrow> net d = []"

lemmas pg_todo_defs =
  PgTodoStore_def pg_CreateTodo_def pg_UpdateTodo_def pg_DeleteTodo_def
  pg_FindTodoById_def pg_ListAllTodos_def pg_CountTodos_def

lemmas q_todo_defs =
  q_CreateTodo_def q_UpdateTodo_def q_DeleteTodo_def q_FindTodoById_def
  q_ListAllTodos_def q_CountTodos_def

lemmas pg_todo_state = pg_todos_view_def pg_todos_ok_def db_healthy_def

lemma td_TodoID_mapTodo [simp]: "td_TodoID (mapTodo r) = tt_TodoID r"
  by (simp add: mapTodo_def)

lemma td_Completed_mapTodo [simp]: "td_Completed (mapTodo r) = tt_Completed r"
  by (simp add: mapTodo_def)

lemma mapTodo_inject [simp]: "mapTodo r = mapTodo r' \<longleftrightarrow> r = r'"
  by (cases r; cases r') (auto simp: mapTodo_def)

lemma todos_view_key: "todos_view rows i = Some t \<Longrightarrow> td_TodoID t = i"
  by (auto simp: todos_view_def dest: select_row_Some)

lemma todos_view_None: "todos_view rows i = None \<longleftrightarrow> i \<notin> tt_TodoID ` set rows"
  by (simp add: todos_view_def select_row_None)

lemma todos_view_update:
  "todos_view (update_rows tt_TodoID i
       (\<lambda>row. row\<lparr>tt_UpdatedAt := u, tt_Label := l, tt_Completed := c\<rparr>) rows) =
   (\<lambda>j. if j = i then map_option (\<lambda>t. t\<lparr>td_Label := l, td_Completed := c, td_UpdatedAt := u\<rparr>)
                     (todos_view rows i)
    else todos_view rows j)"
  by (rule ext, cases "select_row tt_TodoID i rows")
    (auto simp: todos_view_def row_simps mapTodo_def)

lemma todos_view_delete: "todos_view (delete_rows tt_TodoID i rows) = (todos_view rows)(i := None)"
  by (simp add: fun_eq_iff todos_view_def row_simps)

lemma todos_view_insert:
  "tt_TodoID row \<notin> tt_TodoID ` set rows \<Longrightarrow>
   todos_view (insert_row row rows) = (todos_view rows)(tt_TodoID row \<mapsto> mapTodo row)"
  by (auto simp: fun_eq_iff todos_view_def row_simps select_row_None [THEN iffD2]
      split: option.splits dest: select_row_Some)

lemma ran_todos_view: "keyed tt_TodoID rows \<Longrightarrow> ran (todos_view rows) = mapTodo ` set rows"
  by (force simp: ran_def todos_view_def select_row_iff)

lemma todos_counts:
  assumes "keyed tt_TodoID rows"
  shows "length rows = card (ran (todos_view rows))"
    and "length (filter tt_Completed rows) = card {t \<in> ran (todos_view rows). td_Completed t}"
proof -
  have dist: "distinct rows" using assms by (rule keyed_distinct)
  have inj: "inj_on mapTodo A" for A by (auto intro: inj_onI)
  show "length rows = card (ran (todos_view rows))"
    using dist by (simp add: ran_todos_view [OF assms] card_image [OF inj] distinct_card)
  have "{t \<in> ran (todos_view rows). td_Completed t} = mapTodo ` set (filter tt_Completed rows)"
    by (auto simp: ran_todos_view [OF assms])
  then show "length (filter tt_Completed rows) = card {t \<in> ran (todos_view rows). td_Completed t}"
    using distinct_card [OF distinct_filter [OF dist], of tt_Completed]
    by (simp only: card_image [OF inj])
qed

lemma mapTodo_row:
  "mapTodo \<lparr>tt_TodoID = i, tt_CreatedAt = a, tt_UpdatedAt = b, tt_Label = l, tt_Completed = c\<rparr> =
     \<lparr>td_TodoID = i, td_CreatedAt = a, td_UpdatedAt = b, td_Label = l, td_Completed = c\<rparr>"
  by (simp add: mapTodo_def)

lemma pg_CreateTodo_spec:
  assumes "pg_CreateTodo p d = (r, d')" and "pg_todos_ok d"
  shows "pg_todos_ok d' \<and>
    (case r of
       Inr t \<Rightarrow> t = created_todo p \<and> pg_todos_view d' = (pg_todos_view d)(cp_TodoID p \<mapsto> t)
     | Inl e \<Rightarrow> pg_todos_view d' = pg_todos_view d \<or>
                pg_todos_view d' = (pg_todos_view d)(cp_TodoID p \<mapsto> created_todo p))"
proof -
  obtain rr where q: "q_CreateTodo \<lparr>ctp_TodoID = cp_TodoID p, ctp_CreatedAt = cp_CreatedAt p,
      ctp_UpdatedAt = cp_UpdatedAt p, ctp_Label = cp_Label p, ctp_Completed = cp_Completed p\<rparr> d
      = (rr, d')" and r: "r = map_sum id mapTodo rr"
    using assms(1) by (auto simp: pg_CreateTodo_def split: prod.splits sum.splits)
  from q show ?thesis unfolding q_CreateTodo_def
    using assms(2) r
    by (cases rule: run_stmt_cases)
      (auto simp: Let_def pg_todo_state todos_view_insert mapTodo_row created_todo_def
        split: if_splits)
qed

lemma pg_UpdateTodo_spec:
  assumes "pg_UpdateTodo p d = (r, d')" and "pg_todos_ok d"
  shows "pg_todos_ok d' \<and>
    (case r of
       Inr t \<Rightarrow> \<exists>t0. pg_todos_view d (up_TodoID p) = Some t0 \<and> t = updated_todo p t0 \<and>
                    pg_todos_view d' = (pg_todos_view d)(up_TodoID p \<mapsto> t)
     | Inl e \<Rightarrow> (errors_Is e SqlErrNoRows \<longrightarrow> pg_todos_view d (up_TodoID p) = None) \<and>
                (pg_todos_view d' = pg_todos_view d \<or>
                 (\<exists>t0. pg_todos_view d (up_TodoID p) = Some t0 \<and>
                       pg_todos_view d' = (pg_todos_view d)(up_TodoID p \<mapsto> updated_todo p t0))))"
proof -
  obtain rr where q: "q_UpdateTodo \<lparr>utp_TodoID = up_TodoID p, utp_UpdatedAt = up_UpdatedAt p,
      utp_Label = up_Label p, utp_Completed = up_Completed p\<rparr> d = (rr, d')"
    and r: "r = map_sum id mapTodo rr"
    using assms(1) by (auto simp: pg_UpdateTodo_def split: prod.splits sum.splits)
  have map_upd: "mapTodo (row\<lparr>tt_UpdatedAt := up_UpdatedAt p, tt_Label := up_Label p,
      tt_Completed := up_Completed p\<rparr>) = updated_todo p (mapTodo row)" for row
    by (simp add: mapTodo_def updated_todo_def)
  from q show ?thesis unfolding q_UpdateTodo_def
    using assms(2) r
    by (cases rule: run_stmt_cases; cases "select_row tt_TodoID (up_TodoID p) (todos_todos d)")
      (auto simp: Let_def pg_todo_state todos_view_update todos_view_def map_upd
        updated_todo_def fun_eq_iff)
qed

lemma pg_DeleteTodo_spec:
  assumes "pg_DeleteTodo i d = (r, d')" and "pg_todos_ok d"
  shows "pg_todos_ok d' \<and>
    (case r of
       None \<Rightarrow> pg_todos_view d' = (pg_todos_view d)(i := None)
     | Some e \<Rightarrow> pg_todos_view d' = pg_todos_view d \<or> pg_todos_view d' = (pg_todos_view d)(i := None))"
proof -
  obtain rr where q: "q_DeleteTodo i d = (rr, d')"
    and r: "r = (case rr of Inl e \<Rightarrow> Some e | Inr _ \<Rightarrow> None)"
    using assms(1) by (auto simp: pg_DeleteTodo_def split: prod.splits sum.splits)
  from q show ?thesis unfolding q_DeleteTodo_def
    using assms(2) r
    by (cases rule: run_stmt_cases) (auto simp: pg_todo_state todos_view_delete keyed_delete)
qed

lemma pg_FindTodoById_spec:
  assumes "pg_FindTodoById i d = (r, d')"
  shows "todos_todos d' = todos_todos d \<and>
    (case r of Inr t \<Rightarrow> pg_todos_view d i = Some t
     | Inl e \<Rightarrow> errors_Is e SqlErrNoRows \<longrightarrow> pg_todos_view d i = None)"
proof -
  obtain rr where q: "q_FindTodoById i d = (rr, d')" and r: "r = map_sum id mapTodo rr"
    using assms by (auto simp: pg_FindTodoById_def split: prod.splits sum.splits)
  have "q_FindTodoById i = run_stmt (\<lambda>d.
      (case select_row tt_TodoID i (todos_todos d) of
         None \<Rightarrow> Inl (Sentinel SqlErrNoRows) | Some row \<Rightarrow> Inr row, d))"
    unfolding q_FindTodoById_def by (rule arg_cong [where f = run_stmt]) (auto split: option.splits)
  from run_stmt_read [OF q [unfolded this]] r show ?thesis
    by (auto simp: pg_todo_state todos_view_def split: option.splits)
qed

lemma pg_ListAllTodos_spec:
  assumes "pg_ListAllTodos d = (r, d')"
  shows "todos_todos d' = todos_todos d \<and>
    (\<forall>ts. r = Inr ts \<longrightarrow> ts = map mapTodo (order_by_desc tt_CreatedAt (todos_todos d)))"
proof -
  obtain rr where q: "q_ListAllTodos d = (rr, d')" and r: "r = map_sum id (map mapTodo) rr"
    using assms by (auto simp: pg_ListAllTodos_def split: prod.splits sum.splits)
  from run_stmt_read [OF q [unfolded q_ListAllTodos_def]] r show ?thesis by auto
qed

lemma pg_CountTodos_spec:
  assumes "pg_CountTodos d = (r, d')"
  shows "todos_todos d' = todos_todos d \<and>
    (\<forall>sm. r = Inr sm \<longrightarrow>
       sm_Total sm = int (length (todos_todos d)) \<and>
       sm_Completed sm = int (length (filter tt_Completed (todos_todos d))) \<and>
       sm_Outstanding sm = sm_Total sm - sm_Completed sm)"
proof -
  obtain rr where q: "q_CountTodos d = (rr, d')"
    and r: "r = map_sum id (\<lambda>row. \<lparr>sm_Total = ct_Total row, sm_Completed = ct_Completed row,
                              sm_Outstanding = ct_Total row - ct_Completed row\<rparr>) rr"
    using assms by (auto simp: pg_CountTodos_def split: prod.splits sum.splits)
  from run_stmt_read [OF q [unfolded q_CountTodos_def]] r show ?thesis by auto
qed

lemma pg_todos_healthy:
  assumes "db_healthy d"
  shows "pg_todos_view d (cp_TodoID p) = None \<Longrightarrow>
      \<exists>d'. pg_CreateTodo p d = (Inr (created_todo p), d') \<and> db_healthy d'"
    and "pg_todos_view d (up_TodoID q) = Some t0 \<Longrightarrow>
      \<exists>d'. pg_UpdateTodo q d = (Inr (updated_todo q t0), d') \<and> db_healthy d'"
    and "pg_todos_view d (up_TodoID q) = None \<Longrightarrow>
      pg_UpdateTodo q d = (Inl (Sentinel SqlErrNoRows), d)"
    and "\<exists>d'. pg_DeleteTodo i d = (None, d') \<and> db_healthy d'"
    and "pg_FindTodoById i d =
      ((case pg_todos_view d i of Some t \<Rightarrow> Inr t | None \<Rightarrow> Inl (Sentinel SqlErrNoRows)), d)"
    and "\<exists>ts. pg_ListAllTodos d = (Inr ts, d)"
    and "\<exists>sm. pg_CountTodos d = (Inr sm, d)"
  using assms
  by (auto simp: pg_todo_defs q_todo_defs pg_todo_state Let_def mapTodo_row
      created_todo_def todos_view_def updated_todo_def mapTodo_def
      split: option.splits dest: select_row_None [THEN iffD1])

lemma pg_store_ops [simp]:
  "st_CreateTodo PgTodoStore = pg_CreateTodo" "st_UpdateTodo PgTodoStore = pg_UpdateTodo"
  "st_DeleteTodo PgTodoStore = pg_DeleteTodo" "st_FindTodoById PgTodoStore = pg_FindTodoById"
  "st_ListAllTodos PgTodoStore = pg_ListAllTodos" "st_CountTodos PgTodoStore = pg_CountTodos"
  by (simp_all add: PgTodoStore_def)

lemma pg_ListAllTodos_content:
  assumes "pg_todos_ok d" and "pg_ListAllTodos d = (Inr ts, d')"
  shows "set ts = ran (pg_todos_view d)" and "distinct ts"
proof -
  from pg_ListAllTodos_spec [OF assms(2)]
  have ts: "ts = map mapTodo (order_by_desc tt_CreatedAt (todos_todos d))" by simp
  from assms(1) have key: "keyed tt_TodoID (todos_todos d)" by (simp add: pg_todos_ok_def)
  show "set ts = ran (pg_todos_view d)"
    by (simp add: ts pg_todos_view_def ran_todos_view [OF key])
  show "distinct ts"
    using keyed_distinct [OF key] by (simp add: ts distinct_map inj_on_def)
qed

lemma pg_CountTodos_content:
  assumes "pg_todos_ok d" and "pg_CountTodos d = (Inr sm, d')"
  shows "sm_Total sm = int (card (ran (pg_todos_view d))) \<and>
         sm_Completed sm = int (card {t \<in> ran (pg_todos_view d). td_Completed t}) \<and>
         sm_Outstanding sm = sm_Total sm - sm_Completed sm"
  using pg_CountTodos_spec [OF assms(2)] todos_counts [OF assms(1) [unfolded pg_todos_ok_def]]
  by (simp add: pg_todos_view_def)

lemma pg_todos_reads:
  assumes "pg_todos_ok d"
  shows "pg_FindTodoById i d = (r, d') \<Longrightarrow> pg_todos_view d' = pg_todos_view d \<and> pg_todos_ok d'"
    and "pg_ListAllTodos d = (lr, d') \<Longrightarrow> pg_todos_view d' = pg_todos_view d \<and> pg_todos_ok d'"
    and "pg_CountTodos d = (cr, d') \<Longrightarrow> pg_todos_view d' = pg_todos_view d \<and> pg_todos_ok d'"
  using assms pg_FindTodoById_spec [of i d r d'] pg_ListAllTodos_spec [of d lr d']
    pg_CountTodos_spec [of d cr d']
  by (simp_all add: pg_todo_state)

text \<open>The specifications with the reply's two shapes apart, as the contract states them.\<close>

lemmas pg_todo_laws =
  pg_CreateTodo_spec [where r = "Inr t" for t, simplified]
  pg_CreateTodo_spec [where r = "Inl e" for e, simplified]
  pg_UpdateTodo_spec [where r = "Inr t" for t, simplified]
  pg_UpdateTodo_spec [where r = "Inl e" for e, simplified]
  pg_DeleteTodo_spec [where r = None, simplified]
  pg_DeleteTodo_spec [where r = "Some e" for e, simplified]
  pg_FindTodoById_spec [where r = "Inr t" for t, simplified]
  pg_FindTodoById_spec [where r = "Inl e" for e, simplified]

interpretation pg_todo: todo_store PgTodoStore pg_todos_view pg_todos_ok db_healthy
proof (unfold_locales, unfold pg_store_ops, goal_cases)
  case 1 then show ?case by (simp add: pg_todo_state todos_view_key)
next
  case 20 then show ?case by (metis pg_ListAllTodos_content)
next
  case 23 then show ?case by (metis pg_CountTodos_content)
qed ((rule pg_todos_healthy pg_todos_reads; assumption)
    | blast dest: pg_todo_laws pg_CreateTodo_spec pg_UpdateTodo_spec pg_DeleteTodo_spec)+

end
