(* ===== verification/Todos_Service.thy ===== *)
theory Todos_Service
  imports Todos_Postgres
begin

text \<open>
  The todos application service, \<open>todos/service.go\<close>, over any store. Its lemmas are
  proved once in the locale \<open>todo_service\<close> from the store contract; the interpretations
  at the end instantiate them for the in-memory store and for Postgres.
\<close>

subsection \<open>The service\<close>

record 's TodoService =
  ts_store :: "'s TodoStore"
  ts_bus :: "(Todo, 's) Bus option"
  ts_authDisabled :: bool

definition NewTodoService :: "'s TodoStore \<Rightarrow> (Todo, 's) Bus option \<Rightarrow> bool \<Rightarrow> 's TodoService" where
  "NewTodoService store bus authDisabled =
     \<lparr>ts_store = store, ts_bus = bus, ts_authDisabled = authDisabled\<rparr>"

definition authorize :: "'s TodoService \<Rightarrow> ctx \<Rightarrow> goerr option" where
  "authorize svc c =
     (case FromContext c of (p, _) \<Rightarrow>
        (case RequireAuthenticated p (ts_authDisabled svc) of
           Some _ \<Rightarrow> Some (Errorf_w (Sentinel ErrPermissionDenied) ''authentication required'')
         | None \<Rightarrow> None))"

definition CreateTodo ::
  "'s TodoService \<Rightarrow> ctx \<Rightarrow> TodoParams \<Rightarrow> time \<Rightarrow> uuid \<Rightarrow> 's \<Rightarrow> (goerr + Todo) \<times> 's" where
  "CreateTodo svc c req now newID s =
     (case authorize svc c of
        Some err \<Rightarrow> (Inl err, s)
      | None \<Rightarrow>
          if tp_Label req = '''' then
            (Inl (Errorf_w (Sentinel ErrValidation) ''label is required''), s)
          else
            let model = \<lparr>cp_TodoID = newID, cp_CreatedAt = now, cp_UpdatedAt = now,
                         cp_Label = tp_Label req, cp_Completed = tp_Completed req\<rparr>
            in case st_CreateTodo (ts_store svc) model s of
                 (Inl err, s1) \<Rightarrow>
                   (Inl (Errorf_w (Sentinel ErrInternal) ''failed to create todo''), s1)
               | (Inr result, s1) \<Rightarrow>
                   (case ts_bus svc of
                      None \<Rightarrow> (Inr result, s1)
                    | Some b \<Rightarrow>
                        (Inr result,
                         snd (Publish b c \<lparr>ev_Name = EventTodoCreated, ev_Payload = result\<rparr> s1))))"

definition UpdateTodo ::
  "'s TodoService \<Rightarrow> ctx \<Rightarrow> string \<Rightarrow> TodoParams \<Rightarrow> time \<Rightarrow> 's \<Rightarrow> (goerr + Todo) \<times> 's" where
  "UpdateTodo svc c todoID req now s =
     (case authorize svc c of
        Some err \<Rightarrow> (Inl err, s)
      | None \<Rightarrow>
          if tp_Label req = '''' then
            (Inl (Errorf_w (Sentinel ErrValidation) ''label is required''), s)
          else (case uuid_Parse todoID of
            Inl _ \<Rightarrow> (Inl (Errorf_w (Sentinel ErrBadRequest) ''invalid todo id''), s)
          | Inr i \<Rightarrow>
              (case st_UpdateTodo (ts_store svc)
                      \<lparr>up_TodoID = i, up_UpdatedAt = now, up_Label = tp_Label req,
                       up_Completed = tp_Completed req\<rparr> s of
                 (Inl err, s1) \<Rightarrow>
                   if errors_Is err SqlErrNoRows
                   then (Inl (Errorf_w (Sentinel ErrNotFound) ''todo not found''), s1)
                   else (Inl (Errorf_w (Sentinel ErrInternal) ''failed to update todo''), s1)
               | (Inr result, s1) \<Rightarrow> (Inr result, s1))))"

definition DeleteTodo :: "'s TodoService \<Rightarrow> ctx \<Rightarrow> string \<Rightarrow> 's \<Rightarrow> goerr option \<times> 's" where
  "DeleteTodo svc c todoID s =
     (case authorize svc c of
        Some err \<Rightarrow> (Some err, s)
      | None \<Rightarrow>
          (case uuid_Parse todoID of
            Inl _ \<Rightarrow> (Some (Errorf_w (Sentinel ErrBadRequest) ''invalid todo id''), s)
          | Inr i \<Rightarrow>
              (case st_FindTodoById (ts_store svc) i s of
                 (Inl err, s1) \<Rightarrow>
                   if errors_Is err SqlErrNoRows
                   then (Some (Errorf_w (Sentinel ErrNotFound) ''todo not found''), s1)
                   else (Some (Errorf_w (Sentinel ErrInternal) ''failed to delete todo''), s1)
               | (Inr _, s1) \<Rightarrow>
                   (case st_DeleteTodo (ts_store svc) i s1 of
                      (Some _, s2) \<Rightarrow>
                        (Some (Errorf_w (Sentinel ErrInternal) ''failed to delete todo''), s2)
                    | (None, s2) \<Rightarrow> (None, s2)))))"

definition FindTodoById :: "'s TodoService \<Rightarrow> ctx \<Rightarrow> string \<Rightarrow> 's \<Rightarrow> (goerr + Todo) \<times> 's" where
  "FindTodoById svc c todoID s =
     (case authorize svc c of
        Some err \<Rightarrow> (Inl err, s)
      | None \<Rightarrow>
          (case uuid_Parse todoID of
            Inl _ \<Rightarrow> (Inl (Errorf_w (Sentinel ErrBadRequest) ''invalid todo id''), s)
          | Inr i \<Rightarrow>
              (case st_FindTodoById (ts_store svc) i s of
                 (Inl err, s1) \<Rightarrow>
                   if errors_Is err SqlErrNoRows
                   then (Inl (Errorf_w (Sentinel ErrNotFound) ''todo not found''), s1)
                   else (Inl (Errorf_w (Sentinel ErrInternal) ''failed to find todo''), s1)
               | (Inr result, s1) \<Rightarrow> (Inr result, s1))))"

definition ListAllTodos :: "'s TodoService \<Rightarrow> ctx \<Rightarrow> 's \<Rightarrow> (goerr + Todo list) \<times> 's" where
  "ListAllTodos svc c s =
     (case authorize svc c of
        Some err \<Rightarrow> (Inl err, s)
      | None \<Rightarrow>
          (case st_ListAllTodos (ts_store svc) s of
             (Inl _, s1) \<Rightarrow> (Inl (Errorf_w (Sentinel ErrInternal) ''failed to list todos''), s1)
           | (Inr result, s1) \<Rightarrow> (Inr result, s1)))"

definition Summary :: "'s TodoService \<Rightarrow> ctx \<Rightarrow> 's \<Rightarrow> (goerr + TodoSummaryCounts) \<times> 's" where
  "Summary svc c s =
     (case authorize svc c of
        Some err \<Rightarrow> (Inl err, s)
      | None \<Rightarrow>
          (case st_CountTodos (ts_store svc) s of
             (Inl _, s1) \<Rightarrow> (Inl (Errorf_w (Sentinel ErrInternal) ''failed to summarise todos''), s1)
           | (Inr result, s1) \<Rightarrow> (Inr result, s1)))"

lemmas [service_defs] =
  CreateTodo_def UpdateTodo_def DeleteTodo_def FindTodoById_def ListAllTodos_def Summary_def

lemma NewTodoService_simps [simp]:
  "ts_store (NewTodoService st b dis) = st" "ts_bus (NewTodoService st b dis) = b"
  "ts_authDisabled (NewTodoService st b dis) = dis"
  by (simp_all add: NewTodoService_def)

lemma authorize_None:
  "authorize svc c = None \<longleftrightarrow> authenticated (ts_authDisabled svc) c"
  by (auto simp: authorize_def authenticated_def RequireAuthenticated_def split: prod.splits)

lemma authorize_ok [simp]: "authenticated (ts_authDisabled svc) c \<Longrightarrow> authorize svc c = None"
  by (simp add: authorize_None)

lemma authorize_Some:
  "\<not> authenticated (ts_authDisabled svc) c \<Longrightarrow>
   authorize svc c = Some (Errorf_w (Sentinel ErrPermissionDenied) ''authentication required'')"
  by (auto simp: authorize_def authenticated_def RequireAuthenticated_def split: prod.splits)

subsection \<open>What the service guarantees over any lawful store\<close>

locale todo_service = todo_store st view invar healthy
  for st :: "'s TodoStore" and view :: "'s \<Rightarrow> uuid \<Rightarrow> Todo option"
    and invar :: "'s \<Rightarrow> bool" and healthy :: "'s \<Rightarrow> bool" +
  fixes svc :: "'s TodoService"
  assumes svc_store: "ts_store svc = st"
    and bus_frame: "ts_bus svc = Some b \<Longrightarrow> h \<in> set (handlers b EventTodoCreated) \<Longrightarrow> invar s \<Longrightarrow>
      view (snd (h c ev s)) = view s \<and> invar (snd (h c ev s)) \<and> (healthy s \<longrightarrow> healthy (snd (h c ev s)))"
begin

lemma publish_frame:
  assumes "ts_bus svc = Some b" and "invar s"
  shows "view (snd (Publish b c \<lparr>ev_Name = EventTodoCreated, ev_Payload = t\<rparr> s)) = view s \<and>
         invar (snd (Publish b c \<lparr>ev_Name = EventTodoCreated, ev_Payload = t\<rparr> s)) \<and>
         (healthy s \<longrightarrow> healthy (snd (Publish b c \<lparr>ev_Name = EventTodoCreated, ev_Payload = t\<rparr> s)))"
proof -
  let ?P = "\<lambda>s'. view s' = view s \<and> invar s' \<and> (healthy s \<longrightarrow> healthy s')"
  let ?ev = "\<lparr>ev_Name = EventTodoCreated, ev_Payload = t\<rparr>"
  have "?P (snd (Publish_loop (handlers b EventTodoCreated) c ?ev s))"
  proof (rule Publish_loop_preserves)
    fix h s' assume "h \<in> set (handlers b EventTodoCreated)" and "?P s'"
    with bus_frame [OF assms(1), of h s' c ?ev] show "?P (snd (h c ?ev s'))" by metis
  qed (simp add: assms(2))
  then show ?thesis by (simp add: Publish_def)
qed

lemma service_create_Inr:
  assumes "invar s" and "CreateTodo svc c req now newID s = (Inr t, s')"
  shows "authenticated (ts_authDisabled svc) c" and "tp_Label req \<noteq> ''''"
    and "t = \<lparr>td_TodoID = newID, td_CreatedAt = now, td_UpdatedAt = now,
              td_Label = tp_Label req, td_Completed = tp_Completed req\<rparr>"
    and "view s' = (view s)(newID \<mapsto> t)" and "invar s'"
proof -
  let ?m = "\<lparr>cp_TodoID = newID, cp_CreatedAt = now, cp_UpdatedAt = now,
             cp_Label = tp_Label req, cp_Completed = tp_Completed req\<rparr>"
  from assms(2) obtain s1 where auth: "authorize svc c = None" and lab: "tp_Label req \<noteq> ''''"
    and st: "st_CreateTodo st ?m s = (Inr t, s1)"
    and s': "s' = s1 \<or> (\<exists>b. ts_bus svc = Some b \<and>
               s' = snd (Publish b c \<lparr>ev_Name = EventTodoCreated, ev_Payload = t\<rparr> s1))"
    by (auto simp: CreateTodo_def svc_store Let_def split: option.splits if_splits prod.splits sum.splits)
  from create_invar [OF assms(1) st] have inv1: "invar s1" .
  from s' publish_frame [OF _ inv1] inv1 have s1: "view s' = view s1" "invar s'" by auto
  from create_Inr [OF assms(1) st] s1
  show "t = \<lparr>td_TodoID = newID, td_CreatedAt = now, td_UpdatedAt = now,
            td_Label = tp_Label req, td_Completed = tp_Completed req\<rparr>"
    and "view s' = (view s)(newID \<mapsto> t)" by (simp_all add: created_todo_def)
  from auth lab s1 show "authenticated (ts_authDisabled svc) c" "tp_Label req \<noteq> ''''" "invar s'"
    by (simp_all add: authorize_None)
qed

lemma service_create_healthy:
  assumes "invar s" and "healthy s" and "view s newID = None"
    and "authenticated (ts_authDisabled svc) c" and "tp_Label req \<noteq> ''''"
  shows "\<exists>t s'. CreateTodo svc c req now newID s = (Inr t, s') \<and> healthy s'"
proof -
  let ?m = "\<lparr>cp_TodoID = newID, cp_CreatedAt = now, cp_UpdatedAt = now,
             cp_Label = tp_Label req, cp_Completed = tp_Completed req\<rparr>"
  obtain s1 where st: "st_CreateTodo st ?m s = (Inr (created_todo ?m), s1)" and h: "healthy s1"
    using create_healthy [OF assms(1,2), of ?m] assms(3) by auto
  from publish_frame [OF _ create_invar [OF assms(1) st]] h st assms(4,5) show ?thesis
    by (auto simp: CreateTodo_def svc_store Let_def split: option.splits)
qed

lemma service_find_healthy:
  assumes "invar s" and "healthy s" and "authenticated (ts_authDisabled svc) c"
  shows "FindTodoById svc c (uuid_String i) s =
    ((case view s i of Some t \<Rightarrow> Inr t
      | None \<Rightarrow> Inl (Errorf_w (Sentinel ErrNotFound) ''todo not found'')), s)"
  using assms
  by (simp add: FindTodoById_def svc_store uuid_Parse_String find_healthy split: option.splits)

lemma service_create_find:
  assumes "invar s" and "healthy s" and "view s newID = None"
    and "authenticated (ts_authDisabled svc) c" and "tp_Label req \<noteq> ''''"
  shows "\<exists>t s'. CreateTodo svc c req now newID s = (Inr t, s') \<and>
    td_Label t = tp_Label req \<and> td_Completed t = tp_Completed req \<and>
    FindTodoById svc c (uuid_String newID) s' = (Inr t, s')"
proof -
  from service_create_healthy [OF assms] obtain t s'
    where cr: "CreateTodo svc c req now newID s = (Inr t, s')" and h: "healthy s'" by blast
  note post = service_create_Inr [OF assms(1) cr]
  from service_find_healthy [OF post(5) h assms(4), of newID] post cr show ?thesis by auto
qed

lemma service_update_Inr:
  assumes "invar s" and "UpdateTodo svc c todoID req now s = (Inr t, s')"
  obtains i t0 where "uuid_Parse todoID = Inr i" and "view s i = Some t0"
    and "t = t0\<lparr>td_Label := tp_Label req, td_Completed := tp_Completed req, td_UpdatedAt := now\<rparr>"
    and "view s' = (view s)(i \<mapsto> t)" and "invar s'"
proof -
  from assms(2) obtain i where p: "uuid_Parse todoID = Inr i"
    and st: "st_UpdateTodo st \<lparr>up_TodoID = i, up_UpdatedAt = now, up_Label = tp_Label req,
               up_Completed = tp_Completed req\<rparr> s = (Inr t, s')"
    by (auto simp: UpdateTodo_def svc_store split: option.splits if_splits sum.splits prod.splits)
  from update_Inr [OF assms(1) st] update_invar [OF assms(1) st] p that show thesis
    by (auto simp: updated_todo_def)
qed

lemma service_update_find:
  assumes "invar s" and "healthy s" and "view s i = Some t0"
    and "authenticated (ts_authDisabled svc) c" and "tp_Label req \<noteq> ''''"
  shows "\<exists>t s'. UpdateTodo svc c (uuid_String i) req now s = (Inr t, s') \<and>
    t = t0\<lparr>td_Label := tp_Label req, td_Completed := tp_Completed req, td_UpdatedAt := now\<rparr> \<and>
    FindTodoById svc c (uuid_String i) s' = (Inr t, s') \<and>
    (\<forall>j. j \<noteq> i \<longrightarrow> view s' j = view s j)"
proof -
  let ?q = "\<lparr>up_TodoID = i, up_UpdatedAt = now, up_Label = tp_Label req, up_Completed = tp_Completed req\<rparr>"
  obtain s' where st: "st_UpdateTodo st ?q s = (Inr (updated_todo ?q t0), s')" and h: "healthy s'"
    using update_healthy [OF assms(1,2), of ?q t0] assms(3) by auto
  have up: "UpdateTodo svc c (uuid_String i) req now s = (Inr (updated_todo ?q t0), s')"
    using assms(4,5) st by (simp add: UpdateTodo_def svc_store uuid_Parse_String)
  from update_Inr [OF assms(1) st] have "view s' = (view s)(i \<mapsto> updated_todo ?q t0)" by auto
  with service_find_healthy [OF update_invar [OF assms(1) st] h assms(4), of i] up show ?thesis
    by (auto simp: updated_todo_def)
qed

lemma service_delete_find:
  assumes "invar s" and "healthy s" and "view s i = Some t0"
    and "authenticated (ts_authDisabled svc) c"
  shows "\<exists>s'. DeleteTodo svc c (uuid_String i) s = (None, s') \<and>
    FindTodoById svc c (uuid_String i) s' =
      (Inl (Errorf_w (Sentinel ErrNotFound) ''todo not found''), s') \<and>
    view s' = (view s)(i := None)"
proof -
  obtain s' where st: "st_DeleteTodo st i s = (None, s')" and h: "healthy s'"
    using delete_healthy [OF assms(1-3)] by auto
  have "DeleteTodo svc c (uuid_String i) s = (None, s')"
    using assms st by (simp add: DeleteTodo_def svc_store uuid_Parse_String find_healthy)
  moreover have v: "view s' = (view s)(i := None)" by (rule delete_None [OF assms(1) st])
  ultimately show ?thesis
    using service_find_healthy [OF delete_invar [OF assms(1) st] h assms(4), of i] by simp
qed

text \<open>
  Whatever fails, the content of the store is as before or as after the requested change,
  and the caller sees one of the domain sentinels.
\<close>

lemma service_create_Inl:
  assumes "invar s" and "CreateTodo svc c req now newID s = (Inl e, s')"
  shows "view s' = view s \<or> view s' = (view s)(newID \<mapsto> \<lparr>td_TodoID = newID, td_CreatedAt = now,
           td_UpdatedAt = now, td_Label = tp_Label req, td_Completed = tp_Completed req\<rparr>)"
    and "errors_Is e ErrPermissionDenied \<or> errors_Is e ErrValidation \<or> errors_Is e ErrInternal"
proof -
  let ?m = "\<lparr>cp_TodoID = newID, cp_CreatedAt = now, cp_UpdatedAt = now,
             cp_Label = tp_Label req, cp_Completed = tp_Completed req\<rparr>"
  have "s' = s \<or> (\<exists>e'. st_CreateTodo st ?m s = (Inl e', s'))"
    using assms(2)
    by (auto simp: CreateTodo_def svc_store Let_def split: option.splits if_splits prod.splits sum.splits)
  then show "view s' = view s \<or> view s' = (view s)(newID \<mapsto> \<lparr>td_TodoID = newID, td_CreatedAt = now,
           td_UpdatedAt = now, td_Label = tp_Label req, td_Completed = tp_Completed req\<rparr>)"
    using create_Inl [OF assms(1), of ?m] by (auto simp: created_todo_def)
  show "errors_Is e ErrPermissionDenied \<or> errors_Is e ErrValidation \<or> errors_Is e ErrInternal"
    using assms(2)
    by (auto simp: CreateTodo_def authorize_def Let_def
        split: option.splits if_splits prod.splits sum.splits)
qed

lemma service_summary_Inr:
  assumes "invar s" and "Summary svc c s = (Inr sm, s')"
  shows "sm_Total sm = int (card (ran (view s)))"
    and "sm_Completed sm = int (card {t \<in> ran (view s). td_Completed t})"
    and "sm_Outstanding sm = sm_Total sm - sm_Completed sm"
    and "view s' = view s" and "invar s'"
proof -
  from assms(2) have st: "st_CountTodos st s = (Inr sm, s')"
    by (auto simp: Summary_def svc_store split: option.splits prod.splits sum.splits)
  from count_Inr [OF assms(1) st] count_view [OF assms(1) st]
  show "sm_Total sm = int (card (ran (view s)))"
    and "sm_Completed sm = int (card {t \<in> ran (view s). td_Completed t})"
    and "sm_Outstanding sm = sm_Total sm - sm_Completed sm"
    and "view s' = view s" and "invar s'" by auto
qed

end

text \<open>
  Both stores carry the service, with any bus whose handlers leave the todos alone.
\<close>

interpretation fake_svc: todo_service FakeTodoStore map_of fake_todos_ok "\<lambda>_. True"
    "NewTodoService FakeTodoStore None dis" for dis
  by unfold_locales simp_all

interpretation pg_svc: todo_service PgTodoStore pg_todos_view pg_todos_ok db_healthy
    "NewTodoService PgTodoStore None dis" for dis
  by unfold_locales simp_all

end
