(* ===== verification/Reports_Store.thy ===== *)
theory Reports_Store
  imports Platform "HOL-Library.AList"
begin

text \<open>
  The reports domain model (\<open>reports/domain.go\<close>), its persistence port
  (\<open>reports/store.go\<close>) and the in-memory implementation (\<open>reports/fake_store.go\<close>).
  The four conditional updates of the port are the edges of the report lifecycle; their
  contract is the predicate \<open>guarded_update\<close>: the row changes exactly when it exists
  and its guard holds, and the caller learns about it unless the reply is lost.
\<close>

subsection \<open>Domain\<close>

definition StatusPending :: string where "StatusPending = ''pending''"
definition StatusProcessing :: string where "StatusProcessing = ''processing''"
definition StatusCompleted :: string where "StatusCompleted = ''completed''"
definition StatusFailed :: string where "StatusFailed = ''failed''"
definition TypeTodoSummary :: string where "TypeTodoSummary = ''todo-summary''"
definition JobGenerate :: string where "JobGenerate = ''reports.generate''"
definition FailureUnsupportedType :: string where "FailureUnsupportedType = ''UNSUPPORTED_TYPE''"
definition FailureRetryExhausted :: string where "FailureRetryExhausted = ''RETRY_EXHAUSTED''"
definition FailureInternal :: string where "FailureInternal = ''INTERNAL''"

lemmas status_defs =
  StatusPending_def StatusProcessing_def StatusCompleted_def StatusFailed_def

lemmas failure_defs =
  FailureUnsupportedType_def FailureRetryExhausted_def FailureInternal_def

lemma status_distinct [simp]:
  "StatusPending \<noteq> StatusProcessing" "StatusProcessing \<noteq> StatusPending"
  "StatusPending \<noteq> StatusCompleted" "StatusCompleted \<noteq> StatusPending"
  "StatusPending \<noteq> StatusFailed" "StatusFailed \<noteq> StatusPending"
  "StatusProcessing \<noteq> StatusCompleted" "StatusCompleted \<noteq> StatusProcessing"
  "StatusProcessing \<noteq> StatusFailed" "StatusFailed \<noteq> StatusProcessing"
  "StatusCompleted \<noteq> StatusFailed" "StatusFailed \<noteq> StatusCompleted"
  by (simp_all add: status_defs)

record Report =
  rp_ReportID :: uuid
  rp_OwnerUserID :: string
  rp_Type :: string
  rp_Status :: string
  rp_CreatedAt :: time
  rp_UpdatedAt :: time
  rp_StartedAt :: "time option"
  rp_CompletedAt :: "time option"
  rp_ProcessingStartedAt :: "time option"
  rp_FailureReason :: string
  rp_FailureCode :: string
  rp_Result :: string

record CreateRequest =
  cr_Type :: string

record GenerateReportJob =
  gj_ReportID :: uuid

record TodoSummary =
  su_Total :: int
  su_Completed :: int
  su_Outstanding :: int

definition SafeFailureMessage :: "string \<Rightarrow> string \<Rightarrow> string" where
  "SafeFailureMessage code detail =
     (if code = FailureUnsupportedType then ''unsupported report type''
      else if code = FailureRetryExhausted then ''report generation failed after retries''
      else if code = FailureInternal then
        (if detail \<noteq> '''' then detail else ''report generation failed'')
      else if detail \<noteq> '''' then detail
      else ''report failed ('' @ code @ '')'')"

lemma SafeFailureMessage_not_Nil [simp]: "SafeFailureMessage code detail \<noteq> []"
  by (simp add: SafeFailureMessage_def)

subsection \<open>The edges of the lifecycle\<close>

definition claimable :: "time \<Rightarrow> Report \<Rightarrow> bool" where
  "claimable staleBefore r \<longleftrightarrow>
     rp_Status r = StatusPending \<or>
     (rp_Status r = StatusProcessing \<and>
      (case rp_ProcessingStartedAt r of None \<Rightarrow> True | Some t \<Rightarrow> t < staleBefore))"

definition processing :: "Report \<Rightarrow> bool" where
  "processing r \<longleftrightarrow> rp_Status r = StatusProcessing"

definition claimed :: "time \<Rightarrow> Report \<Rightarrow> Report" where
  "claimed now r = r\<lparr>rp_Status := StatusProcessing, rp_UpdatedAt := now,
     rp_ProcessingStartedAt := Some now,
     rp_StartedAt := (if rp_StartedAt r = None then Some now else rp_StartedAt r),
     rp_FailureReason := '''', rp_FailureCode := ''''\<rparr>"

definition retried :: "time \<Rightarrow> Report \<Rightarrow> Report" where
  "retried at r = r\<lparr>rp_Status := StatusPending, rp_ProcessingStartedAt := None,
     rp_UpdatedAt := at, rp_FailureReason := '''', rp_FailureCode := ''''\<rparr>"

definition completed :: "string \<Rightarrow> time \<Rightarrow> Report \<Rightarrow> Report" where
  "completed result at r = r\<lparr>rp_Status := StatusCompleted, rp_Result := result,
     rp_CompletedAt := Some at, rp_UpdatedAt := at, rp_ProcessingStartedAt := None,
     rp_FailureReason := '''', rp_FailureCode := ''''\<rparr>"

definition failed :: "string \<Rightarrow> string \<Rightarrow> time \<Rightarrow> Report \<Rightarrow> Report" where
  "failed code reason at r = r\<lparr>rp_Status := StatusFailed, rp_FailureCode := code,
     rp_FailureReason := reason, rp_CompletedAt := Some at, rp_UpdatedAt := at,
     rp_ProcessingStartedAt := None\<rparr>"

lemmas edge_defs = claimed_def retried_def completed_def failed_def

lemma edge_identity [simp]:
  "rp_ReportID (claimed now r) = rp_ReportID r" "rp_ReportID (retried at r) = rp_ReportID r"
  "rp_ReportID (completed res at r) = rp_ReportID r"
  "rp_ReportID (failed code reason at r) = rp_ReportID r"
  "rp_OwnerUserID (claimed now r) = rp_OwnerUserID r"
  "rp_OwnerUserID (retried at r) = rp_OwnerUserID r"
  "rp_OwnerUserID (completed res at r) = rp_OwnerUserID r"
  "rp_OwnerUserID (failed code reason at r) = rp_OwnerUserID r"
  "rp_Type (claimed now r) = rp_Type r" "rp_Type (retried at r) = rp_Type r"
  "rp_Type (completed res at r) = rp_Type r" "rp_Type (failed code reason at r) = rp_Type r"
  by (simp_all add: edge_defs)

lemma edge_status [simp]:
  "rp_Status (claimed now r) = StatusProcessing" "rp_Status (retried at r) = StatusPending"
  "rp_Status (completed res at r) = StatusCompleted"
  "rp_Status (failed code reason at r) = StatusFailed"
  by (simp_all add: edge_defs)

lemma claimable_status: "claimable stale r \<Longrightarrow> rp_Status r = StatusPending \<or> rp_Status r = StatusProcessing"
  by (auto simp: claimable_def)

subsection \<open>The port and its contract\<close>

record 's ReportStore =
  rs_CreateReport :: "Report \<Rightarrow> 's \<Rightarrow> (goerr + Report) \<times> 's"
  rs_GetReportByID :: "uuid \<Rightarrow> 's \<Rightarrow> (goerr + Report) \<times> 's"
  rs_ListReportsByOwner :: "string \<Rightarrow> 's \<Rightarrow> (goerr + Report list) \<times> 's"
  rs_ClaimExecution :: "uuid \<Rightarrow> time \<Rightarrow> time \<Rightarrow> 's \<Rightarrow> (goerr + Report) \<times> 's"
  rs_MarkPendingRetry :: "uuid \<Rightarrow> time \<Rightarrow> 's \<Rightarrow> (goerr + Report) \<times> 's"
  rs_MarkCompleted :: "uuid \<Rightarrow> string \<Rightarrow> time \<Rightarrow> 's \<Rightarrow> (goerr + Report) \<times> 's"
  rs_MarkFailed :: "uuid \<Rightarrow> string \<Rightarrow> string \<Rightarrow> time \<Rightarrow> 's \<Rightarrow> (goerr + Report) \<times> 's"
  rs_ListPendingOlderThan :: "time \<Rightarrow> 's \<Rightarrow> (goerr + Report list) \<times> 's"

type_synonym 's report_view = "'s \<Rightarrow> uuid \<Rightarrow> Report option"

definition guarded_update ::
  "'s report_view \<Rightarrow> ('s \<Rightarrow> bool) \<Rightarrow> ('s \<Rightarrow> bool) \<Rightarrow> ('s \<Rightarrow> (goerr + Report) \<times> 's) \<Rightarrow>
   uuid \<Rightarrow> (Report \<Rightarrow> bool) \<Rightarrow> (Report \<Rightarrow> Report) \<Rightarrow> bool" where
  "guarded_update view invar healthy op i g f \<longleftrightarrow>
     (\<forall>s r s'. invar s \<longrightarrow> op s = (r, s') \<longrightarrow>
        invar s' \<and>
        (case r of
           Inr x \<Rightarrow> \<exists>r0. view s i = Some r0 \<and> g r0 \<and> x = f r0 \<and> view s' = (view s)(i \<mapsto> f r0)
         | Inl e \<Rightarrow>
             (view s' = view s \<or>
              (\<exists>r0. view s i = Some r0 \<and> g r0 \<and> view s' = (view s)(i \<mapsto> f r0))) \<and>
             (errors_Is e SqlErrNoRows \<longrightarrow>
                view s' = view s \<and> (\<forall>r0. view s i = Some r0 \<longrightarrow> \<not> g r0)))) \<and>
     (\<forall>s. invar s \<longrightarrow> healthy s \<longrightarrow>
        (case view s i of
           Some r0 \<Rightarrow>
             if g r0 then \<exists>s'. op s = (Inr (f r0), s') \<and> healthy s'
             else op s = (Inl (Sentinel SqlErrNoRows), s)
         | None \<Rightarrow> op s = (Inl (Sentinel SqlErrNoRows), s)))"

lemma guarded_update_step:
  assumes "guarded_update view invar healthy op i g f" and "invar s" and "op s = (r, s')"
  shows "invar s'"
    and "view s' = view s \<or> (\<exists>r0. view s i = Some r0 \<and> g r0 \<and> view s' = (view s)(i \<mapsto> f r0))"
    and "r = Inr x \<Longrightarrow> \<exists>r0. view s i = Some r0 \<and> g r0 \<and> x = f r0 \<and> view s' = (view s)(i \<mapsto> f r0)"
    and "r = Inl e \<Longrightarrow> errors_Is e SqlErrNoRows \<Longrightarrow>
           view s' = view s \<and> (\<forall>r0. view s i = Some r0 \<longrightarrow> \<not> g r0)"
proof -
  from assms have inv: "invar s'"
    and post: "case r of
           Inr x \<Rightarrow> \<exists>r0. view s i = Some r0 \<and> g r0 \<and> x = f r0 \<and> view s' = (view s)(i \<mapsto> f r0)
         | Inl e \<Rightarrow>
             (view s' = view s \<or>
              (\<exists>r0. view s i = Some r0 \<and> g r0 \<and> view s' = (view s)(i \<mapsto> f r0))) \<and>
             (errors_Is e SqlErrNoRows \<longrightarrow>
                view s' = view s \<and> (\<forall>r0. view s i = Some r0 \<longrightarrow> \<not> g r0))"
    unfolding guarded_update_def by blast+
  show "invar s'" by (rule inv)
  from post show "view s' = view s \<or> (\<exists>r0. view s i = Some r0 \<and> g r0 \<and> view s' = (view s)(i \<mapsto> f r0))"
    by (cases r) auto
  from post show "r = Inr x \<Longrightarrow> \<exists>r0. view s i = Some r0 \<and> g r0 \<and> x = f r0 \<and> view s' = (view s)(i \<mapsto> f r0)"
    by simp
  from post show "r = Inl e \<Longrightarrow> errors_Is e SqlErrNoRows \<Longrightarrow>
           view s' = view s \<and> (\<forall>r0. view s i = Some r0 \<longrightarrow> \<not> g r0)"
    by simp
qed

lemma guarded_update_healthy:
  assumes "guarded_update view invar healthy op i g f" and "invar s" and "healthy s"
  shows "view s i = Some r0 \<Longrightarrow> g r0 \<Longrightarrow> \<exists>s'. op s = (Inr (f r0), s') \<and> healthy s'"
    and "view s i = Some r0 \<Longrightarrow> \<not> g r0 \<Longrightarrow> op s = (Inl (Sentinel SqlErrNoRows), s)"
    and "view s i = None \<Longrightarrow> op s = (Inl (Sentinel SqlErrNoRows), s)"
proof -
  from assms have post: "case view s i of
           Some r0 \<Rightarrow>
             if g r0 then \<exists>s'. op s = (Inr (f r0), s') \<and> healthy s'
             else op s = (Inl (Sentinel SqlErrNoRows), s)
         | None \<Rightarrow> op s = (Inl (Sentinel SqlErrNoRows), s)"
    unfolding guarded_update_def by blast
  from post show "view s i = Some r0 \<Longrightarrow> g r0 \<Longrightarrow> \<exists>s'. op s = (Inr (f r0), s') \<and> healthy s'"
    and "view s i = Some r0 \<Longrightarrow> \<not> g r0 \<Longrightarrow> op s = (Inl (Sentinel SqlErrNoRows), s)"
    and "view s i = None \<Longrightarrow> op s = (Inl (Sentinel SqlErrNoRows), s)"
    by simp_all
qed

locale report_store =
  fixes st :: "'s ReportStore"
    and view :: "'s report_view"
    and invar :: "'s \<Rightarrow> bool"
    and healthy :: "'s \<Rightarrow> bool"
  assumes view_key: "invar s \<Longrightarrow> view s i = Some r \<Longrightarrow> rp_ReportID r = i"
    and create_Inr: "invar s \<Longrightarrow> rs_CreateReport st r s = (Inr r', s') \<Longrightarrow>
          r' = r \<and> view s' = (view s)(rp_ReportID r \<mapsto> r)"
    and create_Inl: "invar s \<Longrightarrow> rs_CreateReport st r s = (Inl e, s') \<Longrightarrow>
          view s' = view s \<or>
          (view s (rp_ReportID r) = None \<and> view s' = (view s)(rp_ReportID r \<mapsto> r))"
    and create_invar: "invar s \<Longrightarrow> rs_CreateReport st r s = (cr, s') \<Longrightarrow> invar s'"
    and create_healthy: "invar s \<Longrightarrow> healthy s \<Longrightarrow> view s (rp_ReportID r) = None \<Longrightarrow>
          \<exists>s'. rs_CreateReport st r s = (Inr r, s') \<and> healthy s'"
    and get_Inr: "invar s \<Longrightarrow> rs_GetReportByID st i s = (Inr r, s') \<Longrightarrow> view s i = Some r"
    and get_no_rows: "invar s \<Longrightarrow> rs_GetReportByID st i s = (Inl e, s') \<Longrightarrow>
          errors_Is e SqlErrNoRows \<Longrightarrow> view s i = None"
    and get_frame: "invar s \<Longrightarrow> rs_GetReportByID st i s = (gr, s') \<Longrightarrow> view s' = view s \<and> invar s'"
    and get_healthy: "invar s \<Longrightarrow> healthy s \<Longrightarrow> rs_GetReportByID st i s =
          ((case view s i of Some r \<Rightarrow> Inr r | None \<Rightarrow> Inl (Sentinel SqlErrNoRows)), s)"
    and owner_Inr: "invar s \<Longrightarrow> rs_ListReportsByOwner st u s = (Inr rs, s') \<Longrightarrow>
          set rs = {r \<in> ran (view s). rp_OwnerUserID r = u} \<and> distinct rs"
    and owner_frame: "invar s \<Longrightarrow> rs_ListReportsByOwner st u s = (lr, s') \<Longrightarrow> view s' = view s \<and> invar s'"
    and owner_healthy: "invar s \<Longrightarrow> healthy s \<Longrightarrow> \<exists>rs. rs_ListReportsByOwner st u s = (Inr rs, s)"
    and claim_law: "guarded_update view invar healthy (rs_ClaimExecution st i now stale) i
          (claimable stale) (claimed now)"
    and retry_law: "guarded_update view invar healthy (rs_MarkPendingRetry st i at) i
          processing (retried at)"
    and complete_law: "guarded_update view invar healthy (rs_MarkCompleted st i res at) i
          processing (completed res at)"
    and fail_law: "guarded_update view invar healthy (rs_MarkFailed st i code reason at) i
          processing (failed code reason at)"
    and pending_Inr: "invar s \<Longrightarrow> rs_ListPendingOlderThan st before s = (Inr rs, s') \<Longrightarrow>
          set rs = {r \<in> ran (view s). rp_Status r = StatusPending \<and> rp_UpdatedAt r < before} \<and> distinct rs"
    and pending_frame: "invar s \<Longrightarrow> rs_ListPendingOlderThan st before s = (lr, s') \<Longrightarrow>
          view s' = view s \<and> invar s'"
    and pending_healthy: "invar s \<Longrightarrow> healthy s \<Longrightarrow> \<exists>rs. rs_ListPendingOlderThan st before s = (Inr rs, s)"

subsection \<open>FakeStore\<close>

type_synonym fake_reports = "(uuid \<times> Report) list"

definition fake_CreateReport :: "Report \<Rightarrow> fake_reports \<Rightarrow> (goerr + Report) \<times> fake_reports" where
  "fake_CreateReport r f = (Inr r, AList.update (rp_ReportID r) r f)"

definition fake_GetReportByID :: "uuid \<Rightarrow> fake_reports \<Rightarrow> (goerr + Report) \<times> fake_reports" where
  "fake_GetReportByID i f =
     (case map_of f i of
        None \<Rightarrow> (Inl (Sentinel SqlErrNoRows), f)
      | Some r \<Rightarrow> (Inr r, f))"

definition fake_ListReportsByOwner ::
  "string \<Rightarrow> fake_reports \<Rightarrow> (goerr + Report list) \<times> fake_reports" where
  "fake_ListReportsByOwner owner f =
     (Inr (filter (\<lambda>r. rp_OwnerUserID r = owner) (map snd f)), f)"

definition fake_ClaimExecution ::
  "uuid \<Rightarrow> time \<Rightarrow> time \<Rightarrow> fake_reports \<Rightarrow> (goerr + Report) \<times> fake_reports" where
  "fake_ClaimExecution i now staleBefore f =
     (case map_of f i of
        None \<Rightarrow> (Inl (Sentinel SqlErrNoRows), f)
      | Some r \<Rightarrow>
          let eligible = (rp_Status r = StatusPending \<or>
                (rp_Status r = StatusProcessing \<and>
                  (case rp_ProcessingStartedAt r of None \<Rightarrow> True | Some t \<Rightarrow> t < staleBefore)))
          in if \<not> eligible then (Inl (Sentinel SqlErrNoRows), f)
             else let r' = r\<lparr>rp_Status := StatusProcessing, rp_UpdatedAt := now,
                             rp_ProcessingStartedAt := Some now,
                             rp_StartedAt := (if rp_StartedAt r = None then Some now else rp_StartedAt r),
                             rp_FailureReason := '''', rp_FailureCode := ''''\<rparr>
                  in (Inr r', AList.update i r' f))"

definition fake_MarkPendingRetry ::
  "uuid \<Rightarrow> time \<Rightarrow> fake_reports \<Rightarrow> (goerr + Report) \<times> fake_reports" where
  "fake_MarkPendingRetry i at f =
     (case map_of f i of
        None \<Rightarrow> (Inl (Sentinel SqlErrNoRows), f)
      | Some r \<Rightarrow>
          if rp_Status r \<noteq> StatusProcessing then (Inl (Sentinel SqlErrNoRows), f)
          else let r' = r\<lparr>rp_Status := StatusPending, rp_ProcessingStartedAt := None,
                          rp_UpdatedAt := at, rp_FailureReason := '''', rp_FailureCode := ''''\<rparr>
               in (Inr r', AList.update i r' f))"

definition fake_MarkCompleted ::
  "uuid \<Rightarrow> string \<Rightarrow> time \<Rightarrow> fake_reports \<Rightarrow> (goerr + Report) \<times> fake_reports" where
  "fake_MarkCompleted i result at f =
     (case map_of f i of
        None \<Rightarrow> (Inl (Sentinel SqlErrNoRows), f)
      | Some r \<Rightarrow>
          if rp_Status r \<noteq> StatusProcessing then (Inl (Sentinel SqlErrNoRows), f)
          else let r' = r\<lparr>rp_Status := StatusCompleted, rp_Result := result,
                          rp_CompletedAt := Some at, rp_UpdatedAt := at,
                          rp_ProcessingStartedAt := None,
                          rp_FailureReason := '''', rp_FailureCode := ''''\<rparr>
               in (Inr r', AList.update i r' f))"

definition fake_MarkFailed ::
  "uuid \<Rightarrow> string \<Rightarrow> string \<Rightarrow> time \<Rightarrow> fake_reports \<Rightarrow> (goerr + Report) \<times> fake_reports" where
  "fake_MarkFailed i code reason at f =
     (case map_of f i of
        None \<Rightarrow> (Inl (Sentinel SqlErrNoRows), f)
      | Some r \<Rightarrow>
          if rp_Status r \<noteq> StatusProcessing then (Inl (Sentinel SqlErrNoRows), f)
          else let r' = r\<lparr>rp_Status := StatusFailed, rp_FailureCode := code,
                          rp_FailureReason := reason, rp_CompletedAt := Some at,
                          rp_UpdatedAt := at, rp_ProcessingStartedAt := None\<rparr>
               in (Inr r', AList.update i r' f))"

definition fake_ListPendingOlderThan ::
  "time \<Rightarrow> fake_reports \<Rightarrow> (goerr + Report list) \<times> fake_reports" where
  "fake_ListPendingOlderThan updatedBefore f =
     (Inr (filter (\<lambda>r. rp_Status r = StatusPending \<and> rp_UpdatedAt r < updatedBefore) (map snd f)), f)"

definition fake_report_Seed :: "Report \<Rightarrow> fake_reports \<Rightarrow> fake_reports" where
  "fake_report_Seed r f = AList.update (rp_ReportID r) r f"

definition FakeReportStore :: "fake_reports ReportStore" where
  "FakeReportStore = \<lparr>rs_CreateReport = fake_CreateReport, rs_GetReportByID = fake_GetReportByID,
     rs_ListReportsByOwner = fake_ListReportsByOwner, rs_ClaimExecution = fake_ClaimExecution,
     rs_MarkPendingRetry = fake_MarkPendingRetry, rs_MarkCompleted = fake_MarkCompleted,
     rs_MarkFailed = fake_MarkFailed, rs_ListPendingOlderThan = fake_ListPendingOlderThan\<rparr>"

definition fake_reports_ok :: "fake_reports \<Rightarrow> bool" where
  "fake_reports_ok f \<longleftrightarrow> distinct (map fst f) \<and> list_all (\<lambda>(k, r). rp_ReportID r = k) f"

lemma FakeReportStore_ops [simp]:
  "rs_CreateReport FakeReportStore = fake_CreateReport"
  "rs_GetReportByID FakeReportStore = fake_GetReportByID"
  "rs_ListReportsByOwner FakeReportStore = fake_ListReportsByOwner"
  "rs_ClaimExecution FakeReportStore = fake_ClaimExecution"
  "rs_MarkPendingRetry FakeReportStore = fake_MarkPendingRetry"
  "rs_MarkCompleted FakeReportStore = fake_MarkCompleted"
  "rs_MarkFailed FakeReportStore = fake_MarkFailed"
  "rs_ListPendingOlderThan FakeReportStore = fake_ListPendingOlderThan"
  by (simp_all add: FakeReportStore_def)

lemma fake_reports_ok_update:
  "fake_reports_ok f \<Longrightarrow> rp_ReportID r = k \<Longrightarrow> fake_reports_ok (AList.update k r f)"
proof -
  assume "fake_reports_ok f" and "rp_ReportID r = k"
  moreover have "list_all (\<lambda>(k, r). rp_ReportID r = k) f \<Longrightarrow> rp_ReportID r = k \<Longrightarrow>
      list_all (\<lambda>(k, r). rp_ReportID r = k) (AList.update k r f)"
    by (induction f) auto
  ultimately show ?thesis by (simp add: fake_reports_ok_def distinct_update)
qed

lemma fake_reports_key: "fake_reports_ok f \<Longrightarrow> map_of f i = Some r \<Longrightarrow> rp_ReportID r = i"
  by (auto simp: fake_reports_ok_def list_all_iff dest!: map_of_SomeD)

lemma fake_reports_values:
  assumes "fake_reports_ok f"
  shows "distinct (map snd f)" and "ran (map_of f) = set (map snd f)"
proof -
  have eq: "map rp_ReportID (map snd f) = map fst f"
    using assms by (auto simp: fake_reports_ok_def list_all_iff)
  have "distinct (map rp_ReportID (map snd f))"
    unfolding eq using assms by (simp add: fake_reports_ok_def)
  then show "distinct (map snd f)" unfolding distinct_map [of rp_ReportID] by (rule conjunct1)
  show "ran (map_of f) = set (map snd f)"
    using assms by (simp add: fake_reports_ok_def ran_distinct)
qed

text \<open>Every conditional update of the fake store has one shape.\<close>

definition fake_guarded ::
  "uuid \<Rightarrow> (Report \<Rightarrow> bool) \<Rightarrow> (Report \<Rightarrow> Report) \<Rightarrow> fake_reports \<Rightarrow> (goerr + Report) \<times> fake_reports" where
  "fake_guarded i g h f =
     (case map_of f i of
        None \<Rightarrow> (Inl (Sentinel SqlErrNoRows), f)
      | Some r \<Rightarrow> if g r then (Inr (h r), AList.update i (h r) f) else (Inl (Sentinel SqlErrNoRows), f))"

lemma fake_guarded_ops:
  "fake_ClaimExecution i now stale = fake_guarded i (claimable stale) (claimed now)"
  "fake_MarkPendingRetry i at = fake_guarded i processing (retried at)"
  "fake_MarkCompleted i res at = fake_guarded i processing (completed res at)"
  "fake_MarkFailed i code reason at = fake_guarded i processing (failed code reason at)"
  by (auto simp: fun_eq_iff fake_guarded_def fake_ClaimExecution_def fake_MarkPendingRetry_def
      fake_MarkCompleted_def fake_MarkFailed_def claimable_def processing_def edge_defs Let_def
      split: option.splits)

lemma fake_guarded_law:
  assumes "\<And>r. rp_ReportID (h r) = rp_ReportID r"
  shows "guarded_update map_of fake_reports_ok (\<lambda>_. True) (fake_guarded i g h) i g h"
  using assms
  by (auto simp: guarded_update_def fake_guarded_def update_conv' fake_reports_key
      intro!: fake_reports_ok_update split: option.splits if_splits)

lemma fake_list_content:
  assumes "fake_reports_ok f"
  shows "set (filter P (map snd f)) = {r \<in> ran (map_of f). P r}" and "distinct (filter P (map snd f))"
  using fake_reports_values [OF assms] by (auto simp del: filter_map)

interpretation fake_report: report_store FakeReportStore map_of fake_reports_ok "\<lambda>_. True"
proof (unfold_locales, unfold FakeReportStore_ops fake_guarded_ops, goal_cases)
  case (10 s u rs s')
  then have "rs = filter (\<lambda>r. rp_OwnerUserID r = u) (map snd s)"
    by (auto simp: fake_ListReportsByOwner_def simp del: filter_map)
  then show ?case by (simp only: fake_list_content [OF \<open>fake_reports_ok s\<close>])
next
  case (17 s before rs s')
  then have "rs = filter (\<lambda>r. rp_Status r = StatusPending \<and> rp_UpdatedAt r < before) (map snd s)"
    by (auto simp: fake_ListPendingOlderThan_def simp del: filter_map)
  then show ?case by (simp only: fake_list_content [OF \<open>fake_reports_ok s\<close>])
qed (auto simp: fake_CreateReport_def fake_GetReportByID_def fake_ListReportsByOwner_def
      fake_ListPendingOlderThan_def update_conv' fake_reports_key fake_guarded_law
      intro!: fake_reports_ok_update split: option.splits)

subsection \<open>Fakes of the other ports\<close>

record FakeSummary =
  fs_Value :: TodoSummary
  fs_Err :: "goerr option"

definition fake_Summary :: "FakeSummary \<Rightarrow> goerr + TodoSummary" where
  "fake_Summary f = (case fs_Err f of None \<Rightarrow> Inr (fs_Value f) | Some e \<Rightarrow> Inl e)"

record FakeEnqueuer =
  fe_Err :: "goerr option"
  fe_Calls :: int
  fe_LastJob :: string
  fe_Payloads :: "GenerateReportJob list"

definition fake_Enqueue ::
  "string \<Rightarrow> GenerateReportJob \<Rightarrow> FakeEnqueuer \<Rightarrow> goerr option \<times> FakeEnqueuer" where
  "fake_Enqueue jobType payload f =
     (fe_Err f, f\<lparr>fe_Calls := fe_Calls f + 1, fe_LastJob := jobType,
                  fe_Payloads := fe_Payloads f @ [payload]\<rparr>)"

end
