(* ===== verification/Reports_Postgres.thy ===== *)
theory Reports_Postgres
  imports Reports_Store Database Todos_Postgres
begin

text \<open>
  The Postgres side of the reports domain: the sqlc queries of
  \<open>reports/postgres/reports.sql.go\<close> on the \<open>reports.reports\<close> table, the adapter
  \<open>reports/postgres/store.go\<close>, and its interpretation of the store contract for every
  script of statement outcomes. The conditional updates keep the literals and the three-valued
  comparison of the SQL text.
\<close>

subsection \<open>Queries\<close>

text \<open>
  \<open>UPDATE reports.reports SET .. WHERE report_id = $k AND cond RETURNING ..\<close>, read as a
  single row (\<open>:one\<close>): no matching row is \<open>ErrNoRows\<close>; \<open>set_cols\<close> fails where a
  \<open>NOT NULL\<close> column would become \<open>NULL\<close>.
\<close>

definition update_returning ::
  "uuid \<Rightarrow> (ReportsReport \<Rightarrow> bool) \<Rightarrow> (ReportsReport \<Rightarrow> goerr + ReportsReport) \<Rightarrow>
   db \<Rightarrow> (goerr + ReportsReport) \<times> db" where
  "update_returning i cond set_cols d =
     (case select_row rr_ReportID i (reports_reports d) of
        None \<Rightarrow> (Inl (Sentinel SqlErrNoRows), d)
      | Some row \<Rightarrow>
          if \<not> cond row then (Inl (Sentinel SqlErrNoRows), d)
          else (case set_cols row of
                  Inl e \<Rightarrow> (Inl e, d)
                | Inr row' \<Rightarrow>
                    (Inr row', d\<lparr>reports_reports :=
                       update_rows rr_ReportID i (\<lambda>_. row') (reports_reports d)\<rparr>)))"

record ClaimReportExecutionParams =
  ce_NowAt :: "time option"
  ce_ReportID :: uuid
  ce_StaleBefore :: "time option"

definition q_ClaimReportExecution ::
  "ClaimReportExecutionParams \<Rightarrow> db \<Rightarrow> (goerr + ReportsReport) \<times> db" where
  "q_ClaimReportExecution arg = run_stmt (update_returning (ce_ReportID arg)
     (\<lambda>row. rr_Status row = ''pending'' \<or>
        (rr_Status row = ''processing'' \<and>
          (case rr_ProcessingStartedAt row of
             None \<Rightarrow> True
           | Some t \<Rightarrow> (case ce_StaleBefore arg of None \<Rightarrow> False | Some sb \<Rightarrow> t < sb))))
     (\<lambda>row. case ce_NowAt arg of
        None \<Rightarrow> Inl not_null
      | Some now \<Rightarrow> Inr (row\<lparr>rr_Status := ''processing'', rr_ProcessingStartedAt := Some now,
           rr_UpdatedAt := now,
           rr_StartedAt := (case rr_StartedAt row of None \<Rightarrow> Some now | Some t \<Rightarrow> Some t),
           rr_FailureReason := None, rr_FailureCode := None\<rparr>)))"

definition q_CreateReport :: "ReportsReport \<Rightarrow> db \<Rightarrow> (goerr + ReportsReport) \<times> db" where
  "q_CreateReport row = run_stmt (\<lambda>d.
     if rr_ReportID row \<in> rr_ReportID ` set (reports_reports d) then (Inl duplicate_key, d)
     else (Inr row, d\<lparr>reports_reports := insert_row row (reports_reports d)\<rparr>))"

definition q_GetReportByID :: "uuid \<Rightarrow> db \<Rightarrow> (goerr + ReportsReport) \<times> db" where
  "q_GetReportByID reportID = run_stmt (\<lambda>d.
     ((case select_row rr_ReportID reportID (reports_reports d) of
         None \<Rightarrow> Inl (Sentinel SqlErrNoRows) | Some row \<Rightarrow> Inr row), d))"

definition q_ListPendingReportsOlderThan :: "time \<Rightarrow> db \<Rightarrow> (goerr + ReportsReport list) \<times> db" where
  "q_ListPendingReportsOlderThan updatedBefore = run_stmt (\<lambda>d.
     (Inr (order_by_asc rr_UpdatedAt
        (filter (\<lambda>row. rr_Status row = ''pending'' \<and> rr_UpdatedAt row < updatedBefore)
           (reports_reports d))), d))"

definition q_ListReportsByOwner :: "string \<Rightarrow> db \<Rightarrow> (goerr + ReportsReport list) \<times> db" where
  "q_ListReportsByOwner ownerUserID = run_stmt (\<lambda>d.
     (Inr (order_by_desc rr_CreatedAt
        (filter (\<lambda>row. rr_OwnerUserID row = ownerUserID) (reports_reports d))), d))"

record MarkReportCompletedParams =
  mc_Result :: "string option"
  mc_NowAt :: "time option"
  mc_ReportID :: uuid

definition q_MarkReportCompleted ::
  "MarkReportCompletedParams \<Rightarrow> db \<Rightarrow> (goerr + ReportsReport) \<times> db" where
  "q_MarkReportCompleted arg = run_stmt (update_returning (mc_ReportID arg)
     (\<lambda>row. rr_Status row = ''processing'')
     (\<lambda>row. case mc_NowAt arg of
        None \<Rightarrow> Inl not_null
      | Some now \<Rightarrow> Inr (row\<lparr>rr_Status := ''completed'', rr_Result := mc_Result arg,
           rr_CompletedAt := Some now, rr_UpdatedAt := now, rr_ProcessingStartedAt := None,
           rr_FailureReason := None, rr_FailureCode := None\<rparr>)))"

record MarkReportFailedParams =
  mf_FailureReason :: "string option"
  mf_FailureCode :: "string option"
  mf_NowAt :: "time option"
  mf_ReportID :: uuid

definition q_MarkReportFailed ::
  "MarkReportFailedParams \<Rightarrow> db \<Rightarrow> (goerr + ReportsReport) \<times> db" where
  "q_MarkReportFailed arg = run_stmt (update_returning (mf_ReportID arg)
     (\<lambda>row. rr_Status row = ''processing'')
     (\<lambda>row. case mf_NowAt arg of
        None \<Rightarrow> Inl not_null
      | Some now \<Rightarrow> Inr (row\<lparr>rr_Status := ''failed'', rr_FailureReason := mf_FailureReason arg,
           rr_FailureCode := mf_FailureCode arg, rr_CompletedAt := Some now,
           rr_UpdatedAt := now, rr_ProcessingStartedAt := None\<rparr>)))"

record MarkReportPendingRetryParams =
  mp_NowAt :: time
  mp_ReportID :: uuid

definition q_MarkReportPendingRetry ::
  "MarkReportPendingRetryParams \<Rightarrow> db \<Rightarrow> (goerr + ReportsReport) \<times> db" where
  "q_MarkReportPendingRetry arg = run_stmt (update_returning (mp_ReportID arg)
     (\<lambda>row. rr_Status row = ''processing'')
     (\<lambda>row. Inr (row\<lparr>rr_Status := ''pending'', rr_ProcessingStartedAt := None,
           rr_UpdatedAt := mp_NowAt arg, rr_FailureReason := None, rr_FailureCode := None\<rparr>)))"

subsection \<open>Adapter\<close>

definition nullTime :: "time option \<Rightarrow> time option" where
  "nullTime t = (case t of None \<Rightarrow> None | Some x \<Rightarrow> Some x)"

definition nullString :: "string \<Rightarrow> string option" where
  "nullString s = (if s = '''' then None else Some s)"

definition mapReport :: "ReportsReport \<Rightarrow> Report" where
  "mapReport r = \<lparr>rp_ReportID = rr_ReportID r, rp_OwnerUserID = rr_OwnerUserID r,
     rp_Type = rr_ReportType r, rp_Status = rr_Status r,
     rp_CreatedAt = rr_CreatedAt r, rp_UpdatedAt = rr_UpdatedAt r,
     rp_StartedAt = (case rr_StartedAt r of Some t \<Rightarrow> Some t | None \<Rightarrow> None),
     rp_CompletedAt = (case rr_CompletedAt r of Some t \<Rightarrow> Some t | None \<Rightarrow> None),
     rp_ProcessingStartedAt = (case rr_ProcessingStartedAt r of Some t \<Rightarrow> Some t | None \<Rightarrow> None),
     rp_FailureReason = (case rr_FailureReason r of Some s \<Rightarrow> s | None \<Rightarrow> ''''),
     rp_FailureCode = (case rr_FailureCode r of Some s \<Rightarrow> s | None \<Rightarrow> ''''),
     rp_Result = (case rr_Result r of Some s \<Rightarrow> s | None \<Rightarrow> '''')\<rparr>"

definition report_row :: "Report \<Rightarrow> ReportsReport" where
  "report_row r = \<lparr>rr_ReportID = rp_ReportID r, rr_OwnerUserID = rp_OwnerUserID r,
     rr_ReportType = rp_Type r, rr_Status = rp_Status r,
     rr_CreatedAt = rp_CreatedAt r, rr_UpdatedAt = rp_UpdatedAt r,
     rr_StartedAt = nullTime (rp_StartedAt r), rr_CompletedAt = nullTime (rp_CompletedAt r),
     rr_FailureReason = nullString (rp_FailureReason r), rr_Result = nullString (rp_Result r),
     rr_ProcessingStartedAt = nullTime (rp_ProcessingStartedAt r),
     rr_FailureCode = nullString (rp_FailureCode r)\<rparr>"

definition map_row :: "(goerr + ReportsReport) \<times> db \<Rightarrow> (goerr + Report) \<times> db" where
  "map_row x = (case x of (Inl err, d) \<Rightarrow> (Inl err, d) | (Inr row, d) \<Rightarrow> (Inr (mapReport row), d))"

definition map_row_list :: "(goerr + ReportsReport list) \<times> db \<Rightarrow> (goerr + Report list) \<times> db" where
  "map_row_list x =
     (case x of (Inl err, d) \<Rightarrow> (Inl err, d) | (Inr rows, d) \<Rightarrow> (Inr (map mapReport rows), d))"

definition pg_CreateReport :: "Report \<Rightarrow> db \<Rightarrow> (goerr + Report) \<times> db" where
  "pg_CreateReport r d = map_row (q_CreateReport (report_row r) d)"

definition pg_GetReportByID :: "uuid \<Rightarrow> db \<Rightarrow> (goerr + Report) \<times> db" where
  "pg_GetReportByID i d = map_row (q_GetReportByID i d)"

definition pg_ListReportsByOwner :: "string \<Rightarrow> db \<Rightarrow> (goerr + Report list) \<times> db" where
  "pg_ListReportsByOwner ownerUserID d = map_row_list (q_ListReportsByOwner ownerUserID d)"

definition pg_ClaimExecution :: "uuid \<Rightarrow> time \<Rightarrow> time \<Rightarrow> db \<Rightarrow> (goerr + Report) \<times> db" where
  "pg_ClaimExecution i now staleBefore d =
     map_row (q_ClaimReportExecution \<lparr>ce_NowAt = Some now, ce_ReportID = i,
       ce_StaleBefore = Some staleBefore\<rparr> d)"

definition pg_MarkPendingRetry :: "uuid \<Rightarrow> time \<Rightarrow> db \<Rightarrow> (goerr + Report) \<times> db" where
  "pg_MarkPendingRetry i at d =
     map_row (q_MarkReportPendingRetry \<lparr>mp_NowAt = at, mp_ReportID = i\<rparr> d)"

definition pg_MarkCompleted :: "uuid \<Rightarrow> string \<Rightarrow> time \<Rightarrow> db \<Rightarrow> (goerr + Report) \<times> db" where
  "pg_MarkCompleted i result at d =
     map_row (q_MarkReportCompleted \<lparr>mc_Result = Some result, mc_NowAt = Some at, mc_ReportID = i\<rparr> d)"

definition pg_MarkFailed :: "uuid \<Rightarrow> string \<Rightarrow> string \<Rightarrow> time \<Rightarrow> db \<Rightarrow> (goerr + Report) \<times> db" where
  "pg_MarkFailed i code reason at d =
     map_row (q_MarkReportFailed \<lparr>mf_FailureReason = (if reason \<noteq> '''' then Some reason else None),
       mf_FailureCode = (if code \<noteq> '''' then Some code else None),
       mf_NowAt = Some at, mf_ReportID = i\<rparr> d)"

definition pg_ListPendingOlderThan :: "time \<Rightarrow> db \<Rightarrow> (goerr + Report list) \<times> db" where
  "pg_ListPendingOlderThan updatedBefore d =
     map_row_list (q_ListPendingReportsOlderThan updatedBefore d)"

definition PgReportStore :: "db ReportStore" where
  "PgReportStore = \<lparr>rs_CreateReport = pg_CreateReport, rs_GetReportByID = pg_GetReportByID,
     rs_ListReportsByOwner = pg_ListReportsByOwner, rs_ClaimExecution = pg_ClaimExecution,
     rs_MarkPendingRetry = pg_MarkPendingRetry, rs_MarkCompleted = pg_MarkCompleted,
     rs_MarkFailed = pg_MarkFailed, rs_ListPendingOlderThan = pg_ListPendingOlderThan\<rparr>"

subsection \<open>The adapter meets the contract\<close>

definition reports_view :: "ReportsReport list \<Rightarrow> uuid \<Rightarrow> Report option" where
  "reports_view rows i = map_option mapReport (select_row rr_ReportID i rows)"

definition pg_reports_view :: "db \<Rightarrow> uuid \<Rightarrow> Report option" where
  "pg_reports_view d = reports_view (reports_reports d)"

definition pg_reports_ok :: "db \<Rightarrow> bool" where
  "pg_reports_ok d \<longleftrightarrow> keyed rr_ReportID (reports_reports d)"

lemmas pg_report_state = pg_reports_view_def pg_reports_ok_def db_healthy_def

lemma PgReportStore_ops [simp]:
  "rs_CreateReport PgReportStore = pg_CreateReport"
  "rs_GetReportByID PgReportStore = pg_GetReportByID"
  "rs_ListReportsByOwner PgReportStore = pg_ListReportsByOwner"
  "rs_ClaimExecution PgReportStore = pg_ClaimExecution"
  "rs_MarkPendingRetry PgReportStore = pg_MarkPendingRetry"
  "rs_MarkCompleted PgReportStore = pg_MarkCompleted"
  "rs_MarkFailed PgReportStore = pg_MarkFailed"
  "rs_ListPendingOlderThan PgReportStore = pg_ListPendingOlderThan"
  by (simp_all add: PgReportStore_def)

lemma map_row_eq: "map_row (r, d) = (map_sum id mapReport r, d)"
  by (cases r) (simp_all add: map_row_def)

lemma map_row_list_eq: "map_row_list (r, d) = (map_sum id (map mapReport) r, d)"
  by (cases r) (simp_all add: map_row_list_def)

lemma mapReport_row [simp]: "mapReport (report_row r) = r"
  by (cases r) (simp add: mapReport_def report_row_def nullTime_def nullString_def split: option.splits)

lemma rr_ReportID_row [simp]: "rr_ReportID (report_row r) = rp_ReportID r"
  by (simp add: report_row_def)

lemma mapReport_sel [simp]:
  "rp_ReportID (mapReport r) = rr_ReportID r" "rp_OwnerUserID (mapReport r) = rr_OwnerUserID r"
  "rp_Status (mapReport r) = rr_Status r" "rp_UpdatedAt (mapReport r) = rr_UpdatedAt r"
  "rp_CreatedAt (mapReport r) = rr_CreatedAt r" "rp_Type (mapReport r) = rr_ReportType r"
  "rp_ProcessingStartedAt (mapReport r) = rr_ProcessingStartedAt r"
  by (simp_all add: mapReport_def split: option.splits)

lemma reports_view_key: "reports_view rows i = Some r \<Longrightarrow> rp_ReportID r = i"
  by (auto simp: reports_view_def dest: select_row_Some)

lemma reports_view_insert:
  "rr_ReportID row \<notin> rr_ReportID ` set rows \<Longrightarrow>
   reports_view (insert_row row rows) = (reports_view rows)(rr_ReportID row \<mapsto> mapReport row)"
  by (auto simp: fun_eq_iff reports_view_def row_simps select_row_None [THEN iffD2]
      split: option.splits dest: select_row_Some)

lemma reports_view_update:
  assumes "select_row rr_ReportID i rows = Some row" and "rr_ReportID row' = i"
  shows "reports_view (update_rows rr_ReportID i (\<lambda>_. row') rows) = (reports_view rows)(i \<mapsto> mapReport row')"
proof -
  have "select_row rr_ReportID j (update_rows rr_ReportID i (\<lambda>_. row') rows) =
      (if j = i then map_option (\<lambda>_. row') (select_row rr_ReportID j rows)
       else select_row rr_ReportID j rows)" for j
    using assms(2) by (induction rows) (auto simp: update_rows_def)
  with assms(1) show ?thesis by (auto simp: fun_eq_iff reports_view_def)
qed

lemma keyed_update_const:
  assumes "rr_ReportID row' = i"
  shows "keyed rr_ReportID (update_rows rr_ReportID i (\<lambda>_. row') rows) = keyed rr_ReportID rows"
proof -
  have "map rr_ReportID (update_rows rr_ReportID i (\<lambda>_. row') rows) = map rr_ReportID rows"
    using assms by (auto simp: update_rows_def)
  then show ?thesis by (simp add: keyed_def)
qed

text \<open>One lemma for the four conditional updates.\<close>

lemma pg_reports_net [simp]:
  "pg_reports_view (d\<lparr>net := xs\<rparr>) = pg_reports_view d"
  "pg_reports_ok (d\<lparr>net := xs\<rparr>) = pg_reports_ok d"
  by (simp_all add: pg_report_state)

definition sets_like ::
  "uuid \<Rightarrow> (ReportsReport \<Rightarrow> goerr + ReportsReport) \<Rightarrow> (Report \<Rightarrow> Report) \<Rightarrow> bool" where
  "sets_like i set_cols f \<longleftrightarrow> (\<forall>row. rr_ReportID row = i \<longrightarrow>
     (\<exists>row'. set_cols row = Inr row' \<and> rr_ReportID row' = i \<and> mapReport row' = f (mapReport row)))"

lemma update_returning_cases:
  assumes "sets_like i set_cols f" and cond: "\<And>row. cond row \<longleftrightarrow> g (mapReport row)"
  obtains (unmatched) "update_returning i cond set_cols d = (Inl (Sentinel SqlErrNoRows), d)"
      and "\<And>r0. pg_reports_view d i = Some r0 \<Longrightarrow> \<not> g r0"
  | (matched) row' d' r0 where "update_returning i cond set_cols d = (Inr row', d')"
      and "pg_reports_view d i = Some r0" and "g r0" and "mapReport row' = f r0"
      and "net d' = net d" and "pg_reports_view d' = (pg_reports_view d)(i \<mapsto> f r0)"
      and "pg_reports_ok d \<Longrightarrow> pg_reports_ok d'"
proof (cases "select_row rr_ReportID i (reports_reports d)")
  case None
  then show thesis
    by (intro unmatched) (simp_all add: update_returning_def pg_report_state reports_view_def)
next
  case (Some row)
  then have id: "rr_ReportID row = i" by (auto dest: select_row_Some)
  show thesis
  proof (cases "cond row")
    case False
    with Some cond show thesis
      by (intro unmatched) (auto simp: update_returning_def pg_report_state reports_view_def)
  next
    case True
    obtain row' where row': "set_cols row = Inr row'" "rr_ReportID row' = i"
      "mapReport row' = f (mapReport row)"
      using assms(1) id unfolding sets_like_def by blast
    show thesis
      by (rule matched [of row' "d\<lparr>reports_reports :=
              update_rows rr_ReportID i (\<lambda>_. row') (reports_reports d)\<rparr>" "mapReport row"])
        (use Some True row' cond in \<open>simp_all add: update_returning_def pg_report_state
          reports_view_def [of "reports_reports d"] reports_view_update keyed_update_const\<close>)
  qed
qed

lemma update_returning_law:
  assumes upd: "sets_like i set_cols f" "\<And>row. cond row \<longleftrightarrow> g (mapReport row)"
    and op: "\<And>d. op d = map_row (run_stmt (update_returning i cond set_cols) d)"
  shows "guarded_update pg_reports_view pg_reports_ok db_healthy op i g f"
  unfolding guarded_update_def
proof (intro conjI allI impI, goal_cases)
  case (1 d r d')
  obtain q where q: "run_stmt (update_returning i cond set_cols) d = (q, d')"
    using 1(2) by (cases "run_stmt (update_returning i cond set_cols) d") (simp add: op map_row_eq)
  from q show ?case
  proof (cases rule: run_stmt_cases)
    case (reply xs)
    with 1(1) show ?thesis
      by (cases rule: update_returning_cases [where d = "d\<lparr>net := xs\<rparr>" and g = g, OF upd]) auto
  next
    case (unacked m xs)
    with 1(1) show ?thesis
      by (cases rule: update_returning_cases [where d = "d\<lparr>net := xs\<rparr>" and g = g, OF upd]) auto
  qed (use 1(1) in simp)
next
  case (2 d r d')
  obtain q where q: "run_stmt (update_returning i cond set_cols) d = (q, d')"
    and r: "r = map_sum id mapReport q"
    using 2(2) by (cases "run_stmt (update_returning i cond set_cols) d") (simp add: op map_row_eq)
  from q show ?case
  proof (cases rule: run_stmt_cases)
    case (reply xs)
    with r show ?thesis
      by (cases rule: update_returning_cases [where d = "d\<lparr>net := xs\<rparr>" and g = g, OF upd]) auto
  next
    case (unacked m xs)
    with r show ?thesis
      by (cases rule: update_returning_cases [where d = "d\<lparr>net := xs\<rparr>" and g = g, OF upd]) auto
  qed (use r in simp)
next
  case (3 d)
  then show ?case
    by (cases rule: update_returning_cases [where d = d and g = g, OF upd])
      (auto simp: op db_healthy_def map_row_eq split: option.splits)
qed

lemma claim_sets: "sets_like i (\<lambda>row. case Some now of None \<Rightarrow> Inl not_null
      | Some now \<Rightarrow> Inr (row\<lparr>rr_Status := ''processing'', rr_ProcessingStartedAt := Some now,
           rr_UpdatedAt := now,
           rr_StartedAt := (case rr_StartedAt row of None \<Rightarrow> Some now | Some t \<Rightarrow> Some t),
           rr_FailureReason := None, rr_FailureCode := None\<rparr>)) (claimed now)"
  by (auto simp: sets_like_def mapReport_def claimed_def status_defs split: option.splits)

lemma retry_sets: "sets_like i (\<lambda>row. Inr (row\<lparr>rr_Status := ''pending'',
      rr_ProcessingStartedAt := None, rr_UpdatedAt := at,
      rr_FailureReason := None, rr_FailureCode := None\<rparr>)) (retried at)"
  by (auto simp: sets_like_def mapReport_def retried_def status_defs split: option.splits)

lemma complete_sets: "sets_like i (\<lambda>row. case Some at of None \<Rightarrow> Inl not_null
      | Some now \<Rightarrow> Inr (row\<lparr>rr_Status := ''completed'', rr_Result := Some res,
           rr_CompletedAt := Some now, rr_UpdatedAt := now, rr_ProcessingStartedAt := None,
           rr_FailureReason := None, rr_FailureCode := None\<rparr>)) (completed res at)"
  by (auto simp: sets_like_def mapReport_def completed_def status_defs split: option.splits)

lemma fail_sets: "sets_like i (\<lambda>row. case Some at of None \<Rightarrow> Inl not_null
      | Some now \<Rightarrow> Inr (row\<lparr>rr_Status := ''failed'',
           rr_FailureReason := (if reason \<noteq> '''' then Some reason else None),
           rr_FailureCode := (if code \<noteq> '''' then Some code else None), rr_CompletedAt := Some now,
           rr_UpdatedAt := now, rr_ProcessingStartedAt := None\<rparr>)) (failed code reason at)"
  by (auto simp: sets_like_def mapReport_def failed_def status_defs split: option.splits)

lemma pg_claim_law:
  "guarded_update pg_reports_view pg_reports_ok db_healthy (pg_ClaimExecution i now stale) i
     (claimable stale) (claimed now)"
  by (rule update_returning_law [OF claim_sets])
    (auto simp: pg_ClaimExecution_def q_ClaimReportExecution_def claimable_def status_defs
      split: option.splits)

lemma pg_retry_law:
  "guarded_update pg_reports_view pg_reports_ok db_healthy (pg_MarkPendingRetry i at) i
     processing (retried at)"
  by (rule update_returning_law [OF retry_sets])
    (auto simp: pg_MarkPendingRetry_def q_MarkReportPendingRetry_def processing_def status_defs)

lemma pg_complete_law:
  "guarded_update pg_reports_view pg_reports_ok db_healthy (pg_MarkCompleted i res at) i
     processing (completed res at)"
  by (rule update_returning_law [OF complete_sets])
    (auto simp: pg_MarkCompleted_def q_MarkReportCompleted_def processing_def status_defs)

lemma pg_fail_law:
  "guarded_update pg_reports_view pg_reports_ok db_healthy (pg_MarkFailed i code reason at) i
     processing (failed code reason at)"
  by (rule update_returning_law [OF fail_sets])
    (auto simp: pg_MarkFailed_def q_MarkReportFailed_def processing_def status_defs)

lemma ran_reports_view: "keyed rr_ReportID rows \<Longrightarrow> ran (reports_view rows) = mapReport ` set rows"
  by (force simp: ran_def reports_view_def select_row_iff)

lemma pg_report_list:
  assumes "pg_reports_ok d"
    and "map_row_list (run_stmt (\<lambda>d. (Inr (F (filter P (reports_reports d))), d)) d) = (r, d')"
    and "\<And>rows. set (F rows) = set rows" and "\<And>rows. distinct rows \<Longrightarrow> distinct (F rows)"
    and "\<And>row. P row \<longleftrightarrow> Q (mapReport row)"
  shows "pg_reports_view d' = pg_reports_view d" and "pg_reports_ok d'"
    and "r = Inr rs \<Longrightarrow> set rs = {x \<in> ran (pg_reports_view d). Q x}"
    and "r = Inr rs \<Longrightarrow> distinct rs"
    and "db_healthy d \<Longrightarrow> \<exists>rs. r = Inr rs \<and> d' = d"
proof -
  let ?stmt = "\<lambda>d. (Inr (F (filter P (reports_reports d))) :: goerr + ReportsReport list, d)"
  obtain q where q: "run_stmt ?stmt d = (q, d')" and r: "r = map_sum id (map mapReport) q"
    using assms(2) by (cases "run_stmt ?stmt d") (simp add: map_row_list_eq)
  from run_stmt_read [OF q] obtain xs where d': "d' = d\<lparr>net := xs\<rparr>"
    and qq: "q = Inr (F (filter P (reports_reports d))) \<or> (\<exists>m. q = Inl (OtherErr m))" by auto
  from d' assms(1) show "pg_reports_view d' = pg_reports_view d" "pg_reports_ok d'" by simp_all
  have key: "keyed rr_ReportID (reports_reports d)" using assms(1) by (simp add: pg_reports_ok_def)
  have rs: "r = Inr rs \<Longrightarrow> rs = map mapReport (F (filter P (reports_reports d)))"
    using r qq by auto
  from rs show "r = Inr rs \<Longrightarrow> set rs = {x \<in> ran (pg_reports_view d). Q x}"
    by (auto simp: pg_reports_view_def ran_reports_view [OF key] assms(3,5))
  have "inj_on mapReport (set (filter P (reports_reports d)))"
    using key unfolding inj_on_def keyed_def distinct_map by (metis filter_is_subset in_mono mapReport_sel(1))
  then show "r = Inr rs \<Longrightarrow> distinct rs"
    using rs key by (auto simp: distinct_map assms(3,4) keyed_distinct)
  show "db_healthy d \<Longrightarrow> \<exists>rs. r = Inr rs \<and> d' = d"
    using q r by (auto simp: db_healthy_def)
qed

lemma pg_owner_list:
  assumes "pg_reports_ok d" and "pg_ListReportsByOwner u d = (r, d')"
  shows "pg_reports_view d' = pg_reports_view d" and "pg_reports_ok d'"
    and "r = Inr rs \<Longrightarrow> set rs = {x \<in> ran (pg_reports_view d). rp_OwnerUserID x = u}"
    and "r = Inr rs \<Longrightarrow> distinct rs"
    and "db_healthy d \<Longrightarrow> \<exists>rs. r = Inr rs \<and> d' = d"
  by (rule pg_report_list [OF assms(1) assms(2) [unfolded pg_ListReportsByOwner_def
          q_ListReportsByOwner_def], where Q = "\<lambda>x. rp_OwnerUserID x = u"]; simp)+

lemma pg_pending_list:
  assumes "pg_reports_ok d" and "pg_ListPendingOlderThan before d = (r, d')"
  shows "pg_reports_view d' = pg_reports_view d" and "pg_reports_ok d'"
    and "r = Inr rs \<Longrightarrow> set rs = {x \<in> ran (pg_reports_view d).
           rp_Status x = StatusPending \<and> rp_UpdatedAt x < before}"
    and "r = Inr rs \<Longrightarrow> distinct rs"
    and "db_healthy d \<Longrightarrow> \<exists>rs. r = Inr rs \<and> d' = d"
  by (rule pg_report_list [OF assms(1) assms(2) [unfolded pg_ListPendingOlderThan_def
          q_ListPendingReportsOlderThan_def],
          where Q = "\<lambda>x. rp_Status x = StatusPending \<and> rp_UpdatedAt x < before"];
      simp add: StatusPending_def)+

lemma pg_CreateReport_spec:
  assumes "pg_CreateReport x d = (r, d')" and "pg_reports_ok d"
  shows "pg_reports_ok d' \<and>
    (case r of
       Inr x' \<Rightarrow> x' = x \<and> pg_reports_view d' = (pg_reports_view d)(rp_ReportID x \<mapsto> x)
     | Inl e \<Rightarrow> pg_reports_view d' = pg_reports_view d \<or>
         (pg_reports_view d (rp_ReportID x) = None \<and>
          pg_reports_view d' = (pg_reports_view d)(rp_ReportID x \<mapsto> x)))"
proof -
  obtain q where q: "q_CreateReport (report_row x) d = (q, d')" and r: "r = map_sum id mapReport q"
    using assms(1) by (cases "q_CreateReport (report_row x) d") (simp add: pg_CreateReport_def map_row_eq)
  from q show ?thesis unfolding q_CreateReport_def
    using assms(2) r
    by (cases rule: run_stmt_cases)
      (auto simp: pg_report_state reports_view_insert reports_view_def [of _ "rp_ReportID x"]
        select_row_None split: if_splits)
qed

lemma pg_GetReportByID_spec:
  assumes "pg_GetReportByID i d = (r, d')"
  shows "reports_reports d' = reports_reports d \<and>
    (case r of Inr x \<Rightarrow> pg_reports_view d i = Some x
     | Inl e \<Rightarrow> errors_Is e SqlErrNoRows \<longrightarrow> pg_reports_view d i = None)"
proof -
  obtain q where q: "q_GetReportByID i d = (q, d')" and r: "r = map_sum id mapReport q"
    using assms by (cases "q_GetReportByID i d") (simp add: pg_GetReportByID_def map_row_eq)
  from run_stmt_read [OF q [unfolded q_GetReportByID_def]] r show ?thesis
    by (auto simp: pg_report_state reports_view_def split: option.splits)
qed

lemma pg_report_healthy:
  assumes "db_healthy d"
  shows "pg_reports_view d (rp_ReportID x) = None \<Longrightarrow>
      \<exists>d'. pg_CreateReport x d = (Inr x, d') \<and> db_healthy d'"
    and "pg_GetReportByID i d =
      ((case pg_reports_view d i of Some r \<Rightarrow> Inr r | None \<Rightarrow> Inl (Sentinel SqlErrNoRows)), d)"
  using assms
  by (auto simp: pg_CreateReport_def q_CreateReport_def pg_GetReportByID_def q_GetReportByID_def
      pg_report_state reports_view_def map_row_eq split: option.splits
      dest: select_row_None [THEN iffD1])

lemmas pg_report_laws =
  pg_CreateReport_spec [where r = "Inr t" for t, simplified]
  pg_CreateReport_spec [where r = "Inl e" for e, simplified]
  pg_GetReportByID_spec [where r = "Inr t" for t, simplified]
  pg_GetReportByID_spec [where r = "Inl e" for e, simplified]

interpretation pg_report: report_store PgReportStore pg_reports_view pg_reports_ok db_healthy
proof (unfold_locales, unfold PgReportStore_ops, goal_cases)
  case 1 then show ?case by (simp add: pg_report_state reports_view_key)
next
  case (8 s i gr s')
  with pg_GetReportByID_spec [OF 8(2)] show ?case by (simp add: pg_report_state)
next
  case (12 s u)
  then show ?case using pg_owner_list(5) [OF 12(1) surjective_pairing, of u] by (metis prod.collapse)
next
  case (19 s before)
  then show ?case using pg_pending_list(5) [OF 19(1) surjective_pairing, of before]
    by (metis prod.collapse)
qed ((rule pg_report_healthy pg_claim_law pg_retry_law pg_complete_law pg_fail_law; assumption?)
    | blast dest: pg_report_laws pg_CreateReport_spec pg_owner_list pg_pending_list)+

end
