(* ===== verification/Reports_Service.thy ===== *)
theory Reports_Service
  imports Reports_Postgres
begin

text \<open>
  The reports application service, \<open>reports/service.go\<close>, over any store, summary reader
  and enqueuer. Reading the clock and, in the enqueuer, the random source is explicit:
  \<open>now\<close> and \<open>now'\<close> are the two clock readings of a generation, \<open>'e\<close> is what one
  enqueue draws from the environment. The lemmas are proved in the locale
  \<open>report_service\<close> from the store contract.
\<close>

subsection \<open>The service\<close>

record ('e, 's) ReportService =
  rsv_store :: "'s ReportStore"
  rsv_summaries :: "ctx \<Rightarrow> 's \<Rightarrow> (goerr + TodoSummary) \<times> 's"
  rsv_enqueue :: "'e \<Rightarrow> ctx \<Rightarrow> string \<Rightarrow> GenerateReportJob \<Rightarrow> 's \<Rightarrow> goerr option \<times> 's"
  rsv_authDisabled :: bool
  rsv_processingLease :: duration
  rsv_reconcileAfter :: duration

definition NewReportService ::
  "'s ReportStore \<Rightarrow> (ctx \<Rightarrow> 's \<Rightarrow> (goerr + TodoSummary) \<times> 's) \<Rightarrow>
   ('e \<Rightarrow> ctx \<Rightarrow> string \<Rightarrow> GenerateReportJob \<Rightarrow> 's \<Rightarrow> goerr option \<times> 's) \<Rightarrow>
   bool \<Rightarrow> duration \<Rightarrow> duration \<Rightarrow> ('e, 's) ReportService" where
  "NewReportService store summaries enqueue authDisabled processingLease reconcileAfter =
     \<lparr>rsv_store = store, rsv_summaries = summaries, rsv_enqueue = enqueue,
      rsv_authDisabled = authDisabled,
      rsv_processingLease = (if processingLease \<le> 0 then 5 * Minute else processingLease),
      rsv_reconcileAfter = (if reconcileAfter \<le> 0 then Minute else reconcileAfter)\<rparr>"

definition principal :: "('e, 's) ReportService \<Rightarrow> ctx \<Rightarrow> goerr + Principal" where
  "principal svc c =
     (case FromContext c of (p, _) \<Rightarrow>
        (case RequireAuthenticated p (rsv_authDisabled svc) of
           Some _ \<Rightarrow> Inl (Errorf_w (Sentinel ErrPermissionDenied) ''authentication required'')
         | None \<Rightarrow>
             if \<not> rsv_authDisabled svc \<and> UserID p = ''''
             then Inl (Errorf_w (Sentinel ErrPermissionDenied) ''authentication required'')
             else Inr p))"

definition assertOwner :: "Principal \<Rightarrow> Report \<Rightarrow> goerr option" where
  "assertOwner p r =
     (if rp_OwnerUserID r \<noteq> UserID p
      then Some (Errorf_w (Sentinel ErrPermissionDenied) ''not your report'') else None)"

definition supportedType :: "string \<Rightarrow> bool" where
  "supportedType t \<longleftrightarrow> t = TypeTodoSummary"

definition new_report :: "uuid \<Rightarrow> Principal \<Rightarrow> CreateRequest \<Rightarrow> time \<Rightarrow> Report" where
  "new_report newID p req now =
     \<lparr>rp_ReportID = newID, rp_OwnerUserID = UserID p, rp_Type = cr_Type req,
      rp_Status = StatusPending, rp_CreatedAt = now, rp_UpdatedAt = now,
      rp_StartedAt = None, rp_CompletedAt = None, rp_ProcessingStartedAt = None,
      rp_FailureReason = '''', rp_FailureCode = '''', rp_Result = ''''\<rparr>"

definition CreateReport ::
  "('e, 's) ReportService \<Rightarrow> ctx \<Rightarrow> CreateRequest \<Rightarrow> time \<Rightarrow> uuid \<Rightarrow> 'e \<Rightarrow> 's \<Rightarrow> (goerr + Report) \<times> 's" where
  "CreateReport svc c req now newID env s =
     (case principal svc c of
        Inl err \<Rightarrow> (Inl err, s)
      | Inr p \<Rightarrow>
          if cr_Type req = '''' then
            (Inl (Errorf_w (Sentinel ErrValidation) ''type is required''), s)
          else if \<not> supportedType (cr_Type req) then
            (Inl (Errorf_w (Sentinel ErrValidation) ''unsupported report type''), s)
          else
            (case rs_CreateReport (rsv_store svc) (new_report newID p req now) s of
               (Inl err, s1) \<Rightarrow> (Inl (Errorf_w (Sentinel ErrInternal) ''create report''), s1)
             | (Inr created, s1) \<Rightarrow>
                 (case rsv_enqueue svc env c JobGenerate \<lparr>gj_ReportID = rp_ReportID created\<rparr> s1 of
                    (Some err, s2) \<Rightarrow> (Inr created, s2)
                  | (None, s2) \<Rightarrow> (Inr created, s2))))"

definition GetReport :: "('e, 's) ReportService \<Rightarrow> ctx \<Rightarrow> string \<Rightarrow> 's \<Rightarrow> (goerr + Report) \<times> 's" where
  "GetReport svc c i s =
     (case principal svc c of
        Inl err \<Rightarrow> (Inl err, s)
      | Inr p \<Rightarrow>
          (case uuid_Parse i of
             Inl _ \<Rightarrow> (Inl (Errorf_w (Sentinel ErrBadRequest) ''invalid report id''), s)
           | Inr rid \<Rightarrow>
               (case rs_GetReportByID (rsv_store svc) rid s of
                  (Inl err, s1) \<Rightarrow>
                    if errors_Is err SqlErrNoRows
                    then (Inl (Errorf_w (Sentinel ErrNotFound) ''report not found''), s1)
                    else (Inl (Errorf_w (Sentinel ErrInternal) ''get report''), s1)
                | (Inr r, s1) \<Rightarrow>
                    (case assertOwner p r of
                       Some err \<Rightarrow> (Inl err, s1)
                     | None \<Rightarrow> (Inr r, s1)))))"

definition ListReports :: "('e, 's) ReportService \<Rightarrow> ctx \<Rightarrow> 's \<Rightarrow> (goerr + Report list) \<times> 's" where
  "ListReports svc c s =
     (case principal svc c of
        Inl err \<Rightarrow> (Inl err, s)
      | Inr p \<Rightarrow>
          (case rs_ListReportsByOwner (rsv_store svc) (UserID p) s of
             (Inl err, s1) \<Rightarrow> (Inl (Errorf_w (Sentinel ErrInternal) ''list reports''), s1)
           | (Inr l, s1) \<Rightarrow> (Inr l, s1)))"

definition handleRetryable ::
  "('e, 's) ReportService \<Rightarrow> ctx \<Rightarrow> uuid \<Rightarrow> goerr \<Rightarrow> time \<Rightarrow> 's \<Rightarrow> goerr option \<times> 's" where
  "handleRetryable svc c reportID cause now' s =
     (if (case AttemptFromContext c of Some info \<Rightarrow> Attempt info \<ge> MaxAttempts info | None \<Rightarrow> False)
      then (None, snd (rs_MarkFailed (rsv_store svc) reportID FailureRetryExhausted
                        (SafeFailureMessage FailureRetryExhausted '''') now' s))
      else (case rs_MarkPendingRetry (rsv_store svc) reportID now' s of
              (Inl err, s1) \<Rightarrow>
                if \<not> errors_Is err SqlErrNoRows then (Retryable (Some err), s1)
                else (Retryable (Some cause), s1)
            | (Inr _, s1) \<Rightarrow> (Retryable (Some cause), s1)))"

definition result_text :: "TodoSummary \<Rightarrow> string" where
  "result_text sm =
     ''Total todos: '' @ Itoa (su_Total sm) @ [CHR 0x0A] @
     ''Completed: '' @ Itoa (su_Completed sm) @ [CHR 0x0A] @
     ''Outstanding: '' @ Itoa (su_Outstanding sm)"

text \<open>\<open>Generate\<close> from the successful claim on (\<open>r\<close> is the report as first read).\<close>

definition generate_claimed ::
  "('e, 's) ReportService \<Rightarrow> ctx \<Rightarrow> uuid \<Rightarrow> Report \<Rightarrow> time \<Rightarrow> 's \<Rightarrow> goerr option \<times> 's" where
  "generate_claimed svc c reportID r now' s =
     (if \<not> supportedType (rp_Type r) then
        (None, snd (rs_MarkFailed (rsv_store svc) reportID FailureUnsupportedType
                      (SafeFailureMessage FailureUnsupportedType '''') now' s))
      else
        (case rsv_summaries svc c s of
           (Inl err, s1) \<Rightarrow> handleRetryable svc c reportID err now' s1
         | (Inr summary, s1) \<Rightarrow>
             (case rs_MarkCompleted (rsv_store svc) reportID (result_text summary) now' s1 of
                (Inl err, s2) \<Rightarrow>
                  if errors_Is err SqlErrNoRows then (None, s2) else (Retryable (Some err), s2)
              | (Inr _, s2) \<Rightarrow> (None, s2))))"

definition Generate ::
  "('e, 's) ReportService \<Rightarrow> ctx \<Rightarrow> uuid \<Rightarrow> time \<Rightarrow> time \<Rightarrow> 's \<Rightarrow> goerr option \<times> 's" where
  "Generate svc c reportID now now' s =
     (case rs_GetReportByID (rsv_store svc) reportID s of
        (Inl err, s1) \<Rightarrow>
          if errors_Is err SqlErrNoRows then (None, s1) else (Retryable (Some err), s1)
      | (Inr r, s1) \<Rightarrow>
          if rp_Status r = StatusCompleted \<or> rp_Status r = StatusFailed then (None, s1)
          else if rp_Status r = StatusPending \<or> rp_Status r = StatusProcessing then
            let staleBefore = now + (- rsv_processingLease svc) in
            (case rs_ClaimExecution (rsv_store svc) reportID now staleBefore s1 of
               (Inl err, s2) \<Rightarrow>
                 if errors_Is err SqlErrNoRows then (None, s2) else (Retryable (Some err), s2)
             | (Inr _, s2) \<Rightarrow> generate_claimed svc c reportID r now' s2)
          else (None, s1))"

text \<open>
  The loop of \<open>ReconcilePending\<close> logs a failed enqueue and goes on; \<open>k\<close> counts the
  draws from the environment.
\<close>

fun reconcile_loop ::
  "('e, 's) ReportService \<Rightarrow> ctx \<Rightarrow> (nat \<Rightarrow> 'e) \<Rightarrow> nat \<Rightarrow> Report list \<Rightarrow> 's \<Rightarrow> 's" where
  "reconcile_loop svc c env k [] s = s"
| "reconcile_loop svc c env k (r # rs) s =
     reconcile_loop svc c env (Suc k) rs
       (snd (rsv_enqueue svc (env k) c JobGenerate \<lparr>gj_ReportID = rp_ReportID r\<rparr> s))"

definition ReconcilePending ::
  "('e, 's) ReportService \<Rightarrow> ctx \<Rightarrow> time \<Rightarrow> (nat \<Rightarrow> 'e) \<Rightarrow> 's \<Rightarrow> goerr option \<times> 's" where
  "ReconcilePending svc c now env s =
     (let before = now + (- rsv_reconcileAfter svc) in
      (case rs_ListPendingOlderThan (rsv_store svc) before s of
         (Inl err, s1) \<Rightarrow> (Some err, s1)
       | (Inr rs, s1) \<Rightarrow> (None, reconcile_loop svc c env 0 rs s1)))"

lemma NewReportService_simps [simp]:
  "rsv_store (NewReportService st su en dis l a) = st"
  "rsv_summaries (NewReportService st su en dis l a) = su"
  "rsv_enqueue (NewReportService st su en dis l a) = en"
  "rsv_authDisabled (NewReportService st su en dis l a) = dis"
  by (simp_all add: NewReportService_def)

lemma NewReportService_lease_pos:
  "rsv_processingLease (NewReportService st su en dis l a) > 0"
  "rsv_reconcileAfter (NewReportService st su en dis l a) > 0"
  by (simp_all add: NewReportService_def)

lemma principal_Inr:
  "principal svc c = Inr p \<longleftrightarrow>
     p = fst (FromContext c) \<and> authenticated (rsv_authDisabled svc) c"
  by (auto simp: principal_def authenticated_def RequireAuthenticated_def split: prod.splits)

lemma principal_Inl:
  "\<not> authenticated (rsv_authDisabled svc) c \<Longrightarrow>
   principal svc c = Inl (Errorf_w (Sentinel ErrPermissionDenied) ''authentication required'')"
  by (auto simp: principal_def authenticated_def RequireAuthenticated_def split: prod.splits)

subsection \<open>What a generation can do to a report\<close>

text \<open>The outcomes of one run of \<open>Generate\<close> on the report it was started for.\<close>

definition gen_outcome :: "time \<Rightarrow> time \<Rightarrow> Report \<Rightarrow> Report \<Rightarrow> bool" where
  "gen_outcome now now' r0 r' \<longleftrightarrow>
     r' = claimed now r0 \<or>
     (if supportedType (rp_Type r0)
      then r' = retried now' (claimed now r0) \<or>
           (\<exists>sm. r' = completed (result_text sm) now' (claimed now r0)) \<or>
           r' = failed FailureRetryExhausted (SafeFailureMessage FailureRetryExhausted '''') now' (claimed now r0)
      else r' = failed FailureUnsupportedType (SafeFailureMessage FailureUnsupportedType '''') now' (claimed now r0))"

lemma processing_claimed [simp]: "processing (claimed now r)"
  by (simp add: processing_def)

text \<open>A property of the state kept by every call \<open>Generate\<close> makes is kept by \<open>Generate\<close>.\<close>

lemma Generate_preserves:
  assumes "\<And>s. P s \<Longrightarrow> P (snd (rs_GetReportByID (rsv_store svc) i s))"
    and "\<And>s stale. P s \<Longrightarrow> P (snd (rs_ClaimExecution (rsv_store svc) i now stale s))"
    and retry: "\<And>s. P s \<Longrightarrow> P (snd (rs_MarkPendingRetry (rsv_store svc) i now' s))"
    and compl: "\<And>s res. P s \<Longrightarrow> P (snd (rs_MarkCompleted (rsv_store svc) i res now' s))"
    and fail: "\<And>s code reason. P s \<Longrightarrow> P (snd (rs_MarkFailed (rsv_store svc) i code reason now' s))"
    and summ: "\<And>s. P s \<Longrightarrow> P (snd (rsv_summaries svc c s))"
    and "P s"
  shows "P (snd (Generate svc c i now now' s))"
proof -
  have h: "P (snd (handleRetryable svc c i cause now' s))" if "P s" for cause s
    using retry [OF that] fail [OF that]
    by (auto simp: handleRetryable_def split: prod.splits sum.splits)
  have g: "P (snd (generate_claimed svc c i r now' s))" if "P s" for r s
  proof -
    obtain sr s1 where su: "rsv_summaries svc c s = (sr, s1)" by force
    with summ [OF that] have "P s1" by simp
    with su fail [OF that] compl h show ?thesis
      by (auto simp: generate_claimed_def split: prod.splits sum.splits) (metis snd_conv)+
  qed
  obtain gr s1 where s1: "rs_GetReportByID (rsv_store svc) i s = (gr, s1)" by force
  obtain cr s2 where s2: "rs_ClaimExecution (rsv_store svc) i now (now - rsv_processingLease svc) s1 = (cr, s2)"
    by force
  from assms(1) [OF \<open>P s\<close>] s1 have p1: "P s1" by simp
  with assms(2) [OF p1] s2 have "P s2" by (metis snd_conv)
  with p1 g s1 s2 show ?thesis
    by (auto simp: Generate_def Let_def split: sum.splits)
qed

subsection \<open>The service over any lawful store\<close>

locale report_service = report_store st view invar healthy
  for st :: "'s ReportStore" and view :: "'s report_view"
    and invar :: "'s \<Rightarrow> bool" and healthy :: "'s \<Rightarrow> bool" +
  fixes svc :: "('e, 's) ReportService"
  assumes svc_store: "rsv_store svc = st"
    and summaries_frame: "invar s \<Longrightarrow> rsv_summaries svc c s = (sr, s') \<Longrightarrow> view s' = view s \<and> invar s'"
    and summaries_healthy: "invar s \<Longrightarrow> healthy s \<Longrightarrow> healthy (snd (rsv_summaries svc c s))"
    and enqueue_frame: "invar s \<Longrightarrow> rsv_enqueue svc env c jt pl s = (er, s') \<Longrightarrow>
      view s' = view s \<and> invar s'"
    and enqueue_healthy: "invar s \<Longrightarrow> healthy s \<Longrightarrow> healthy (snd (rsv_enqueue svc env c jt pl s))"
begin

text \<open>What follows the claim: \<open>i\<close> keeps its claim or takes one of the other outcomes.\<close>

definition settles :: "uuid \<Rightarrow> time \<Rightarrow> time \<Rightarrow> Report \<Rightarrow> 's \<Rightarrow> 's \<Rightarrow> bool" where
  "settles i now now' r0 s s' \<longleftrightarrow>
     invar s' \<and> (\<exists>r'. gen_outcome now now' r0 r' \<and> view s' = (view s)(i \<mapsto> r'))"

lemma settles_mark:
  assumes "guarded_update view invar healthy op i processing f"
    and "invar s" and "view s i = Some (claimed now r0)" and "op s = (r, s')"
    and "gen_outcome now now' r0 (f (claimed now r0))"
  shows "settles i now now' r0 s s'"
proof -
  from guarded_update_step(1,2) [OF assms(1,2,4)]
  have "invar s'" and "view s' = view s \<or> view s' = (view s)(i \<mapsto> f (claimed now r0))"
    using assms(3) by auto
  moreover have "gen_outcome now now' r0 (claimed now r0)" by (simp add: gen_outcome_def)
  ultimately show ?thesis using assms(3,5) unfolding settles_def by (metis fun_upd_triv)
qed

lemma gen_outcomes:
  "supportedType (rp_Type r0) \<Longrightarrow> gen_outcome now now' r0 (retried now' (claimed now r0))"
  "supportedType (rp_Type r0) \<Longrightarrow>
     gen_outcome now now' r0 (completed (result_text sm) now' (claimed now r0))"
  "\<not> supportedType (rp_Type r0) \<Longrightarrow> gen_outcome now now' r0 (failed FailureUnsupportedType
     (SafeFailureMessage FailureUnsupportedType '''') now' (claimed now r0))"
  "supportedType (rp_Type r0) \<Longrightarrow> gen_outcome now now' r0 (failed FailureRetryExhausted
     (SafeFailureMessage FailureRetryExhausted '''') now' (claimed now r0))"
  by (auto simp: gen_outcome_def)

lemma settles_marks:
  assumes "invar s" and "view s i = Some (claimed now r0)"
  shows "supportedType (rp_Type r0) \<Longrightarrow> settles i now now' r0 s (snd (rs_MarkPendingRetry st i now' s))"
    and "supportedType (rp_Type r0) \<Longrightarrow>
      settles i now now' r0 s (snd (rs_MarkCompleted st i (result_text sm) now' s))"
    and "\<not> supportedType (rp_Type r0) \<Longrightarrow> settles i now now' r0 s (snd (rs_MarkFailed st i
           FailureUnsupportedType (SafeFailureMessage FailureUnsupportedType '''') now' s))"
    and "supportedType (rp_Type r0) \<Longrightarrow> settles i now now' r0 s (snd (rs_MarkFailed st i FailureRetryExhausted
           (SafeFailureMessage FailureRetryExhausted '''') now' s))"
  using settles_mark [OF retry_law assms surjective_pairing gen_outcomes(1)]
    settles_mark [OF complete_law assms surjective_pairing gen_outcomes(2)]
    settles_mark [OF fail_law assms surjective_pairing gen_outcomes(3)]
    settles_mark [OF fail_law assms surjective_pairing gen_outcomes(4)]
  by blast+

lemma handleRetryable_state:
  "snd (handleRetryable svc c i cause now' s) = snd (rs_MarkPendingRetry st i now' s) \<or>
   snd (handleRetryable svc c i cause now' s) = snd (rs_MarkFailed st i FailureRetryExhausted
     (SafeFailureMessage FailureRetryExhausted '''') now' s)"
  by (auto simp: handleRetryable_def svc_store split: prod.splits sum.splits)

lemma handle_settles:
  assumes "invar s" and "view s i = Some (claimed now r0)" and "supportedType (rp_Type r0)"
  shows "settles i now now' r0 s (snd (handleRetryable svc c i cause now' s))"
  using handleRetryable_state settles_marks(1,4) [OF assms] by metis

lemma generate_claimed_settles:
  assumes "invar s" and "view s i = Some (claimed now r0)" and ty: "rp_Type r = rp_Type r0"
  shows "settles i now now' r0 s (snd (generate_claimed svc c i r now' s))"
proof (cases "supportedType (rp_Type r)")
  case False
  then show ?thesis using settles_marks(3) [OF assms(1,2)] by (simp add: generate_claimed_def svc_store ty)
next
  case True
  obtain sr s1 where su: "rsv_summaries svc c s = (sr, s1)" by force
  from summaries_frame [OF assms(1) su] assms have "invar s1" "view s1 = view s"
    and at: "view s1 i = Some (claimed now r0)" by simp_all
  then have "settles i now now' r0 s1 (snd (generate_claimed svc c i r now' s))"
    using True su handle_settles [OF \<open>invar s1\<close> at] settles_marks(2) [OF \<open>invar s1\<close> at]
    by (auto simp: generate_claimed_def svc_store ty split: sum.splits prod.splits) (metis snd_conv)+
  with \<open>view s1 = view s\<close> show ?thesis by (simp add: settles_def)
qed

text \<open>
  The effect of \<open>Generate\<close> whatever fails on the way: no report but \<open>i\<close> changes, and
  \<open>i\<close> only if it was claimable, to one of the outcomes.
\<close>

lemma generate_effect:
  assumes "invar s" and "Generate svc c i now now' s = (e, s')"
  shows "invar s' \<and> (view s' = view s \<or>
    (\<exists>r0 r'. view s i = Some r0 \<and> claimable (now - rsv_processingLease svc) r0 \<and>
       gen_outcome now now' r0 r' \<and> view s' = (view s)(i \<mapsto> r')))"
proof -
  let ?stale = "now - rsv_processingLease svc"
  obtain gr s1 where g: "rs_GetReportByID st i s = (gr, s1)" by force
  obtain qr s2 where cl: "rs_ClaimExecution st i now ?stale s1 = (qr, s2)" by force
  note f1 = get_frame [OF assms(1) g]
  note step = guarded_update_step [OF claim_law conjunct2 [OF f1] cl]
  consider "s' = s1" | "s' = s2"
    | r x where "qr = Inr x" and "s' = snd (generate_claimed svc c i r now' s2)" and "gr = Inr r"
    using assms(2) g cl
    by (auto simp: Generate_def svc_store Let_def split: if_splits sum.splits) (metis snd_conv)+
  then show ?thesis
  proof cases
    case 1
    with f1 show ?thesis by simp
  next
    case 2
    with step(1,2) f1 show ?thesis unfolding gen_outcome_def by metis
  next
    case 3
    from step(3) [OF 3(1)] f1 obtain r0 where r0: "view s i = Some r0" "claimable ?stale r0"
      and v2: "view s2 = (view s)(i \<mapsto> claimed now r0)" by auto
    have "view s i = Some r" using get_Inr [OF assms(1)] g 3(3) by blast
    then have "rp_Type r = rp_Type r0" using r0(1) by simp
    with generate_claimed_settles [OF step(1), of i now r0 r now' c] v2 3(2)
    have "settles i now now' r0 s2 s'" by simp
    with r0 v2 show ?thesis unfolding settles_def by (metis fun_upd_upd)
  qed
qed

text \<open>A healthy store: the run of \<open>Generate\<close> on every branch.\<close>

lemma generate_absent:
  assumes "invar s" and "healthy s" and "view s i = None"
  shows "Generate svc c i now now' s = (None, s)"
  using assms by (simp add: Generate_def svc_store get_healthy)

lemma generate_not_claimable:
  assumes "invar s" and "healthy s" and "view s i = Some r0"
    and "\<not> claimable (now - rsv_processingLease svc) r0"
  shows "Generate svc c i now now' s = (None, s)"
  using assms guarded_update_healthy(2) [OF claim_law assms(1-3)]
  by (simp add: Generate_def svc_store get_healthy Let_def)

lemma generate_claims:
  assumes "invar s" and "healthy s" and "view s i = Some r0"
    and "claimable (now - rsv_processingLease svc) r0"
  shows "\<exists>s2. s2 = snd (rs_ClaimExecution st i now (now - rsv_processingLease svc) s) \<and>
    Generate svc c i now now' s = generate_claimed svc c i r0 now' s2 \<and>
    invar s2 \<and> healthy s2 \<and> view s2 = (view s)(i \<mapsto> claimed now r0)"
proof -
  from guarded_update_healthy(1) [OF claim_law assms(1-4)] obtain s2 where
    cl: "rs_ClaimExecution st i now (now - rsv_processingLease svc) s = (Inr (claimed now r0), s2)"
    and h: "healthy s2" by blast
  from guarded_update_step(1,3) [OF claim_law assms(1) cl] assms(3)
  have "invar s2" "view s2 = (view s)(i \<mapsto> claimed now r0)" by auto
  with cl h assms claimable_status [OF assms(4)] show ?thesis
    by (auto simp: Generate_def svc_store get_healthy Let_def)
qed

lemma mark_healthy:
  assumes "guarded_update view invar healthy op i processing f"
    and "invar s" and "healthy s" and "view s i = Some (claimed now r0)"
  shows "\<exists>s'. op s = (Inr (f (claimed now r0)), s') \<and> invar s' \<and> healthy s' \<and>
    view s' = (view s)(i \<mapsto> f (claimed now r0))"
proof -
  from guarded_update_healthy(1) [OF assms(1-4)] obtain s'
    where op: "op s = (Inr (f (claimed now r0)), s')" and h: "healthy s'" by auto
  from guarded_update_step(1,3) [OF assms(1,2) op] assms(4) op h show ?thesis by auto
qed

lemma generate_unsupported:
  assumes "invar s" and "healthy s" and "view s i = Some r0"
    and "claimable (now - rsv_processingLease svc) r0" and "\<not> supportedType (rp_Type r0)"
  shows "\<exists>s'. Generate svc c i now now' s = (None, s') \<and> invar s' \<and> healthy s' \<and>
    view s' = (view s)(i \<mapsto> failed FailureUnsupportedType
      (SafeFailureMessage FailureUnsupportedType '''') now' (claimed now r0))"
proof -
  from generate_claims [OF assms(1-4), of c now'] obtain s2
    where G: "Generate svc c i now now' s = generate_claimed svc c i r0 now' s2"
      and s2: "invar s2" "healthy s2" "view s2 = (view s)(i \<mapsto> claimed now r0)" by blast
  from mark_healthy [OF fail_law s2(1,2), of i now r0 FailureUnsupportedType
      "SafeFailureMessage FailureUnsupportedType ''''" now'] s2(3) G assms(5)
  show ?thesis by (auto simp: generate_claimed_def svc_store)
qed

lemma generate_success:
  assumes "invar s" and "healthy s" and "view s i = Some r0"
    and "claimable (now - rsv_processingLease svc) r0" and "supportedType (rp_Type r0)"
    and sum: "fst (rsv_summaries svc c
      (snd (rs_ClaimExecution st i now (now - rsv_processingLease svc) s))) = Inr sm"
  shows "\<exists>s'. Generate svc c i now now' s = (None, s') \<and> invar s' \<and> healthy s' \<and>
    view s' = (view s)(i \<mapsto> completed (result_text sm) now' (claimed now r0))"
proof -
  from generate_claims [OF assms(1-4), of c now'] obtain s2
    where def: "s2 = snd (rs_ClaimExecution st i now (now - rsv_processingLease svc) s)"
      and G: "Generate svc c i now now' s = generate_claimed svc c i r0 now' s2"
      and s2: "invar s2" "healthy s2" "view s2 = (view s)(i \<mapsto> claimed now r0)" by blast
  from sum obtain s3 where su: "rsv_summaries svc c s2 = (Inr sm, s3)"
    unfolding def by (metis prod.collapse)
  from summaries_frame [OF s2(1) su] summaries_healthy [OF s2(1,2), of c] su
  have s3: "invar s3" "healthy s3" "view s3 = view s2" by simp_all
  from mark_healthy [OF complete_law s3(1,2), of i now r0 "result_text sm" now'] s2(3) s3(3) G su assms(5)
  show ?thesis by (auto simp: generate_claimed_def svc_store)
qed

text \<open>A failing summary: back to \<open>pending\<close> with a retryable error, or failed on the last attempt.\<close>

lemma generate_retry:
  assumes "invar s" and "healthy s" and "view s i = Some r0"
    and "claimable (now - rsv_processingLease svc) r0" and "supportedType (rp_Type r0)"
    and sum: "fst (rsv_summaries svc c
      (snd (rs_ClaimExecution st i now (now - rsv_processingLease svc) s))) = Inl cause"
  shows "\<exists>s'. invar s' \<and> healthy s' \<and>
    (if case AttemptFromContext c of Some info \<Rightarrow> Attempt info \<ge> MaxAttempts info | None \<Rightarrow> False
     then Generate svc c i now now' s = (None, s') \<and>
       view s' = (view s)(i \<mapsto> failed FailureRetryExhausted
         (SafeFailureMessage FailureRetryExhausted '''') now' (claimed now r0))
     else Generate svc c i now now' s = (Retryable (Some cause), s') \<and>
       view s' = (view s)(i \<mapsto> retried now' (claimed now r0)))"
proof -
  from generate_claims [OF assms(1-4), of c now'] obtain s2
    where def: "s2 = snd (rs_ClaimExecution st i now (now - rsv_processingLease svc) s)"
      and G: "Generate svc c i now now' s = generate_claimed svc c i r0 now' s2"
      and s2: "invar s2" "healthy s2" "view s2 = (view s)(i \<mapsto> claimed now r0)" by blast
  from sum obtain s3 where su: "rsv_summaries svc c s2 = (Inl cause, s3)"
    unfolding def by (metis prod.collapse)
  from summaries_frame [OF s2(1) su] summaries_healthy [OF s2(1,2), of c] su
  have s3: "invar s3" "healthy s3" "view s3 = view s2" by simp_all
  have G': "Generate svc c i now now' s = handleRetryable svc c i cause now' s3"
    using G su assms(5) by (simp add: generate_claimed_def)
  have at: "view s3 i = Some (claimed now r0)" using s2(3) s3(3) by simp
  show ?thesis
    using mark_healthy [OF retry_law s3(1,2) at, of now']
      mark_healthy [OF fail_law s3(1,2) at, of FailureRetryExhausted
        "SafeFailureMessage FailureRetryExhausted ''''" now'] s2(3) s3(3) G'
    by (cases "case AttemptFromContext c of Some info \<Rightarrow> Attempt info \<ge> MaxAttempts info | None \<Rightarrow> False")
      (auto simp: handleRetryable_def svc_store)
qed

text \<open>Every error of \<open>Generate\<close> asks the queue for a retry.\<close>

lemma handleRetryable_error:
  "handleRetryable svc c i cause now' s = (Some e, s') \<Longrightarrow> IsRetryable e"
  by (auto simp: handleRetryable_def Retryable_def split: if_splits prod.splits sum.splits)

lemma generate_error_retryable:
  assumes "Generate svc c i now now' s = (Some e, s')"
  shows "IsRetryable e"
  using assms
  by (auto simp: Generate_def generate_claimed_def Let_def Retryable_def
      split: if_splits prod.splits sum.splits dest: handleRetryable_error)

text \<open>A second delivery of the job finds nothing to do.\<close>

lemma generate_terminal:
  assumes "invar s" and "healthy s" and "view s i = Some r"
    and "rp_Status r = StatusCompleted \<or> rp_Status r = StatusFailed"
  shows "Generate svc c i now now' s = (None, s)"
  using assms by (auto simp: Generate_def svc_store get_healthy)

subsubsection \<open>Creating, reading and reconciling reports\<close>

lemma create_report_Inr:
  assumes "invar s" and "CreateReport svc c req now newID env s = (Inr r, s')"
  shows "authenticated (rsv_authDisabled svc) c" and "supportedType (cr_Type req)"
    and "r = new_report newID (fst (FromContext c)) req now"
    and "view s' = (view s)(newID \<mapsto> r)" and "invar s'"
proof -
  from assms(2) obtain s1 er where au: "authenticated (rsv_authDisabled svc) c"
    and ty: "supportedType (cr_Type req)"
    and st: "rs_CreateReport st (new_report newID (fst (FromContext c)) req now) s = (Inr r, s1)"
    and en: "rsv_enqueue svc env c JobGenerate \<lparr>gj_ReportID = rp_ReportID r\<rparr> s1 = (er, s')"
    by (auto simp: CreateReport_def svc_store principal_Inr
        split: sum.splits if_splits prod.splits option.splits)
  from create_Inr [OF assms(1) st] enqueue_frame [OF create_invar [OF assms(1) st] en] au ty
  show "authenticated (rsv_authDisabled svc) c" and "supportedType (cr_Type req)"
    and "r = new_report newID (fst (FromContext c)) req now"
    and "view s' = (view s)(newID \<mapsto> r)" and "invar s'"
    by (simp_all add: new_report_def)
qed

lemma create_report_healthy:
  assumes "invar s" and "healthy s" and "view s newID = None"
    and "authenticated (rsv_authDisabled svc) c" and "supportedType (cr_Type req)"
  shows "\<exists>s1. rs_CreateReport st (new_report newID (fst (FromContext c)) req now) s =
      (Inr (new_report newID (fst (FromContext c)) req now), s1) \<and> invar s1 \<and> healthy s1 \<and>
    CreateReport svc c req now newID env s =
      (Inr (new_report newID (fst (FromContext c)) req now),
       snd (rsv_enqueue svc env c JobGenerate \<lparr>gj_ReportID = newID\<rparr> s1))"
proof -
  let ?r = "new_report newID (fst (FromContext c)) req now"
  have id: "rp_ReportID ?r = newID" by (simp add: new_report_def)
  from create_healthy [OF assms(1,2), of ?r] id assms(3) obtain s1
    where st: "rs_CreateReport st ?r s = (Inr ?r, s1)" and h: "healthy s1" by auto
  have "principal svc c = Inr (fst (FromContext c))" using assms(4) by (simp add: principal_Inr)
  with st h create_invar [OF assms(1) st] assms(5) id show ?thesis
    by (auto simp: CreateReport_def svc_store supportedType_def TypeTodoSummary_def
        split: prod.splits option.splits)
qed

lemma create_report_Inl:
  assumes "invar s" and "CreateReport svc c req now newID env s = (Inl e, s')"
  shows "invar s'"
    and "view s' = view s \<or>
      (view s newID = None \<and> view s' = (view s)(newID \<mapsto> new_report newID (fst (FromContext c)) req now))"
    and "errors_Is e ErrPermissionDenied \<or> errors_Is e ErrValidation \<or> errors_Is e ErrInternal"
    and "\<not> healthy s \<or> view s newID \<noteq> None \<or> \<not> authenticated (rsv_authDisabled svc) c \<or>
      \<not> supportedType (cr_Type req)"
proof -
  let ?r = "new_report newID (fst (FromContext c)) req now"
  have "(s' = s \<and> (errors_Is e ErrPermissionDenied \<or> errors_Is e ErrValidation)) \<or>
    ((\<exists>e'. rs_CreateReport st ?r s = (Inl e', s')) \<and> errors_Is e ErrInternal)"
    using assms(2) principal_Inl [of svc c]
    by (cases "authenticated (rsv_authDisabled svc) c")
      (auto simp: CreateReport_def svc_store principal_Inr [THEN iffD2]
        split: if_splits prod.splits sum.splits option.splits)
  then show "invar s'" and "view s' = view s \<or>
      (view s newID = None \<and> view s' = (view s)(newID \<mapsto> ?r))"
    and "errors_Is e ErrPermissionDenied \<or> errors_Is e ErrValidation \<or> errors_Is e ErrInternal"
    using create_Inl [OF assms(1), of ?r _ s'] create_invar [OF assms(1), of ?r _ s'] assms(1)
    by (auto simp: new_report_def)
  show "\<not> healthy s \<or> view s newID \<noteq> None \<or> \<not> authenticated (rsv_authDisabled svc) c \<or>
      \<not> supportedType (cr_Type req)"
    using create_report_healthy [OF assms(1), of newID c req now env] assms(2) by auto
qed

lemma get_report_Inr:
  assumes "invar s" and "GetReport svc c i s = (Inr r, s')"
  shows "authenticated (rsv_authDisabled svc) c"
    and "rp_OwnerUserID r = UserID (fst (FromContext c))"
    and "uuid_Parse i = Inr (rp_ReportID r)" and "view s (rp_ReportID r) = Some r"
proof -
  from assms(2) obtain rid where au: "authenticated (rsv_authDisabled svc) c"
    and p: "uuid_Parse i = Inr rid" and g: "rs_GetReportByID st rid s = (Inr r, s')"
    and ow: "assertOwner (fst (FromContext c)) r = None"
    by (auto simp: GetReport_def svc_store principal_Inr
        split: sum.splits prod.splits if_splits option.splits)
  from get_Inr [OF assms(1) g] have v: "view s rid = Some r" .
  from view_key [OF assms(1) v] v p au ow
  show "authenticated (rsv_authDisabled svc) c"
    and "rp_OwnerUserID r = UserID (fst (FromContext c))"
    and "uuid_Parse i = Inr (rp_ReportID r)" and "view s (rp_ReportID r) = Some r"
    by (auto simp: assertOwner_def split: if_splits)
qed

lemma get_report_healthy:
  assumes "invar s" and "healthy s" and "authenticated (rsv_authDisabled svc) c"
  shows "GetReport svc c (uuid_String i) s =
    ((case view s i of
        None \<Rightarrow> Inl (Errorf_w (Sentinel ErrNotFound) ''report not found'')
      | Some r \<Rightarrow> if rp_OwnerUserID r = UserID (fst (FromContext c)) then Inr r
          else Inl (Errorf_w (Sentinel ErrPermissionDenied) ''not your report'')), s)"
  using assms principal_Inr [of svc c "fst (FromContext c)"]
  by (auto simp: GetReport_def svc_store get_healthy uuid_Parse_String assertOwner_def
      split: option.splits)

lemma list_reports_Inr:
  assumes "invar s" and "ListReports svc c s = (Inr rs, s')"
  shows "authenticated (rsv_authDisabled svc) c"
    and "set rs = {r \<in> ran (view s). rp_OwnerUserID r = UserID (fst (FromContext c))}"
    and "distinct rs" and "view s' = view s" and "invar s'"
proof -
  from assms(2) have au: "authenticated (rsv_authDisabled svc) c"
    and l: "rs_ListReportsByOwner st (UserID (fst (FromContext c))) s = (Inr rs, s')"
    by (auto simp: ListReports_def svc_store principal_Inr split: sum.splits prod.splits)
  from owner_Inr [OF assms(1) l] owner_frame [OF assms(1) l] au
  show "authenticated (rsv_authDisabled svc) c"
    and "set rs = {r \<in> ran (view s). rp_OwnerUserID r = UserID (fst (FromContext c))}"
    and "distinct rs" and "view s' = view s" and "invar s'" by auto
qed

lemma reconcile_loop_frame:
  "invar s \<Longrightarrow> view (reconcile_loop svc c env k rs s) = view s \<and> invar (reconcile_loop svc c env k rs s)"
proof (induction rs arbitrary: k s)
  case (Cons r rs)
  from enqueue_frame [OF Cons.prems surjective_pairing, of "env k" c JobGenerate "\<lparr>gj_ReportID = rp_ReportID r\<rparr>"]
    Cons.IH [of "snd (rsv_enqueue svc (env k) c JobGenerate \<lparr>gj_ReportID = rp_ReportID r\<rparr> s)" "Suc k"]
  show ?case by simp
qed simp

lemma reconcile_frame:
  assumes "invar s" and "ReconcilePending svc c now env s = (e, s')"
  shows "view s' = view s \<and> invar s'"
proof -
  obtain q s1 where q: "rs_ListPendingOlderThan st (now - rsv_reconcileAfter svc) s = (q, s1)" by force
  from pending_frame [OF assms(1) q] reconcile_loop_frame [of s1 c env 0] q assms(2) show ?thesis
    by (auto simp: ReconcilePending_def Let_def svc_store split: sum.splits)
qed

end

text \<open>
  The service over the fakes, as the package's tests build it: a fixed summary and a fixed
  answer of the enqueuer (whose counters are not part of this state).
\<close>

definition fake_report_service ::
  "FakeSummary \<Rightarrow> FakeEnqueuer \<Rightarrow> bool \<Rightarrow> duration \<Rightarrow> duration \<Rightarrow> (unit, fake_reports) ReportService" where
  "fake_report_service su en dis lease aft =
     NewReportService FakeReportStore (\<lambda>c s. (fake_Summary su, s))
       (\<lambda>_ c jt pl s. (fst (fake_Enqueue jt pl en), s)) dis lease aft"

interpretation fake_reports_svc: report_service FakeReportStore map_of fake_reports_ok "\<lambda>_. True"
    "fake_report_service su en dis lease aft" for su en dis lease aft
  by unfold_locales (simp_all add: fake_report_service_def)

end
