(* ===== verification/Jobs.thy ===== *)
theory Jobs
  imports Database
begin

text \<open>
  The Postgres-backed job queue, \<open>platform/jobs/jobs.go\<close>: registration, \<open>Enqueue\<close> and
  \<open>processOne\<close>, the claim of the earliest due job in a transaction, the run of its
  handler and the final update. \<open>SELECT ... FOR UPDATE SKIP LOCKED\<close> makes the claim
  transaction atomic with respect to other workers, so the model runs it in one go;
  \<open>Claims\<close> takes it apart into its statements and shows that this is right. The two
  readings of the server's \<open>NOW()\<close> are arguments: \<open>t\<close> of the transaction, \<open>t'\<close> of the
  final update. Among jobs with the same \<open>run_at\<close> the model takes the first of the
  table. The two-minute timeout of a handler makes its later statements fail, which is a
  case of the outcome script.
\<close>

subsection \<open>The queue\<close>

type_synonym 'e JobHandler = "'e \<Rightarrow> ctx \<Rightarrow> json \<Rightarrow> db \<Rightarrow> goerr option \<times> db"

record 'e Queue =
  q_handlers :: "string \<Rightarrow> 'e JobHandler option"
  q_maxAttempts :: int
  q_pollEvery :: duration

definition NewQueue :: "int \<Rightarrow> duration \<Rightarrow> 'e Queue" where
  "NewQueue maxAttempts pollEvery =
     \<lparr>q_handlers = (\<lambda>_. None),
      q_maxAttempts = (if maxAttempts \<le> 0 then 5 else maxAttempts),
      q_pollEvery = (if pollEvery \<le> 0 then 2 * Second else pollEvery)\<rparr>"

definition Register :: "'e Queue \<Rightarrow> string \<Rightarrow> 'e JobHandler \<Rightarrow> 'e Queue" where
  "Register q jobType h = q\<lparr>q_handlers := (q_handlers q)(jobType \<mapsto> h)\<rparr>"

text \<open>The columns \<open>attempts\<close> and \<open>max_attempts\<close> are \<open>INT\<close>: 32 bits, signed.\<close>

definition int4_range :: "int \<Rightarrow> bool" where
  "int4_range i \<longleftrightarrow> - (2 ^ 31) \<le> i \<and> i < 2 ^ 31"

definition int4_error :: goerr where
  "int4_error = OtherErr ''pq: value is out of range for type integer''"

definition insert_job :: "Job \<Rightarrow> db \<Rightarrow> (goerr + unit) \<times> db" where
  "insert_job j d =
     (if \<not> int4_range (job_max_attempts j) then (Inl int4_error, d)
      else if job_id j \<in> job_id ` set (platform_jobs d) then (Inl duplicate_key, d)
      else (Inr (), d\<lparr>platform_jobs := insert_row j (platform_jobs d)\<rparr>))"

text \<open>
  \<open>Enqueue\<close>: \<open>body\<close> is the result of \<open>json.Marshal\<close> on the payload, \<open>newID\<close> the value
  of \<open>uuid.New\<close>, \<open>now\<close> the client's clock and \<open>t\<close> the server's.
\<close>

definition Enqueue ::
  "'e Queue \<Rightarrow> string \<Rightarrow> goerr + json \<Rightarrow> time \<Rightarrow> uuid \<Rightarrow> time \<Rightarrow> time \<Rightarrow> db \<Rightarrow>
   (uuid \<times> goerr option) \<times> db" where
  "Enqueue q jobType body runAt newID now t d =
     (case body of
        Inl err \<Rightarrow> ((uuid_Nil, Some err), d)
      | Inr b \<Rightarrow>
          let runAt' = (if runAt = 0 then now else runAt);
              row = \<lparr>job_id = newID, job_type = jobType, job_payload = b, job_run_at = runAt',
                     job_attempts = 0, job_max_attempts = q_maxAttempts q,
                     job_locked_until = None, job_completed_at = None,
                     job_last_error = None, job_created_at = t\<rparr>
          in case run_stmt (insert_job row) d of
               (Inl err, d') \<Rightarrow> ((newID, Some err), d')
             | (Inr _, d') \<Rightarrow> ((newID, None), d'))"

definition Ready :: "db \<Rightarrow> goerr option \<times> db" where
  "Ready d = (case run_stmt (\<lambda>d. (Inr (), d)) d of
     (Inl err, d') \<Rightarrow> (Some err, d') | (Inr _, d') \<Rightarrow> (None, d'))"

subsection \<open>Processing one job\<close>

definition job_due :: "time \<Rightarrow> Job \<Rightarrow> bool" where
  "job_due t j \<longleftrightarrow>
     job_completed_at j = None \<and>
     (case job_locked_until j of None \<Rightarrow> True | Some l \<Rightarrow> l < t) \<and>
     job_run_at j \<le> t \<and>
     job_attempts j < job_max_attempts j"

definition select_job :: "time \<Rightarrow> db \<Rightarrow> (goerr + Job) \<times> db" where
  "select_job t d =
     (case order_by_asc job_run_at (filter (job_due t) (platform_jobs d)) of
        [] \<Rightarrow> (Inl (Sentinel SqlErrNoRows), d)
      | j # _ \<Rightarrow> (Inr j, d))"

definition lock_job :: "time \<Rightarrow> Job \<Rightarrow> Job" where
  "lock_job t j = j\<lparr>job_locked_until := Some (t + 5 * Minute), job_attempts := job_attempts j + 1\<rparr>"

definition unknown_job :: "time \<Rightarrow> string \<Rightarrow> Job \<Rightarrow> Job" where
  "unknown_job t e j = j\<lparr>job_last_error := Some e, job_locked_until := None,
     job_completed_at := Some t\<rparr>"

definition retry_job :: "time \<Rightarrow> string \<Rightarrow> Job \<Rightarrow> Job" where
  "retry_job t e j = j\<lparr>job_last_error := Some e, job_locked_until := None,
     job_run_at := t + Minute * job_attempts j,
     job_completed_at := (if job_attempts j \<ge> job_max_attempts j then Some t else None)\<rparr>"

definition finish_job :: "time \<Rightarrow> Job \<Rightarrow> Job" where
  "finish_job t j = j\<lparr>job_completed_at := Some t, job_locked_until := None, job_last_error := None\<rparr>"

definition update_job :: "uuid \<Rightarrow> (Job \<Rightarrow> Job) \<Rightarrow> db \<Rightarrow> (goerr + unit) \<times> db" where
  "update_job i f d = (Inr (), d\<lparr>platform_jobs := update_rows job_id i f (platform_jobs d)\<rparr>)"

text \<open>
  The claim transaction: \<open>BEGIN\<close>, the \<open>SELECT\<close>, the \<open>UPDATE\<close> on the transaction's own
  copy of the table, \<open>COMMIT\<close>. An error before the commit rolls back.
\<close>

definition claim_tx :: "time \<Rightarrow> db \<Rightarrow> (goerr + Job) \<times> db" where
  "claim_tx t d =
     (case run_stmt (\<lambda>d. (Inr (), d)) d of
        (Inl err, d1) \<Rightarrow> (Inl err, d1)
      | (Inr _, d1) \<Rightarrow>
          (case run_stmt (select_job t) d1 of
             (Inl err, d2) \<Rightarrow> (Inl err, d2)
           | (Inr j, d2) \<Rightarrow>
               (case run_stmt (update_job (job_id j) (lock_job t)) d2 of
                  (Inl err, d3) \<Rightarrow> (Inl err, d2\<lparr>net := net d3\<rparr>)
                | (Inr _, d3) \<Rightarrow>
                    (case run_stmt (\<lambda>d. (Inr (), d\<lparr>platform_jobs := platform_jobs d3\<rparr>))
                            (d2\<lparr>net := net d3\<rparr>) of
                       (Inl err, d4) \<Rightarrow> (Inl err, d4)
                     | (Inr _, d4) \<Rightarrow> (Inr j, d4)))))"

record job_result =
  jr_err :: "goerr option"
  jr_counted :: "(string \<times> string) option"

definition run_job ::
  "'e Queue \<Rightarrow> 'e \<Rightarrow> ctx \<Rightarrow> Job \<Rightarrow> time \<Rightarrow> db \<Rightarrow> job_result \<times> db" where
  "run_job q env c j t' d =
     (case q_handlers q (job_type j) of
        None \<Rightarrow>
          (\<lparr>jr_err = None, jr_counted = Some (job_type j, ''unknown'')\<rparr>,
           snd (run_stmt (update_job (job_id j)
                  (unknown_job t' (''no handler for type '' @ job_type j))) d))
      | Some h \<Rightarrow>
          (case h env (ContextWithAttempt c \<lparr>Attempt = job_attempts j + 1,
                                             MaxAttempts = job_max_attempts j\<rparr>)
                  (job_payload j) d of
             (Some err, d1) \<Rightarrow>
               (\<lparr>jr_err = Some err, jr_counted = Some (job_type j, ''error'')\<rparr>,
                snd (run_stmt (update_job (job_id j) (retry_job t' (Error err))) d1))
           | (None, d1) \<Rightarrow>
               (case run_stmt (update_job (job_id j) (finish_job t')) d1 of
                  (Inl err, d2) \<Rightarrow> (\<lparr>jr_err = Some err, jr_counted = Some (job_type j, ''ok'')\<rparr>, d2)
                | (Inr _, d2) \<Rightarrow> (\<lparr>jr_err = None, jr_counted = Some (job_type j, ''ok'')\<rparr>, d2))))"

text \<open>\<open>jr_counted\<close> are the labels of the counter \<open>metrics.JobProcessed\<close> increments.\<close>

definition processOne ::
  "'e Queue \<Rightarrow> 'e \<Rightarrow> ctx \<Rightarrow> time \<Rightarrow> time \<Rightarrow> db \<Rightarrow> job_result \<times> db" where
  "processOne q env c t t' d =
     (case claim_tx t d of
        (Inl err, d1) \<Rightarrow> (\<lparr>jr_err = Some err, jr_counted = None\<rparr>, d1)
      | (Inr j, d1) \<Rightarrow> run_job q env c j t' d1)"

text \<open>
  \<open>Run\<close>: one \<open>processOne\<close> per tick until the context is cancelled. A schedule lists the
  ticks before the cancellation, with what each draws from the environment; the result
  lists the logged errors.
\<close>

fun Run :: "'e Queue \<Rightarrow> ctx \<Rightarrow> ('e \<times> time \<times> time) list \<Rightarrow> db \<Rightarrow> goerr list \<times> db" where
  "Run q c [] d = ([], d)"
| "Run q c ((env, t, t') # ticks) d =
     (case processOne q env c t t' d of (r, d1) \<Rightarrow>
        (case Run q c ticks d1 of (logged, d2) \<Rightarrow>
           (case jr_err r of
              Some e \<Rightarrow> if errors_Is e SqlErrNoRows then (logged, d2) else (e # logged, d2)
            | None \<Rightarrow> (logged, d2))))"

subsection \<open>The claim\<close>

definition next_job :: "time \<Rightarrow> Job list \<Rightarrow> Job option" where
  "next_job t js = (case order_by_asc job_run_at (filter (job_due t) js) of [] \<Rightarrow> None | j # _ \<Rightarrow> Some j)"

lemma select_job_alt:
  "select_job t d = ((case next_job t (platform_jobs d) of
     None \<Rightarrow> Inl (Sentinel SqlErrNoRows) | Some j \<Rightarrow> Inr j), d)"
  by (simp add: select_job_def next_job_def split: list.splits)

lemma next_job_Some:
  assumes "next_job t js = Some j"
  shows "j \<in> set js" and "job_due t j" and "j' \<in> set js \<Longrightarrow> job_due t j' \<Longrightarrow> job_run_at j \<le> job_run_at j'"
proof -
  from assms obtain rest where l: "order_by_asc job_run_at (filter (job_due t) js) = j # rest"
    by (auto simp: next_job_def split: list.splits)
  have mem: "set (j # rest) = {x \<in> set js. job_due t x}"
    using l by (metis set_filter set_order_by(1))
  then show "j \<in> set js" "job_due t j" by auto
  have "sorted (map job_run_at (j # rest))" using sorted_order_by_asc l by metis
  then show "j' \<in> set js \<Longrightarrow> job_due t j' \<Longrightarrow> job_run_at j \<le> job_run_at j'"
    using mem by auto
qed

lemma next_job_None: "next_job t js = None \<longleftrightarrow> (\<forall>j \<in> set js. \<not> job_due t j)"
proof -
  have "next_job t js = None \<longleftrightarrow> order_by_asc job_run_at (filter (job_due t) js) = []"
    by (simp add: next_job_def split: list.splits)
  also have "\<dots> \<longleftrightarrow> filter (job_due t) js = []"
    by (metis length_0_conv length_order_by(1))
  finally show ?thesis by (simp add: filter_empty_conv)
qed

lemma job_id_steps [simp]:
  "job_id (lock_job t j) = job_id j" "job_id (unknown_job t e j) = job_id j"
  "job_id (retry_job t e j) = job_id j" "job_id (finish_job t j) = job_id j"
  by (simp_all add: lock_job_def unknown_job_def retry_job_def finish_job_def)

text \<open>The job table after the transition \<open>f\<close> of job \<open>j\<close>.\<close>

abbreviation move_job :: "Job \<Rightarrow> (Job \<Rightarrow> Job) \<Rightarrow> Job list \<Rightarrow> Job list" where
  "move_job j f js \<equiv> update_rows job_id (job_id j) f js"

lemma update_rows_twice:
  "(\<And>r. key (f r) = key r) \<Longrightarrow>
   update_rows key k g (update_rows key k f rows) = update_rows key k (\<lambda>r. g (f r)) rows"
  by (simp add: update_rows_def)

lemma claim_tx_cases:
  assumes "claim_tx t d = (r, d')"
  obtains (idle) e xs where "r = Inl e" and "d' = d\<lparr>net := xs\<rparr>"
  | (taken) j xs where "next_job t (platform_jobs d) = Some j"
      and "d' = d\<lparr>net := xs, platform_jobs := move_job j (lock_job t) (platform_jobs d)\<rparr>"
      and "r = Inr j \<or> (\<exists>m. r = Inl (OtherErr m))"
proof -
  obtain b d1 where b: "run_stmt (\<lambda>d. (Inr (), d)) d = (b, d1)" by force
  from run_stmt_read [OF b] obtain x1 where d1: "d1 = d\<lparr>net := x1\<rparr>" by blast
  obtain q d2 where q: "run_stmt (select_job t) d1 = (q, d2)" by force
  from run_stmt_read [OF q [unfolded select_job_alt]] obtain x2 where d2: "d2 = d\<lparr>net := x2\<rparr>"
    and qv: "q = Inr j \<Longrightarrow> next_job t (platform_jobs d) = Some j" for j
    unfolding d1 by (auto split: option.splits)
  consider (err) e where "r = Inl e" and "d' = d1 \<or> d' = d2"
    | (sel) j where "b = Inr ()" and "q = Inr j"
    using assms b q by (auto simp: claim_tx_def split: sum.splits)
  then show thesis
  proof cases
    case (err e)
    then show thesis using idle d1 d2 by blast
  next
    case (sel j)
    obtain u d3 where u: "run_stmt (update_job (job_id j) (lock_job t)) d2 = (u, d3)" by force
    let ?js = "move_job j (lock_job t) (platform_jobs d)"
    have d3: "platform_jobs d3 = ?js" if "u = Inr ()"
      using u that d2 by (cases rule: run_stmt_cases) (auto simp: update_job_def)
    show thesis
    proof (cases u)
      case (Inl e)
      then show thesis using idle [of e "net d3"] assms b q sel u d2 by (simp add: claim_tx_def)
    next
      case (Inr un)
      obtain w d4 where w: "run_stmt (\<lambda>d. (Inr (), d\<lparr>platform_jobs := ?js\<rparr>)) (d\<lparr>net := net d3\<rparr>) = (w, d4)"
        by force
      have res: "d' = d4" "r = (case w of Inl e \<Rightarrow> Inl e | Inr _ \<Rightarrow> Inr j)"
        using assms b q sel u w Inr d2 d3 by (auto simp: claim_tx_def split: sum.splits)
      from w show thesis
        by (cases rule: run_stmt_cases) (use res idle taken qv [OF sel(2)] in auto)
    qed
  qed
qed

lemma claim_tx_served:
  assumes "net d = []"
  shows "claim_tx t d = (case next_job t (platform_jobs d) of
     None \<Rightarrow> (Inl (Sentinel SqlErrNoRows), d)
   | Some j \<Rightarrow> (Inr j, d\<lparr>platform_jobs := move_job j (lock_job t) (platform_jobs d)\<rparr>))"
proof -
  have [simp]: "d\<lparr>net := []\<rparr> = d" using assms by (cases d) simp
  show ?thesis using assms
    by (simp add: claim_tx_def select_job_alt update_job_def split: option.splits)
qed

subsection \<open>The queue invariant and the attempt budget\<close>

definition job_inv :: "Job \<Rightarrow> bool" where
  "job_inv j \<longleftrightarrow> 0 \<le> job_attempts j \<and> job_attempts j \<le> job_max_attempts j \<and>
     int4_range (job_max_attempts j) \<and>
     (job_completed_at j \<noteq> None \<longrightarrow> job_locked_until j = None)"

definition jobs_ok :: "db \<Rightarrow> bool" where
  "jobs_ok d \<longleftrightarrow> keyed job_id (platform_jobs d) \<and> list_all job_inv (platform_jobs d)"

definition job_budget :: "Job list \<Rightarrow> nat" where
  "job_budget js = sum_list (map (\<lambda>j. nat (job_max_attempts j - job_attempts j)) js)"

lemma jobs_ok_net [simp]: "jobs_ok (d\<lparr>net := xs\<rparr>) = jobs_ok d"
  by (simp add: jobs_ok_def)

lemma Enqueue_jobs_ok:
  assumes "jobs_ok d" and "q_maxAttempts q > 0"
    and "Enqueue q jobType body runAt newID now t d = (r, d')"
  shows "jobs_ok d'"
proof (cases body)
  case (Inr b)
  let ?row = "\<lparr>job_id = newID, job_type = jobType, job_payload = b,
      job_run_at = (if runAt = 0 then now else runAt), job_attempts = 0,
      job_max_attempts = q_maxAttempts q, job_locked_until = None, job_completed_at = None,
      job_last_error = None, job_created_at = t\<rparr>"
  have ok: "jobs_ok (snd (insert_job ?row (d\<lparr>net := xs\<rparr>)))" for xs
    using assms(1,2) by (simp add: insert_job_def jobs_ok_def job_inv_def insert_row_def keyed_def)
  obtain w where w: "run_stmt (insert_job ?row) d = (w, d')"
    using assms(3) Inr by (auto simp: Enqueue_def Let_def split: prod.splits sum.splits)
  show ?thesis using run_stmt_preserves [OF w, of jobs_ok] assms(1) ok by simp
qed (use assms in \<open>auto simp: Enqueue_def\<close>)

lemma Enqueue_served:
  assumes "net d = []" and "newID \<notin> job_id ` set (platform_jobs d)" and "int4_range (q_maxAttempts q)"
  shows "Enqueue q jobType (Inr b) runAt newID now t d =
    ((newID, None), d\<lparr>platform_jobs := platform_jobs d @
       [\<lparr>job_id = newID, job_type = jobType, job_payload = b,
         job_run_at = (if runAt = 0 then now else runAt), job_attempts = 0,
         job_max_attempts = q_maxAttempts q, job_locked_until = None, job_completed_at = None,
         job_last_error = None, job_created_at = t\<rparr>]\<rparr>)"
  using assms by (simp add: Enqueue_def insert_job_def insert_row_def Let_def)

lemma jobs_ok_move:
  assumes "jobs_ok d" and "\<And>j. job_id (f j) = job_id j"
    and "\<And>j. j \<in> set (platform_jobs d) \<Longrightarrow> job_id j = i \<Longrightarrow> job_inv (f j)"
  shows "jobs_ok (d\<lparr>platform_jobs := update_rows job_id i f (platform_jobs d)\<rparr>)"
  using assms by (auto simp: jobs_ok_def list_all_iff set_update_rows)

lemma keyed_row: "keyed key rows \<Longrightarrow> r \<in> set rows \<Longrightarrow> r' \<in> set rows \<Longrightarrow> key r = key r' \<Longrightarrow> r = r'"
  by (metis option.inject select_row_mem)

lemma job_inv_steps:
  assumes "job_inv j" and "job_due t j"
  shows "job_inv (lock_job t j)" and "job_inv (unknown_job t' e (lock_job t j))"
    and "job_inv (retry_job t' e (lock_job t j))" and "job_inv (finish_job t' (lock_job t j))"
  using assms
  by (auto simp: job_inv_def job_due_def lock_job_def unknown_job_def retry_job_def finish_job_def)

text \<open>One handled job costs exactly one attempt of the budget.\<close>

lemma budget_move:
  assumes "keyed job_id js" and "j \<in> set js" and "job_attempts j < job_max_attempts j"
    and "job_attempts (f j) = job_attempts j + 1" and "job_max_attempts (f j) = job_max_attempts j"
  shows "job_budget js = Suc (job_budget (move_job j f js))"
  using assms
proof (induction js)
  case (Cons a js)
  show ?case
  proof (cases "job_id a = job_id j")
    case True
    then have "a = j" using Cons.prems(1,2) by (auto simp: keyed_def rev_image_eqI)
    moreover have "move_job j f js = js"
      using Cons.prems(1) True
      by (auto simp: update_rows_def keyed_def rev_image_eqI intro!: map_idI)
    ultimately show ?thesis using Cons.prems(3-5)
      by (simp add: job_budget_def update_rows_def)
  next
    case False
    with Cons show ?thesis by (auto simp: job_budget_def update_rows_def keyed_def)
  qed
qed simp

lemma attempts_steps [simp]:
  "job_attempts (lock_job t j) = job_attempts j + 1"
  "job_attempts (unknown_job t e j) = job_attempts j"
  "job_attempts (retry_job t e j) = job_attempts j"
  "job_attempts (finish_job t j) = job_attempts j"
  "job_max_attempts (lock_job t j) = job_max_attempts j"
  "job_max_attempts (unknown_job t e j) = job_max_attempts j"
  "job_max_attempts (retry_job t e j) = job_max_attempts j"
  "job_max_attempts (finish_job t j) = job_max_attempts j"
  by (simp_all add: lock_job_def unknown_job_def retry_job_def finish_job_def)

text \<open>A claimed job is hidden from every worker until its lock expires.\<close>

lemma locked_not_due: "t'' \<le> t + 5 * Minute \<Longrightarrow> \<not> job_due t'' (lock_job t j)"
  by (simp add: job_due_def lock_job_def)

lemma finished_not_due:
  "\<not> job_due t'' (unknown_job t e j)" "\<not> job_due t'' (finish_job t j)"
  "job_attempts j \<ge> job_max_attempts j \<Longrightarrow> \<not> job_due t'' (retry_job t e j)"
  by (simp_all add: job_due_def unknown_job_def finish_job_def retry_job_def)

lemma retry_due_iff:
  assumes "job_attempts j < job_max_attempts j"
  shows "job_due t'' (retry_job t e j) \<longleftrightarrow> t + Minute * job_attempts j \<le> t''"
  using assms by (simp add: job_due_def retry_job_def)

subsection \<open>The queue over handlers that leave the job table alone\<close>

definition open_jobs :: "Job list \<Rightarrow> nat" where
  "open_jobs js = length (filter (\<lambda>j. job_completed_at j = None) js)"

definition all_due :: "time \<Rightarrow> db \<Rightarrow> bool" where
  "all_due T d \<longleftrightarrow> (\<forall>j \<in> set (platform_jobs d). job_completed_at j = None \<longrightarrow> job_due T j)"

text \<open>No handler reports an error while every statement is served.\<close>

definition never_fails :: "'e Queue \<Rightarrow> bool" where
  "never_fails q \<longleftrightarrow> (\<forall>ty h env c p d. q_handlers q ty = Some h \<longrightarrow> net d = [] \<longrightarrow> fst (h env c p d) = None)"

text \<open>The ends of a run: what the final update makes of the locked job, if it is executed.\<close>

definition job_ends :: "'e Queue \<Rightarrow> time \<Rightarrow> Job \<Rightarrow> Job \<Rightarrow> bool" where
  "job_ends q t' j j' \<longleftrightarrow> j' = j \<or> j' = finish_job t' j \<or> (\<exists>e. j' = retry_job t' e j) \<or>
     (q_handlers q (job_type j) = None \<and> (\<exists>e. j' = unknown_job t' e j))"

text \<open>How many times a run of the worker calls a handler (or meets an unknown type).\<close>

fun deliveries :: "'e Queue \<Rightarrow> ctx \<Rightarrow> ('e \<times> time \<times> time) list \<Rightarrow> db \<Rightarrow> nat" where
  "deliveries q c [] d = 0"
| "deliveries q c ((env, t, t') # ticks) d =
     (case processOne q env c t t' d of (r, d1) \<Rightarrow>
        (if jr_counted r = None then 0 else 1) + deliveries q c ticks d1)"

text \<open>
  What the queue relies on: a handler does its work elsewhere in the database. Handlers
  of the program are interpreted in \<open>App\<close>.
\<close>

locale job_queue =
  fixes q :: "'e Queue"
  assumes handler_frame: "q_handlers q ty = Some h \<Longrightarrow>
      platform_jobs (snd (h env c payload d)) = platform_jobs d"
    and handler_served: "q_handlers q ty = Some h \<Longrightarrow> net d = [] \<Longrightarrow>
      net (snd (h env c payload d)) = []"
begin

lemma update_job_net:
  "run_stmt (update_job i f) d = (r, d') \<Longrightarrow>
   \<exists>xs. d' = d\<lparr>net := xs\<rparr> \<or>
     d' = d\<lparr>net := xs, platform_jobs := update_rows job_id i f (platform_jobs d)\<rparr>"
  by (erule run_stmt_cases) (auto simp: update_job_def intro: exI [where P = "\<lambda>xs. _ xs \<or> _ xs"])

lemma run_job_jobs:
  "\<exists>f. (\<forall>x. job_id (f x) = job_id x) \<and> (\<forall>x. job_type x = job_type j \<longrightarrow> job_ends q t' x (f x)) \<and>
     platform_jobs (snd (run_job q env c j t' d)) = move_job j f (platform_jobs d)"
proof -
  have keep: "move_job j (\<lambda>x. x) js = js" for js by (simp add: update_rows_def)
  have upd: "platform_jobs d2 = platform_jobs d1 \<or> platform_jobs d2 = move_job j f (platform_jobs d1)"
    if "run_stmt (update_job (job_id j) f) d1 = (r, d2)" for f d1 r d2
    using update_job_net [OF that] by auto
  show ?thesis
  proof (cases "q_handlers q (job_type j)")
    case None
    let ?f = "unknown_job t' (''no handler for type '' @ job_type j)"
    from upd [OF surjective_pairing, of ?f d] None
    have "platform_jobs (snd (run_job q env c j t' d)) = move_job j (\<lambda>x. x) (platform_jobs d) \<or>
      platform_jobs (snd (run_job q env c j t' d)) = move_job j ?f (platform_jobs d)"
      by (simp add: run_job_def keep)
    with None show ?thesis
      by (elim disjE) (rule exI [of _ "\<lambda>x. x"] exI [of _ ?f], auto simp: job_ends_def)+
  next
    case (Some h)
    let ?c = "ContextWithAttempt c \<lparr>Attempt = job_attempts j + 1, MaxAttempts = job_max_attempts j\<rparr>"
    obtain hr d1 where h: "h env ?c (job_payload j) d = (hr, d1)" by force
    with handler_frame [OF Some, of env ?c "job_payload j" d]
    have d1: "platform_jobs d1 = platform_jobs d" by simp
    let ?f = "case hr of None \<Rightarrow> finish_job t' | Some e \<Rightarrow> retry_job t' (Error e)"
    have "snd (run_job q env c j t' d) = snd (run_stmt (update_job (job_id j) ?f) d1)"
      using Some h by (simp add: run_job_def split: option.splits sum.splits prod.splits)
    with upd [OF surjective_pairing, of ?f d1] d1
    have "platform_jobs (snd (run_job q env c j t' d)) = move_job j (\<lambda>x. x) (platform_jobs d) \<or>
      platform_jobs (snd (run_job q env c j t' d)) = move_job j ?f (platform_jobs d)"
      by (simp add: keep)
    then show ?thesis
      by (elim disjE) (rule exI [of _ "\<lambda>x. x"] exI [of _ ?f],
          auto simp: job_ends_def split: option.splits)+
  qed
qed

text \<open>
  \<open>processOne\<close> under every outcome script: the table is as before, or exactly the
  earliest due job was locked, counted and then ended.
\<close>

lemma processOne_jobs:
  assumes "processOne q env c t t' d = (r, d')"
  obtains (idle) "platform_jobs d' = platform_jobs d" and "jr_counted r = None"
  | (worked) j f where "next_job t (platform_jobs d) = Some j" and "\<And>x. job_id (f x) = job_id x"
      and "\<And>x. job_type x = job_type j \<Longrightarrow> job_ends q t' x (f x)"
      and "platform_jobs d' = move_job j (\<lambda>x. f (lock_job t x)) (platform_jobs d)"
proof -
  obtain cr d1 where cl: "claim_tx t d = (cr, d1)" by force
  from cl show thesis
  proof (cases rule: claim_tx_cases)
    case (idle e xs)
    with cl assms that(1) show thesis by (auto simp: processOne_def)
  next
    case (taken j xs)
    from taken(3) show thesis
    proof
      assume "cr = Inr j"
      with cl assms have r: "run_job q env c j t' d1 = (r, d')" by (simp add: processOne_def)
      from run_job_jobs [of j t' env c d1] obtain f where f: "\<forall>x. job_id (f x) = job_id x"
        "\<forall>x. job_type x = job_type j \<longrightarrow> job_ends q t' x (f x)"
        "platform_jobs d' = move_job j f (platform_jobs d1)" unfolding r by auto
      show thesis
        by (rule worked [of j f]) (use f taken in \<open>simp_all add: update_rows_twice\<close>)
    next
      assume "\<exists>m. cr = Inl (OtherErr m)"
      with cl assms have "d' = d1" by (auto simp: processOne_def)
      with taken show thesis by (intro worked [of j "\<lambda>x. x"]) (simp_all add: job_ends_def)
    qed
  qed
qed

lemma job_ends_inv:
  assumes "job_inv j" and "job_due t j" and "job_ends q t' (lock_job t j) j'"
  shows "job_inv j'" and "job_attempts j' = job_attempts j + 1"
    and "job_max_attempts j' = job_max_attempts j"
  using assms job_inv_steps [OF assms(1,2)] by (auto simp: job_ends_def)

lemma processOne_jobs_ok:
  assumes "jobs_ok d" and "processOne q env c t t' d = (r, d')"
  shows "jobs_ok d'"
  using assms(2)
proof (cases rule: processOne_jobs)
  case idle
  with assms(1) show ?thesis by (simp add: jobs_ok_def)
next
  case (worked j f)
  have key: "keyed job_id (platform_jobs d)" using assms(1) by (simp add: jobs_ok_def)
  note nj = next_job_Some [OF worked(1)]
  have "job_inv (f (lock_job t x))" if "x \<in> set (platform_jobs d)" "job_id x = job_id j" for x
  proof -
    have "x = j" using keyed_row [OF key that(1) nj(1) that(2)] .
    moreover have "job_ends q t' (lock_job t j) (f (lock_job t j))"
      using worked(3) by (simp add: lock_job_def)
    moreover have "job_inv j" using nj(1) assms(1) by (simp add: jobs_ok_def list_all_iff)
    ultimately show ?thesis using job_ends_inv(1) nj(2) by blast
  qed
  then have "jobs_ok (d\<lparr>platform_jobs := move_job j (\<lambda>x. f (lock_job t x)) (platform_jobs d)\<rparr>)"
    using jobs_ok_move [OF assms(1), of "\<lambda>x. f (lock_job t x)" "job_id j"] worked(2) by simp
  then show ?thesis using worked(4) by (simp add: jobs_ok_def)
qed

lemma processOne_budget:
  assumes "jobs_ok d" and "processOne q env c t t' d = (r, d')"
  shows "(if jr_counted r = None then 0 else 1) + job_budget (platform_jobs d') \<le> job_budget (platform_jobs d)"
  using assms(2)
proof (cases rule: processOne_jobs)
  case (worked j f)
  note nj = next_job_Some [OF worked(1)]
  have ends: "job_ends q t' (lock_job t j) (f (lock_job t j))" using worked(3) by (simp add: lock_job_def)
  have key: "keyed job_id (platform_jobs d)" and inv: "job_inv j"
    using assms(1) nj(1) by (simp_all add: jobs_ok_def list_all_iff)
  have "job_budget (platform_jobs d) = Suc (job_budget (platform_jobs d'))"
    unfolding worked(4) using nj(2) job_ends_inv(2,3) [OF inv nj(2) ends]
    by (intro budget_move [OF key nj(1)]) (simp_all add: job_due_def)
  then show ?thesis by simp
qed simp

lemma Run_bounded:
  assumes "jobs_ok d"
  shows "deliveries q c ticks d + job_budget (platform_jobs (snd (Run q c ticks d))) \<le>
      job_budget (platform_jobs d) \<and> jobs_ok (snd (Run q c ticks d))"
  using assms
proof (induction ticks arbitrary: d)
  case (Cons tick ticks)
  obtain env t t' where tick: "tick = (env, t, t')" by (cases tick) auto
  obtain r d1 where p: "processOne q env c t t' d = (r, d1)" by force
  have "snd (Run q c (tick # ticks) d) = snd (Run q c ticks d1)"
    using tick p by (simp split: prod.splits option.splits)
  moreover have "deliveries q c (tick # ticks) d = (if jr_counted r = None then 0 else 1) + deliveries q c ticks d1"
    using tick p by simp
  moreover note IH = Cons.IH [OF processOne_jobs_ok [OF Cons.prems p]]
  ultimately show ?case
    using IH processOne_budget [OF Cons.prems p]
    by (simp only: conj_assoc [symmetric]) (intro conjI, linarith, simp)
qed simp


subsubsection \<open>Served statements\<close>

lemma processOne_none:
  assumes "net d = []" and "next_job t (platform_jobs d) = None"
  shows "processOne q env c t t' d = (\<lparr>jr_err = Some (Sentinel SqlErrNoRows), jr_counted = None\<rparr>, d)"
  using assms by (simp add: processOne_def claim_tx_served)

lemma processOne_served:
  assumes "net d = []" and "next_job t (platform_jobs d) = Some j"
    and "q_handlers q (job_type j) = Some h"
    and "h env (ContextWithAttempt c \<lparr>Attempt = job_attempts j + 1, MaxAttempts = job_max_attempts j\<rparr>)
           (job_payload j) (d\<lparr>platform_jobs := move_job j (lock_job t) (platform_jobs d)\<rparr>) = (hr, d2)"
  shows "processOne q env c t t' d =
    (\<lparr>jr_err = hr, jr_counted = Some (job_type j, if hr = None then ''ok'' else ''error'')\<rparr>,
     d2\<lparr>platform_jobs := move_job j
         (\<lambda>x. (case hr of None \<Rightarrow> finish_job t' | Some e \<Rightarrow> retry_job t' (Error e)) (lock_job t x))
         (platform_jobs d)\<rparr>)"
proof -
  let ?d1 = "d\<lparr>platform_jobs := move_job j (lock_job t) (platform_jobs d)\<rparr>"
  have jobs: "platform_jobs d2 = platform_jobs ?d1"
    using handler_frame [OF assms(3)] assms(4) by (metis snd_conv)
  have "net ?d1 = []" using assms(1) by simp
  then have net: "net d2 = []"
    using handler_served [OF assms(3)] assms(4) by (metis snd_conv)
  have "processOne q env c t t' d = run_job q env c j t' ?d1"
    using assms(1,2) by (simp add: processOne_def claim_tx_served)
  also have "\<dots> = (\<lparr>jr_err = hr, jr_counted = Some (job_type j, if hr = None then ''ok'' else ''error'')\<rparr>,
     d2\<lparr>platform_jobs := move_job j (case hr of None \<Rightarrow> finish_job t' | Some e \<Rightarrow> retry_job t' (Error e))
         (platform_jobs d2)\<rparr>)"
    using assms(3,4) net by (simp add: run_job_def update_job_def split: option.splits)
  finally show ?thesis unfolding jobs by (simp add: update_rows_twice)
qed

lemma processOne_unknown:
  assumes "net d = []" and "next_job t (platform_jobs d) = Some j"
    and "q_handlers q (job_type j) = None"
  shows "processOne q env c t t' d =
    (\<lparr>jr_err = None, jr_counted = Some (job_type j, ''unknown'')\<rparr>,
     d\<lparr>platform_jobs := move_job j
         (\<lambda>x. unknown_job t' (''no handler for type '' @ job_type j) (lock_job t x)) (platform_jobs d)\<rparr>)"
  using assms
  by (simp add: processOne_def claim_tx_served run_job_def update_job_def update_rows_twice)

text \<open>Draining: when no handler fails, as many ticks as open jobs complete every job.\<close>

lemma open_jobs_move:
  assumes "keyed job_id js" and "j \<in> set js" and "job_completed_at j = None"
    and "job_completed_at (f j) \<noteq> None"
  shows "open_jobs js = Suc (open_jobs (move_job j f js))"
  using assms
proof (induction js)
  case (Cons a js)
  show ?case
  proof (cases "job_id a = job_id j")
    case True
    then have "a = j" using Cons.prems(1,2) by (auto simp: keyed_def rev_image_eqI)
    moreover have "move_job j f js = js"
      using Cons.prems(1) True
      by (auto simp: update_rows_def keyed_def rev_image_eqI intro!: map_idI)
    ultimately show ?thesis using Cons.prems(3,4) by (simp add: open_jobs_def update_rows_def)
  next
    case False
    with Cons show ?thesis by (auto simp: open_jobs_def update_rows_def keyed_def)
  qed
qed simp

lemma job_due_mono: "job_due t j \<Longrightarrow> t \<le> t' \<Longrightarrow> job_due t' j"
  by (auto simp: job_due_def split: option.splits)

lemma drain_step:
  assumes "net d = []" and "jobs_ok d" and "all_due T d" and "T \<le> t" and "open_jobs (platform_jobs d) = Suc n"
    and ok: "never_fails q"
  shows "\<exists>r d'. processOne q env c t t' d = (r, d') \<and> net d' = [] \<and> jobs_ok d' \<and> all_due T d' \<and>
    open_jobs (platform_jobs d') = n"
proof -
  have "\<exists>j \<in> set (platform_jobs d). job_completed_at j = None"
  proof (rule ccontr)
    assume "\<not> ?thesis"
    then have "filter (\<lambda>j. job_completed_at j = None) (platform_jobs d) = []"
      by (simp add: filter_empty_conv)
    with assms(5) show False by (simp add: open_jobs_def)
  qed
  then have "next_job t (platform_jobs d) \<noteq> None"
    using assms(3,4) job_due_mono unfolding next_job_None all_due_def by blast
  then obtain j where nj: "next_job t (platform_jobs d) = Some j" by auto
  note j = next_job_Some(1,2) [OF nj]
  have "\<exists>f r d'. processOne q env c t t' d = (r, d') \<and> net d' = [] \<and> (\<forall>x. job_id (f x) = job_id x) \<and>
    (\<forall>x. job_completed_at (f x) \<noteq> None) \<and> platform_jobs d' = move_job j f (platform_jobs d)"
  proof (cases "q_handlers q (job_type j)")
    case None
    show ?thesis
      by (rule exI [of _ "\<lambda>x. unknown_job t' (''no handler for type '' @ job_type j) (lock_job t x)"])
        (simp add: processOne_unknown [OF assms(1) nj None] assms(1), simp add: unknown_job_def)
  next
    case (Some h)
    let ?c = "ContextWithAttempt c \<lparr>Attempt = job_attempts j + 1, MaxAttempts = job_max_attempts j\<rparr>"
    let ?d1 = "d\<lparr>platform_jobs := move_job j (lock_job t) (platform_jobs d)\<rparr>"
    obtain hr d2 where h0: "h env ?c (job_payload j) ?d1 = (hr, d2)" by force
    have net1: "net ?d1 = []" using assms(1) by simp
    have "hr = None"
      using ok [unfolded never_fails_def, rule_format, OF Some net1, of env ?c "job_payload j"] h0 by simp
    with h0 have h: "h env ?c (job_payload j) ?d1 = (None, d2)" by simp
    have "net d2 = []" using handler_served [OF Some net1, of env ?c "job_payload j"] h by simp
    then show ?thesis
      by (intro exI [of _ "\<lambda>x. finish_job t' (lock_job t x)"])
        (simp add: processOne_served [OF assms(1) nj Some h], simp add: finish_job_def)
  qed
  then obtain f r d' where p: "processOne q env c t t' d = (r, d')" "net d' = []"
    and f: "\<And>x. job_id (f x) = job_id x" "\<And>x. job_completed_at (f x) \<noteq> None"
    and js: "platform_jobs d' = move_job j f (platform_jobs d)" by blast
  have "keyed job_id (platform_jobs d)" "job_completed_at j = None"
    using assms(2) j by (simp_all add: jobs_ok_def job_due_def)
  from open_jobs_move [OF this(1) j(1) this(2), of f] f(2) js assms(5)
  have "open_jobs (platform_jobs d') = n" by simp
  moreover have "all_due T d'"
    unfolding all_due_def js set_update_rows
  proof (intro ballI impI)
    fix y assume "y \<in> (\<lambda>r. if job_id r = job_id j then f r else r) ` set (platform_jobs d)"
      and open_y: "job_completed_at y = None"
    then have "y \<in> set (platform_jobs d)" using f(2) by (auto split: if_splits simp del: not_None_eq)
    with assms(3) open_y show "job_due T y" by (simp add: all_due_def)
  qed
  ultimately show ?thesis using p processOne_jobs_ok [OF assms(2) p(1)] by blast
qed

lemma Run_drains:
  assumes "net d = []" and "jobs_ok d" and "all_due T d"
    and "\<forall>(env, t, t') \<in> set ticks. T \<le> t" and "open_jobs (platform_jobs d) \<le> length ticks"
    and ok: "never_fails q"
  shows "open_jobs (platform_jobs (snd (Run q c ticks d))) = 0"
  using assms(1-5)
proof (induction ticks arbitrary: d)
  case (Cons tick ticks)
  obtain env t t' where tick: "tick = (env, t, t')" by (cases tick) auto
  have run: "snd (Run q c (tick # ticks) d) = snd (Run q c ticks (snd (processOne q env c t t' d)))"
    using tick by (simp split: prod.splits option.splits)
  show ?case
  proof (cases "open_jobs (platform_jobs d)")
    case 0
    have "\<forall>j \<in> set (platform_jobs d). \<not> job_due t j"
      using 0 by (auto simp: open_jobs_def filter_empty_conv job_due_def)
    then have "processOne q env c t t' d = (\<lparr>jr_err = Some (Sentinel SqlErrNoRows), jr_counted = None\<rparr>, d)"
      using processOne_none [OF Cons.prems(1)] next_job_None by blast
    then show ?thesis unfolding run using Cons.IH [of d] Cons.prems 0 by simp
  next
    case (Suc n)
    have "T \<le> t" using Cons.prems(4) tick by simp
    from drain_step [OF Cons.prems(1-3) this Suc ok] obtain r d'
      where p: "processOne q env c t t' d = (r, d')" "net d' = []" "jobs_ok d'" "all_due T d'"
        "open_jobs (platform_jobs d') = n" by blast
    then show ?thesis unfolding run using Cons.IH [OF p(2-4)] Cons.prems(4,5) Suc by simp
  qed
qed simp

end

end
