(* ===== verification/Config.thy ===== *)
theory Config
  imports Go_Errors
begin

text \<open>
  \<open>platform/config/config.go\<close>: the configuration records, the readers of environment
  variables with the functions of \<open>strconv\<close> and \<open>time\<close> they call, \<open>Load\<close> and
  \<open>Validate\<close>. The environment (after \<open>godotenv.Load\<close>, which only adds to it) is a
  function from names to values, the empty string for an unset variable, as \<open>os.Getenv\<close>
  reads it. The parser of floating-point numbers is an argument, because the program only
  hands its result to the rate limiter; the fraction of a duration is computed exactly,
  not in \<open>float64\<close>.
\<close>

subsection \<open>Configuration records\<close>

record HTTPConfig =
  http_Port :: string
  http_ReadTimeout :: duration
  http_WriteTimeout :: duration
  http_ShutdownTimeout :: duration
  http_TrustedProxies :: "string list"

record DatabaseConfig =
  dc_Host :: string
  dc_Port :: int
  dc_User :: string
  dc_Password :: string
  dc_DBName :: string
  dc_SSLMode :: string
  dc_MaxOpenConns :: int
  dc_MaxIdleConns :: int
  dc_ConnMaxLifetime :: duration
  dc_MigrationsDir :: string

record MetricsConfig =
  mt_Enabled :: bool
  mt_BasicAuthUser :: string
  mt_BasicAuthPass :: string
  mt_Public :: bool

record AuthConfig =
  ac_Disabled :: bool
  ac_SessionCookie :: string
  ac_SessionTTL :: duration
  ac_CSRFCookieName :: string
  ac_TokenTTL :: duration
  ac_BcryptCost :: int

record 'f RateLimitConfig =
  rl_Requests :: 'f
  rl_Burst :: int
  rl_UseMemory :: bool
  rl_PostgresStore :: bool

record JobsConfig =
  jc_Enabled :: bool
  jc_PollInterval :: duration
  jc_MaxAttempts :: int
  jc_EmbedInServer :: bool

record ReportsConfig =
  rc_ProcessingLease :: duration
  rc_ReconcileAfter :: duration
  rc_ReconcileInterval :: duration

record 'f Config =
  cfg_AppEnv :: string
  cfg_HTTP :: HTTPConfig
  cfg_Database :: DatabaseConfig
  cfg_LoggingLevel :: string
  cfg_Metrics :: MetricsConfig
  cfg_Auth :: AuthConfig
  cfg_AllowedOrigins :: "string list"
  cfg_RateLimit :: "'f RateLimitConfig"
  cfg_Jobs :: JobsConfig
  cfg_Reports :: ReportsConfig
  cfg_BodyLimit :: string

definition ToDSN :: "DatabaseConfig \<Rightarrow> string" where
  "ToDSN dc = ''host='' @ dc_Host dc @ '' port='' @ Itoa (dc_Port dc) @ '' user='' @ dc_User dc @
     '' password='' @ dc_Password dc @ '' dbname='' @ dc_DBName dc @ '' sslmode='' @ dc_SSLMode dc"

subsection \<open>Readers\<close>

definition isDigit :: "char \<Rightarrow> bool" where
  "isDigit c \<longleftrightarrow> (let n = of_char c :: nat in 48 \<le> n \<and> n \<le> 57)"

definition digitVal :: "char \<Rightarrow> nat" where
  "digitVal c = of_char c - 48"

definition digits_val :: "string \<Rightarrow> nat" where
  "digits_val s = foldl (\<lambda>x c. 10 * x + digitVal c) 0 s"

text \<open>\<open>strconv.Atoi\<close> on a 64-bit platform: an optional sign, at least one digit, in range.\<close>

definition Atoi :: "string \<Rightarrow> int option" where
  "Atoi s =
     (let (neg, ds) = (case s of c # r \<Rightarrow> if c = CHR ''-'' then (True, r)
                                           else if c = CHR ''+'' then (False, r) else (False, s)
                       | [] \<Rightarrow> (False, []))
      in if ds = [] \<or> \<not> list_all isDigit ds then None
         else let n = (if neg then - int (digits_val ds) else int (digits_val ds))
              in if - (2 ^ 63) \<le> n \<and> n < 2 ^ 63 then Some n else None)"

definition ParseBool :: "string \<Rightarrow> bool option" where
  "ParseBool s =
     (if s \<in> {''1'', ''t'', ''T'', ''true'', ''TRUE'', ''True''} then Some True
      else if s \<in> {''0'', ''f'', ''F'', ''false'', ''FALSE'', ''False''} then Some False
      else None)"

definition unitMap :: "string \<Rightarrow> nat option" where
  "unitMap u =
     (if u = ''ns'' then Some 1
      else if u = ''us'' \<or> u = [CHR 0xC2, CHR 0xB5, CHR ''s''] \<or> u = [CHR 0xCE, CHR 0xBC, CHR ''s'']
        then Some 1000
      else if u = ''ms'' then Some 1000000
      else if u = ''s'' then Some 1000000000
      else if u = ''m'' then Some 60000000000
      else if u = ''h'' then Some 3600000000000
      else None)"

text \<open>
  \<open>leadingInt\<close> fails beyond \<open>1<<63\<close>. \<open>leadingFraction\<close> stops accumulating there; the
  value is returned with its power of ten.
\<close>

definition leadingInt :: "string \<Rightarrow> (nat \<times> string) option" where
  "leadingInt s = (let v = digits_val (takeWhile isDigit s)
     in if v \<le> 2 ^ 63 then Some (v, dropWhile isDigit s) else None)"

fun fraction_loop :: "string \<Rightarrow> nat \<Rightarrow> nat \<Rightarrow> bool \<Rightarrow> nat \<times> nat" where
  "fraction_loop [] x scale stopped = (x, scale)"
| "fraction_loop (c # cs) x scale stopped =
     (if stopped then fraction_loop cs x scale True
      else if x > (2 ^ 63 - 1) div 10 then fraction_loop cs x scale True
      else let y = x * 10 + digitVal c in
        if y > 2 ^ 63 then fraction_loop cs x scale True
        else fraction_loop cs y (scale * 10) False)"

definition leadingFraction :: "string \<Rightarrow> (nat \<times> nat) \<times> string" where
  "leadingFraction s = (fraction_loop (takeWhile isDigit s) 0 1 False, dropWhile isDigit s)"

text \<open>One turn of the loop of \<open>time.ParseDuration\<close>: the value of the first component and the rest.\<close>

definition duration_part :: "string \<Rightarrow> (nat \<times> string) option" where
  "duration_part s =
     (if s = [] \<or> \<not> (hd s = CHR ''.'' \<or> isDigit (hd s)) then None
      else (case leadingInt s of
        None \<Rightarrow> None
      | Some (v, s1) \<Rightarrow>
          let pre = (length s1 \<noteq> length s);
              dot = (s1 \<noteq> [] \<and> hd s1 = CHR ''.'');
              ((f, scale), s2) = (if dot then leadingFraction (tl s1) else ((0, 1), s1));
              post = (dot \<and> length s2 \<noteq> length (tl s1));
              u = takeWhile (\<lambda>c. \<not> (c = CHR ''.'' \<or> isDigit c)) s2;
              s3 = dropWhile (\<lambda>c. \<not> (c = CHR ''.'' \<or> isDigit c)) s2
          in if \<not> pre \<and> \<not> post then None
             else if u = [] then None
             else (case unitMap u of
               None \<Rightarrow> None
             | Some unit \<Rightarrow>
                 if v > 2 ^ 63 div unit then None
                 else let w = v * unit + f * unit div scale
                      in if w > 2 ^ 63 then None else Some (w, s3))))"

lemma duration_part_shorter: "duration_part s = Some (w, r) \<Longrightarrow> length r < length s"
proof -
  have len: "length (dropWhile P xs) \<le> length xs" for P and xs :: string
    by (rule length_dropWhile_le)
  assume "duration_part s = Some (w, r)"
  then obtain v s1 s2 where li: "leadingInt s = Some (v, s1)"
    and s2: "s2 = s1 \<or> s2 = snd (leadingFraction (tl s1))"
    and u: "takeWhile (\<lambda>c. \<not> (c = CHR ''.'' \<or> isDigit c)) s2 \<noteq> []"
    and r: "r = dropWhile (\<lambda>c. \<not> (c = CHR ''.'' \<or> isDigit c)) s2"
    by (auto simp: duration_part_def Let_def split: if_splits option.splits prod.splits)
  have "length s1 \<le> length s" using li len by (auto simp: leadingInt_def Let_def split: if_splits)
  moreover have "length s2 \<le> length s1"
    using s2 len [of isDigit "tl s1"] by (auto simp: leadingFraction_def)
  moreover have "length r < length s2"
    unfolding r using u
    by (metis append_same_eq length_append length_greater_0_conv less_add_same_cancel2 takeWhile_dropWhile_id)
  ultimately show ?thesis by simp
qed

function duration_loop :: "string \<Rightarrow> nat \<Rightarrow> nat option" where
  "duration_loop s d =
     (if s = [] then Some d
      else (case duration_part s of
        None \<Rightarrow> None
      | Some (w, r) \<Rightarrow> if d + w > 2 ^ 63 then None else duration_loop r (d + w)))"
  by pat_completeness auto
termination
  by (relation "measure (\<lambda>(s, d). length s)") (auto dest: duration_part_shorter)

declare duration_loop.simps [simp del]

definition ParseDuration :: "string \<Rightarrow> duration option" where
  "ParseDuration s =
     (let (neg, r) = (case s of c # r \<Rightarrow> if c = CHR ''-'' then (True, r)
                                          else if c = CHR ''+'' then (False, r) else (False, s)
                      | [] \<Rightarrow> (False, []))
      in if r = ''0'' then Some 0
         else if r = [] then None
         else (case duration_loop r 0 of
           None \<Rightarrow> None
         | Some d \<Rightarrow> if neg then Some (- int d)
                     else if d > 2 ^ 63 - 1 then None else Some (int d)))"

type_synonym environ = "string \<Rightarrow> string"

definition getenv :: "environ \<Rightarrow> string \<Rightarrow> string \<Rightarrow> string" where
  "getenv env k def = (if env k \<noteq> '''' then env k else def)"

definition read_env :: "(string \<Rightarrow> 'a option) \<Rightarrow> environ \<Rightarrow> string \<Rightarrow> 'a \<Rightarrow> 'a" where
  "read_env parse env k def =
     (if env k \<noteq> '''' then (case parse (env k) of Some n \<Rightarrow> n | None \<Rightarrow> def) else def)"

definition intEnv :: "environ \<Rightarrow> string \<Rightarrow> int \<Rightarrow> int" where
  "intEnv = read_env Atoi"

definition floatEnv :: "(string \<Rightarrow> 'f option) \<Rightarrow> environ \<Rightarrow> string \<Rightarrow> 'f \<Rightarrow> 'f" where
  "floatEnv ParseFloat = read_env ParseFloat"

definition boolEnv :: "environ \<Rightarrow> string \<Rightarrow> bool \<Rightarrow> bool" where
  "boolEnv = read_env ParseBool"

definition durationEnv :: "environ \<Rightarrow> string \<Rightarrow> duration \<Rightarrow> duration" where
  "durationEnv = read_env ParseDuration"

definition splitCSV :: "string \<Rightarrow> string list" where
  "splitCSV s =
     (if s = '''' then []
      else filter (\<lambda>p. p \<noteq> '''') (map TrimSpace (splitOn (CHR '','') s)))"

subsection \<open>Load and Validate\<close>

definition Validate :: "'f Config \<Rightarrow> goerr option" where
  "Validate c =
     (if http_Port (cfg_HTTP c) = '''' then Some (OtherErr ''PORT is required'')
      else if dc_Host (cfg_Database c) = '''' \<or> dc_DBName (cfg_Database c) = '''' then
        Some (OtherErr ''database host and name are required'')
      else if cfg_AppEnv c = ''production'' then
        (if mt_Public (cfg_Metrics c) \<and> mt_BasicAuthUser (cfg_Metrics c) = '''' then
           Some (OtherErr ''production requires METRICS_BASIC_AUTH_USER/PASS or METRICS_PUBLIC=false'')
         else if ac_Disabled (cfg_Auth c) then
           Some (OtherErr ''AUTH_DISABLED cannot be true in production'')
         else None)
      else None)"

definition read_config :: "(string \<Rightarrow> 'f option) \<Rightarrow> 'f \<Rightarrow> environ \<Rightarrow> 'f Config" where
  "read_config ParseFloat hundred env =
     \<lparr>cfg_AppEnv = getenv env ''APP_ENV'' ''development'',
      cfg_HTTP = \<lparr>http_Port = getenv env ''PORT'' ''8080'',
        http_ReadTimeout = durationEnv env ''HTTP_READ_TIMEOUT'' (15 * Second),
        http_WriteTimeout = durationEnv env ''HTTP_WRITE_TIMEOUT'' (15 * Second),
        http_ShutdownTimeout = durationEnv env ''HTTP_SHUTDOWN_TIMEOUT'' (10 * Second),
        http_TrustedProxies = splitCSV (env ''TRUSTED_PROXIES'')\<rparr>,
      cfg_Database = \<lparr>dc_Host = getenv env ''DB_HOST'' ''localhost'',
        dc_Port = intEnv env ''DB_PORT'' 5432,
        dc_User = getenv env ''DB_USER'' ''postgres'',
        dc_Password = getenv env ''DB_PASSWORD'' ''password'',
        dc_DBName = getenv env ''DB_NAME'' ''app_db'',
        dc_SSLMode = getenv env ''DB_SSLMODE'' ''disable'',
        dc_MaxOpenConns = intEnv env ''DB_MAX_OPEN_CONNS'' 25,
        dc_MaxIdleConns = intEnv env ''DB_MAX_IDLE_CONNS'' 25,
        dc_ConnMaxLifetime = durationEnv env ''DB_CONN_MAX_LIFETIME'' (5 * Minute),
        dc_MigrationsDir = getenv env ''DB_MIGRATIONS_DIR'' ''sql/migrations''\<rparr>,
      cfg_LoggingLevel = getenv env ''LOG_LEVEL'' '''',
      cfg_Metrics = \<lparr>mt_Enabled = boolEnv env ''METRICS_ENABLED'' True,
        mt_BasicAuthUser = env ''METRICS_BASIC_AUTH_USER'',
        mt_BasicAuthPass = env ''METRICS_BASIC_AUTH_PASS'',
        mt_Public = boolEnv env ''METRICS_PUBLIC'' False\<rparr>,
      cfg_Auth = \<lparr>ac_Disabled = boolEnv env ''AUTH_DISABLED'' True,
        ac_SessionCookie = getenv env ''AUTH_SESSION_COOKIE'' ''session_id'',
        ac_SessionTTL = durationEnv env ''AUTH_SESSION_TTL'' (24 * Hour),
        ac_CSRFCookieName = getenv env ''AUTH_CSRF_COOKIE'' ''csrf_token'',
        ac_TokenTTL = durationEnv env ''AUTH_TOKEN_TTL'' (24 * Hour),
        ac_BcryptCost = intEnv env ''AUTH_BCRYPT_COST'' 10\<rparr>,
      cfg_AllowedOrigins = [''*''],
      cfg_RateLimit = \<lparr>rl_Requests = floatEnv ParseFloat env ''RATE_LIMIT_REQUESTS'' hundred,
        rl_Burst = intEnv env ''RATE_LIMIT_BURST'' 50,
        rl_UseMemory = boolEnv env ''RATE_LIMIT_USE_MEMORY'' True,
        rl_PostgresStore = boolEnv env ''RATE_LIMIT_POSTGRES'' False\<rparr>,
      cfg_Jobs = \<lparr>jc_Enabled = boolEnv env ''JOBS_ENABLED'' True,
        jc_PollInterval = durationEnv env ''JOBS_POLL_INTERVAL'' (2 * Second),
        jc_MaxAttempts = intEnv env ''JOBS_MAX_ATTEMPTS'' 5,
        jc_EmbedInServer = boolEnv env ''JOBS_EMBED_IN_SERVER'' True\<rparr>,
      cfg_Reports = \<lparr>rc_ProcessingLease = durationEnv env ''REPORTS_PROCESSING_LEASE'' (5 * Minute),
        rc_ReconcileAfter = durationEnv env ''REPORTS_RECONCILE_AFTER'' Minute,
        rc_ReconcileInterval = durationEnv env ''REPORTS_RECONCILE_INTERVAL'' (30 * Second)\<rparr>,
      cfg_BodyLimit = getenv env ''BODY_LIMIT'' ''2M''\<rparr>"

definition default_level :: "'f Config \<Rightarrow> 'f Config" where
  "default_level cfg =
     (if cfg_LoggingLevel cfg = '''' then
        (if cfg_AppEnv cfg = ''production'' then cfg\<lparr>cfg_LoggingLevel := ''INFO''\<rparr>
         else cfg\<lparr>cfg_LoggingLevel := ''DEBUG''\<rparr>)
      else cfg)"

definition origins_override :: "environ \<Rightarrow> 'f Config \<Rightarrow> 'f Config" where
  "origins_override env cfg =
     (if env ''ALLOWED_ORIGINS'' \<noteq> '''' then cfg\<lparr>cfg_AllowedOrigins := splitCSV (env ''ALLOWED_ORIGINS'')\<rparr>
      else cfg)"

definition dev_metrics :: "environ \<Rightarrow> 'f Config \<Rightarrow> 'f Config" where
  "dev_metrics env cfg =
     (if env ''METRICS_PUBLIC'' = '''' \<and> cfg_AppEnv cfg \<noteq> ''production''
      then cfg\<lparr>cfg_Metrics := (cfg_Metrics cfg)\<lparr>mt_Public := True\<rparr>\<rparr> else cfg)"

definition Load :: "(string \<Rightarrow> 'f option) \<Rightarrow> 'f \<Rightarrow> environ \<Rightarrow> goerr + 'f Config" where
  "Load ParseFloat hundred env =
     (let cfg = dev_metrics env (origins_override env (default_level (read_config ParseFloat hundred env)))
      in case Validate cfg of Some err \<Rightarrow> Inl err | None \<Rightarrow> Inr cfg)"

subsection \<open>What a loaded configuration guarantees\<close>

lemmas overrides = default_level_def origins_override_def dev_metrics_def

lemma Load_Inr:
  assumes "Load pf hundred env = Inr cfg"
  shows "Validate cfg = None" and "cfg_LoggingLevel cfg \<noteq> ''''"
  using assms by (auto simp: Load_def Let_def overrides split: option.splits if_splits)

lemma Load_production:
  assumes "Load pf hundred env = Inr cfg" and "cfg_AppEnv cfg = ''production''"
  shows "\<not> ac_Disabled (cfg_Auth cfg)"
    and "mt_Public (cfg_Metrics cfg) \<longrightarrow> mt_BasicAuthUser (cfg_Metrics cfg) \<noteq> ''''"
  using Load_Inr(1) [OF assms(1)] assms(2) by (auto simp: Validate_def split: if_splits)

text \<open>
  The checks of the port and of the database names never fail: an unset variable takes its
  default, and an empty one counts as unset.
\<close>

lemma overrides_frame:
  "cfg_AppEnv (dev_metrics env (origins_override env (default_level c))) = cfg_AppEnv c"
  "cfg_HTTP (dev_metrics env (origins_override env (default_level c))) = cfg_HTTP c"
  "cfg_Database (dev_metrics env (origins_override env (default_level c))) = cfg_Database c"
  "cfg_Auth (dev_metrics env (origins_override env (default_level c))) = cfg_Auth c"
  "cfg_Metrics (dev_metrics env (origins_override env (default_level c))) =
     (if env ''METRICS_PUBLIC'' = '''' \<and> cfg_AppEnv c \<noteq> ''production''
      then (cfg_Metrics c)\<lparr>mt_Public := True\<rparr> else cfg_Metrics c)"
  "cfg_AllowedOrigins (dev_metrics env (origins_override env (default_level c))) =
     (if env ''ALLOWED_ORIGINS'' \<noteq> '''' then splitCSV (env ''ALLOWED_ORIGINS'') else cfg_AllowedOrigins c)"
  by (simp_all add: overrides)

lemma read_config_sel:
  "cfg_AppEnv (read_config pf h env) = getenv env ''APP_ENV'' ''development''"
  "http_Port (cfg_HTTP (read_config pf h env)) = getenv env ''PORT'' ''8080''"
  "dc_Host (cfg_Database (read_config pf h env)) = getenv env ''DB_HOST'' ''localhost''"
  "dc_DBName (cfg_Database (read_config pf h env)) = getenv env ''DB_NAME'' ''app_db''"
  "mt_BasicAuthUser (cfg_Metrics (read_config pf h env)) = env ''METRICS_BASIC_AUTH_USER''"
  "mt_BasicAuthPass (cfg_Metrics (read_config pf h env)) = env ''METRICS_BASIC_AUTH_PASS''"
  "mt_Public (cfg_Metrics (read_config pf h env)) = boolEnv env ''METRICS_PUBLIC'' False"
  "mt_Enabled (cfg_Metrics (read_config pf h env)) = boolEnv env ''METRICS_ENABLED'' True"
  "ac_Disabled (cfg_Auth (read_config pf h env)) = boolEnv env ''AUTH_DISABLED'' True"
  "cfg_AllowedOrigins (read_config pf h env) = [''*'']"
  unfolding read_config_def by (simp_all only: Config.select_convs HTTPConfig.select_convs
      DatabaseConfig.select_convs MetricsConfig.select_convs AuthConfig.select_convs)

lemma getenv_default: "d \<noteq> '''' \<Longrightarrow> getenv env k d \<noteq> ''''"
  "getenv env ''APP_ENV'' ''development'' = ''production'' \<longleftrightarrow> env ''APP_ENV'' = ''production''"
  by (auto simp: getenv_def)

lemma Load_iff:
  "Load pf hundred env = Inr cfg \<longleftrightarrow>
     cfg = dev_metrics env (origins_override env (default_level (read_config pf hundred env))) \<and>
     \<not> (env ''APP_ENV'' = ''production'' \<and>
       ((boolEnv env ''METRICS_PUBLIC'' False \<and> env ''METRICS_BASIC_AUTH_USER'' = '''') \<or>
        boolEnv env ''AUTH_DISABLED'' True))"
  unfolding Load_def Let_def Validate_def overrides_frame read_config_sel
  by (simp add: getenv_default overrides_frame read_config_sel) auto

lemma Load_metrics:
  assumes "Load pf hundred env = Inr cfg"
  shows "mt_BasicAuthUser (cfg_Metrics cfg) = env ''METRICS_BASIC_AUTH_USER''"
    and "mt_BasicAuthPass (cfg_Metrics cfg) = env ''METRICS_BASIC_AUTH_PASS''"
    and "mt_Enabled (cfg_Metrics cfg) = boolEnv env ''METRICS_ENABLED'' True"
  using assms unfolding Load_iff by (simp_all add: overrides_frame read_config_sel)

lemma Load_origins:
  assumes "Load pf hundred env = Inr cfg"
  shows "cfg_AllowedOrigins cfg =
    (if env ''ALLOWED_ORIGINS'' = '''' then [''*''] else splitCSV (env ''ALLOWED_ORIGINS''))"
  using assms unfolding Load_iff by (simp add: overrides_frame read_config_sel)

lemma splitCSV_pieces:
  assumes "p \<in> set (splitCSV s)"
  shows "p \<noteq> ''''" and "TrimSpace p = p"
proof -
  from assms obtain x where x: "p = TrimSpace x" "p \<noteq> ''''"
    by (auto simp: splitCSV_def split: if_splits)
  then show "p \<noteq> ''''" by simp
  define y where "y = dropWhile isSpace x"
  have p: "p = rev (dropWhile isSpace (rev y))" by (simp add: x(1) TrimSpace_def y_def)
  have "dropWhile isSpace p = p"
  proof -
    have "p \<noteq> []" using x(2) by simp
    have "rev y = takeWhile isSpace (rev y) @ dropWhile isSpace (rev y)" by simp
    then have "y = p @ rev (takeWhile isSpace (rev y))" unfolding p by (metis rev_append rev_rev_ident)
    with \<open>p \<noteq> []\<close> have "hd p = hd y" by (metis hd_append2)
    have "y \<noteq> []" using p \<open>p \<noteq> []\<close> by auto
    then have "\<not> isSpace (hd y)" unfolding y_def by (rule hd_dropWhile)
    with \<open>hd p = hd y\<close> \<open>p \<noteq> []\<close> show ?thesis by (cases p) auto
  qed
  then show "TrimSpace p = p" unfolding TrimSpace_def by (simp add: p)
qed

subsection \<open>Numbers and durations round trip through the environment\<close>

lemma digit_char: "n < 10 \<Longrightarrow> isDigit (char_of (48 + n)) \<and> digitVal (char_of (48 + n)) = n"
  by (simp add: isDigit_def digitVal_def)

lemma digits_val_snoc: "digits_val (s @ [c]) = 10 * digits_val s + digitVal c"
  by (simp add: digits_val_def)

lemma decimal_digits: "decimal n \<noteq> [] \<and> list_all isDigit (decimal n) \<and> digits_val (decimal n) = n"
proof (induction n rule: decimal.induct)
  case (1 n)
  show ?case
  proof (cases "n < 10")
    case True
    have one: "digits_val [c] = digitVal c" for c by (simp add: digits_val_def)
    show ?thesis
      using True digit_char [OF True] by (simp add: decimal.simps [of n] one)
  next
    case False
    have m: "n mod 10 < 10" by simp
    show ?thesis
      using False 1 [OF False] digit_char [OF m]
      by (simp add: decimal.simps [of n] digits_val_snoc)
  qed
qed

lemmas decimal_text = decimal_digits [THEN conjunct1] decimal_digits [THEN conjunct2, THEN conjunct1]
  decimal_digits [THEN conjunct2, THEN conjunct2]

lemma decimal_hd: "hd (decimal n) \<noteq> CHR ''-'' \<and> hd (decimal n) \<noteq> CHR ''+''"
proof -
  have "isDigit (hd (decimal n))" using decimal_text(1,2) [of n] by (cases "decimal n") auto
  then show ?thesis by (auto simp: isDigit_def)
qed

lemma Atoi_Itoa:
  assumes "- (2 ^ 63) \<le> i" and "i < 2 ^ 63"
  shows "Atoi (Itoa i) = Some i"
proof (cases "i < 0")
  case True
  then show ?thesis using assms decimal_text [of "nat (- i)"] by (simp add: Atoi_def Itoa_def)
next
  case False
  obtain c r where d: "decimal (nat i) = c # r" using decimal_text(1) [of "nat i"] by (cases "decimal (nat i)") auto
  with decimal_hd [of "nat i"] have "c \<noteq> CHR ''-''" "c \<noteq> CHR ''+''" by auto
  with False assms d decimal_text(2,3) [of "nat i"] show ?thesis by (simp add: Atoi_def Itoa_def)
qed

lemma intEnv_Itoa:
  assumes "- (2 ^ 63) \<le> i" and "i < 2 ^ 63" and "env k = Itoa i"
  shows "intEnv env k dflt = i"
  using assms Atoi_Itoa [OF assms(1,2)] decimal_text(1)
  by (simp add: intEnv_def read_env_def Itoa_def split: if_splits)

text \<open>A duration of \<open>n\<close> units, written as Go writes it.\<close>

lemma duration_part_unit:
  assumes "unitMap u = Some unit" and "list_all (\<lambda>c. \<not> (c = CHR ''.'' \<or> isDigit c)) u"
    and "u \<noteq> []" and "n * unit \<le> 2 ^ 63" and "unit > 0"
  shows "duration_part (decimal n @ u) = Some (n * unit, [])"
proof -
  have nu: "n \<le> 2 ^ 63 div unit" using assms(4,5) by (simp add: less_eq_div_iff_mult_less_eq)
  then have n63: "n \<le> 2 ^ 63" by (rule order_trans) simp
  have hdu: "\<not> isDigit (hd u)" "hd u \<noteq> CHR ''.''" using assms(2,3) by (cases u; simp)+
  have tw: "takeWhile isDigit (decimal n @ u) = decimal n" "dropWhile isDigit (decimal n @ u) = u"
    using decimal_text(2) [of n] hdu(1) assms(3)
    by (cases u; simp add: takeWhile_append2 dropWhile_append2 list_all_iff)+
  have li: "leadingInt (decimal n @ u) = Some (n, u)"
    using tw decimal_text(3) [of n] n63 by (simp add: leadingInt_def Let_def)
  have hdd: "isDigit (hd (decimal n @ u))"
    using decimal_text(1,2) [of n] by (cases "decimal n") auto
  have tu: "takeWhile (\<lambda>c. c \<noteq> CHR ''.'' \<and> \<not> isDigit c) u = u"
    "dropWhile (\<lambda>c. c \<noteq> CHR ''.'' \<and> \<not> isDigit c) u = []"
    using assms(2) by (auto simp add: takeWhile_eq_all_conv dropWhile_eq_Nil_conv list_all_iff)
  show ?thesis
    unfolding duration_part_def Let_def
    using li hdd hdu(2) assms(1,3,4) nu decimal_text(1) [of n] by (simp add: tu)
qed

lemma ParseDuration_unit:
  assumes "unitMap u = Some unit" and "list_all (\<lambda>c. \<not> (c = CHR ''.'' \<or> isDigit c)) u"
    and "u \<noteq> []" and "unit > 0" and "n * unit < 2 ^ 63"
  shows "ParseDuration (decimal n @ u) = Some (int (n * unit))"
proof -
  obtain c r where d: "decimal n = c # r" using decimal_text(1) [of n] by (cases "decimal n") auto
  with decimal_hd [of n] have c: "c \<noteq> CHR ''-''" "c \<noteq> CHR ''+''" by auto
  have "duration_loop (decimal n @ u) 0 = Some (n * unit)"
    using duration_part_unit [OF assms(1-3) less_imp_le [OF assms(5)] assms(4)] assms(5) d
    by (simp add: duration_loop.simps)
  moreover have "c # r @ u \<noteq> ''0''" using assms(2,3) by (cases r; cases u) auto
  ultimately show ?thesis using d c assms(3,5) by (simp add: ParseDuration_def Let_def)
qed

lemma ParseDuration_seconds: "n * 1000000000 < 2 ^ 63 \<Longrightarrow> ParseDuration (decimal n @ ''s'') = Some (int n * Second)"
  using ParseDuration_unit [of "''s''" 1000000000 n] by (simp add: unitMap_def isDigit_def)

end
