(* ===== verification/App.thy ===== *)
theory App
  imports Todos_Service Reports_Service Jobs Config
begin

text \<open>
  The composition root, \<open>app/app.go\<close>: the adapters between the domains, the job handlers,
  the event subscription, and the background loops. \<open>New\<close> is split into one definition
  per object it builds. The HTTP side it mounts is in the theories of the adapters.
  \<open>enq_env\<close> is what one \<open>Enqueue\<close> draws from the environment, \<open>job_env\<close> the two clock
  readings of a report generation.
\<close>

subsection \<open>Job payloads as JSON\<close>

definition marshal_GenerateReportJob :: "GenerateReportJob \<Rightarrow> goerr + json" where
  "marshal_GenerateReportJob j = Inr (JObj [(''report_id'', JStr (uuid_String (gj_ReportID j)))])"

text \<open>
  \<open>json.Unmarshal\<close> into the struct: members are matched by name without regard to case,
  the last one wins, \<open>null\<close> leaves the field, unknown members are ignored.
\<close>

fun unmarshal_members :: "(string \<times> json) list \<Rightarrow> uuid \<Rightarrow> goerr + uuid" where
  "unmarshal_members [] u = Inr u"
| "unmarshal_members ((k, v) # ms) u =
     (if ToLower k = ''report_id'' then
        (case v of
           JStr t \<Rightarrow>
             (case uuid_Parse t of
                Inl _ \<Rightarrow> Inl (OtherErr ''invalid UUID'')
              | Inr u' \<Rightarrow> unmarshal_members ms u')
         | JNull \<Rightarrow> unmarshal_members ms u
         | _ \<Rightarrow> Inl (OtherErr ''json: cannot unmarshal into Go struct field''))
      else unmarshal_members ms u)"

definition unmarshal_GenerateReportJob :: "json \<Rightarrow> goerr + GenerateReportJob" where
  "unmarshal_GenerateReportJob payload =
     (case payload of
        JObj ms \<Rightarrow>
          (case unmarshal_members ms uuid_Nil of
             Inl err \<Rightarrow> Inl err
           | Inr u \<Rightarrow> Inr \<lparr>gj_ReportID = u\<rparr>)
      | JNull \<Rightarrow> Inr \<lparr>gj_ReportID = uuid_Nil\<rparr>
      | _ \<Rightarrow> Inl (OtherErr ''json: cannot unmarshal into Go value''))"

text \<open>\<open>fmtTime\<close> is \<open>time.Time.MarshalJSON\<close>, which fails for years beyond four digits.\<close>

definition marshal_Todo :: "(time \<Rightarrow> goerr + string) \<Rightarrow> Todo \<Rightarrow> goerr + json" where
  "marshal_Todo fmtTime t =
     (case fmtTime (td_CreatedAt t) of
        Inl err \<Rightarrow> Inl err
      | Inr created \<Rightarrow>
          (case fmtTime (td_UpdatedAt t) of
             Inl err \<Rightarrow> Inl err
           | Inr updated \<Rightarrow>
               Inr (JObj [(''todo_id'', JStr (uuid_String (td_TodoID t))),
                          (''created_at'', JStr created), (''updated_at'', JStr updated),
                          (''label'', JStr (td_Label t)), (''completed'', JBool (td_Completed t))])))"

lemma ToLower_report_id [simp]: "ToLower ''report_id'' = ''report_id''"
  by (simp add: ToLower_def lowerChar_def)

lemma payload_round_trip:
  "marshal_GenerateReportJob j = Inr b \<Longrightarrow> unmarshal_GenerateReportJob b = Inr j"
  by (auto simp: marshal_GenerateReportJob_def unmarshal_GenerateReportJob_def uuid_Parse_String)

subsection \<open>Adapters and wiring\<close>

record enq_env =
  ee_id :: uuid
  ee_now :: time
  ee_server :: time

record job_env =
  je_now :: time
  je_later :: time

definition app_queue0 :: "'f Config \<Rightarrow> job_env Queue" where
  "app_queue0 cfg = NewQueue (jc_MaxAttempts (cfg_Jobs cfg)) (jc_PollInterval (cfg_Jobs cfg))"

definition queueEnqueuer_Enqueue ::
  "job_env Queue \<Rightarrow> enq_env \<Rightarrow> ctx \<Rightarrow> string \<Rightarrow> GenerateReportJob \<Rightarrow> db \<Rightarrow> goerr option \<times> db" where
  "queueEnqueuer_Enqueue q env c jobType payload d =
     (case Enqueue q jobType (marshal_GenerateReportJob payload) 0 (ee_id env) (ee_now env) (ee_server env) d of
        ((_, err), d') \<Rightarrow> (err, d'))"

definition todoSummaryAdapter_Summary ::
  "db TodoService \<Rightarrow> ctx \<Rightarrow> db \<Rightarrow> (goerr + TodoSummary) \<times> db" where
  "todoSummaryAdapter_Summary svc c d =
     (case Summary svc c d of
        (Inl err, d') \<Rightarrow> (Inl err, d')
      | (Inr s, d') \<Rightarrow>
          (Inr \<lparr>su_Total = sm_Total s, su_Completed = sm_Completed s, su_Outstanding = sm_Outstanding s\<rparr>, d'))"

definition audit_subscriber ::
  "(time \<Rightarrow> goerr + string) \<Rightarrow> job_env Queue \<Rightarrow> enq_env \<Rightarrow> (Todo, db) EventHandler" where
  "audit_subscriber fmtTime q env c ev d =
     (case Enqueue q ''todos.audit_created'' (marshal_Todo fmtTime (ev_Payload ev)) 0
             (ee_id env) (ee_now env) (ee_server env) d of
        ((_, err), d') \<Rightarrow> (err, d'))"

definition app_bus :: "(time \<Rightarrow> goerr + string) \<Rightarrow> 'f Config \<Rightarrow> enq_env \<Rightarrow> (Todo, db) Bus" where
  "app_bus fmtTime cfg env =
     Subscribe NewBus EventTodoCreated (audit_subscriber fmtTime (app_queue0 cfg) env)"

definition app_todos :: "(time \<Rightarrow> goerr + string) \<Rightarrow> 'f Config \<Rightarrow> enq_env \<Rightarrow> db TodoService" where
  "app_todos fmtTime cfg env =
     NewTodoService PgTodoStore (Some (app_bus fmtTime cfg env)) (ac_Disabled (cfg_Auth cfg))"

text \<open>
  The summary reader of the reports service is the same todos service; it does not
  publish, so what its bus would draw from the environment is irrelevant and left out.
\<close>

definition app_reports :: "'f Config \<Rightarrow> (enq_env, db) ReportService" where
  "app_reports cfg =
     NewReportService PgReportStore
       (todoSummaryAdapter_Summary (NewTodoService PgTodoStore None (ac_Disabled (cfg_Auth cfg))))
       (queueEnqueuer_Enqueue (app_queue0 cfg))
       (ac_Disabled (cfg_Auth cfg))
       (rc_ProcessingLease (cfg_Reports cfg))
       (rc_ReconcileAfter (cfg_Reports cfg))"

lemma todoSummaryAdapter_bus:
  "todoSummaryAdapter_Summary (app_todos fmtTime cfg env) =
     todoSummaryAdapter_Summary (NewTodoService PgTodoStore None (ac_Disabled (cfg_Auth cfg)))"
  unfolding fun_eq_iff todoSummaryAdapter_Summary_def Summary_def authorize_def app_todos_def NewTodoService_simps
  by (intro allI refl)

definition audit_handler :: "job_env JobHandler" where
  "audit_handler env c payload d = (None, d)"

definition system_principal :: Principal where
  "system_principal = \<lparr>UserID = ''system'', Roles = [''system''], AuthMethod = ''job''\<rparr>"

definition generate_handler :: "'f Config \<Rightarrow> job_env JobHandler" where
  "generate_handler cfg env c payload d =
     (case unmarshal_GenerateReportJob payload of
        Inl _ \<Rightarrow> (None, d)
      | Inr job \<Rightarrow>
          Generate (app_reports cfg) (WithPrincipal c system_principal) (gj_ReportID job)
            (je_now env) (je_later env) d)"

definition app_queue :: "'f Config \<Rightarrow> job_env Queue" where
  "app_queue cfg =
     Register (Register (app_queue0 cfg) ''todos.audit_created'' audit_handler)
       JobGenerate (generate_handler cfg)"

definition app_ready :: "'f Config \<Rightarrow> db \<Rightarrow> goerr option \<times> db" where
  "app_ready cfg d = (if \<not> jc_Enabled (cfg_Jobs cfg) then (None, d) else Ready d)"

subsection \<open>Background work\<close>

datatype background = RunQueue | ReconcileEvery duration | ListenHTTP string

definition reconcile_interval :: "'f Config \<Rightarrow> duration" where
  "reconcile_interval cfg =
     (let interval = rc_ReconcileInterval (cfg_Reports cfg) in if interval \<le> 0 then 30 * Second else interval)"

definition Start :: "'f Config \<Rightarrow> background list" where
  "Start cfg =
     (if jc_Enabled (cfg_Jobs cfg) \<and> jc_EmbedInServer (cfg_Jobs cfg) then [RunQueue] else []) @
     (if jc_Enabled (cfg_Jobs cfg) then [ReconcileEvery (reconcile_interval cfg)] else []) @
     [ListenHTTP ('':'' @ http_Port (cfg_HTTP cfg))]"

definition StartWorkerOnly :: "'f Config \<Rightarrow> background list" where
  "StartWorkerOnly cfg = [ReconcileEvery (reconcile_interval cfg), RunQueue]"

text \<open>
  The reconcile goroutine: once at start, then on every tick until the context ends. A
  schedule gives the clock and the draws of each run; the result lists the logged errors.
\<close>

fun reconcile_runs ::
  "'f Config \<Rightarrow> ctx \<Rightarrow> (time \<times> (nat \<Rightarrow> enq_env)) list \<Rightarrow> db \<Rightarrow> goerr list \<times> db" where
  "reconcile_runs cfg c [] d = ([], d)"
| "reconcile_runs cfg c ((now, env) # runs) d =
     (case ReconcilePending (app_reports cfg) c now env d of
        (None, d1) \<Rightarrow> reconcile_runs cfg c runs d1
      | (Some e, d1) \<Rightarrow> (case reconcile_runs cfg c runs d1 of (es, d2) \<Rightarrow> (e # es, d2)))"

subsection \<open>Frames\<close>

text \<open>What an operation leaves alone: \<open>F\<close> reads the same before and after.\<close>

definition leaves :: "(db \<Rightarrow> 'x) \<Rightarrow> (db \<Rightarrow> 'r \<times> db) \<Rightarrow> bool" where
  "leaves F op \<longleftrightarrow> (\<forall>d. F (snd (op d)) = F d)"

lemma leaves_run_stmt:
  assumes "leaves F stmt" and "\<And>d xs. F (d\<lparr>net := xs\<rparr>) = F d"
  shows "leaves F (run_stmt stmt)"
  unfolding leaves_def
proof
  fix d
  obtain r d' where r: "run_stmt stmt d = (r, d')" by force
  then have "F d' = F d"
    by (cases rule: run_stmt_cases) (use assms in \<open>auto simp: leaves_def\<close>, metis snd_conv)
  with r show "F (snd (run_stmt stmt d)) = F d" by simp
qed

definition not_reports where
  "not_reports d = (todos_todos d, auth_users d, auth_sessions d, auth_api_tokens d, platform_jobs d)"

definition not_jobs where
  "not_jobs d = (todos_todos d, auth_users d, auth_sessions d, auth_api_tokens d, reports_reports d)"

lemma leaves_update_returning: "leaves not_reports (update_returning i cond set_cols)"
  by (auto simp: leaves_def update_returning_def not_reports_def split: option.splits sum.splits)

lemma snd_map_row [simp]: "snd (map_row x) = snd x" "snd (map_row_list y) = snd y"
  by (auto simp: map_row_def map_row_list_def split: prod.splits sum.splits)

lemma leaves_map_row:
  "leaves F op \<Longrightarrow> leaves F (\<lambda>d. map_row (op d))"
  by (simp add: leaves_def)

lemma leaves_reports:
  "leaves not_reports (rs_GetReportByID PgReportStore i)"
  "leaves not_reports (rs_ClaimExecution PgReportStore i now stale)"
  "leaves not_reports (rs_MarkPendingRetry PgReportStore i at)"
  "leaves not_reports (rs_MarkCompleted PgReportStore i res at)"
  "leaves not_reports (rs_MarkFailed PgReportStore i code reason at)"
  "leaves not_reports (rs_CreateReport PgReportStore r)"
  unfolding PgReportStore_ops pg_GetReportByID_def pg_ClaimExecution_def pg_MarkPendingRetry_def
    pg_MarkCompleted_def pg_MarkFailed_def pg_CreateReport_def q_GetReportByID_def
    q_ClaimReportExecution_def q_MarkReportPendingRetry_def q_MarkReportCompleted_def
    q_MarkReportFailed_def q_CreateReport_def
  by (rule leaves_map_row leaves_run_stmt leaves_update_returning
      | simp add: not_reports_def leaves_def; fail)+

lemma Summary_read:
  "\<exists>xs. snd (Summary (NewTodoService PgTodoStore b dis) c d) = d\<lparr>net := xs\<rparr>"
proof -
  obtain q d' where q: "q_CountTodos d = (q, d')" by force
  from run_stmt_read [OF q [unfolded q_CountTodos_def]] obtain xs where "d' = d\<lparr>net := xs\<rparr>" by blast
  with q have "\<exists>xs. snd (st_CountTodos PgTodoStore d) = d\<lparr>net := xs\<rparr>"
    by (auto simp: PgTodoStore_def pg_CountTodos_def split: sum.splits)
  moreover have "snd (Summary (NewTodoService PgTodoStore b dis) c d) = d \<or>
      snd (Summary (NewTodoService PgTodoStore b dis) c d) = snd (st_CountTodos PgTodoStore d)"
    by (auto simp: Summary_def split: option.splits prod.splits sum.splits)
  moreover have "d = d\<lparr>net := net d\<rparr>" by simp
  ultimately show ?thesis by metis
qed

lemma Summary_served:
  assumes "net d = []" and "authenticated dis c"
  shows "Summary (NewTodoService PgTodoStore b dis) c d =
    (Inr \<lparr>sm_Total = int (length (todos_todos d)),
          sm_Completed = int (length (filter tt_Completed (todos_todos d))),
          sm_Outstanding = int (length (todos_todos d)) - int (length (filter tt_Completed (todos_todos d)))\<rparr>, d)"
  using assms by (simp add: Summary_def PgTodoStore_def pg_CountTodos_def q_CountTodos_def authorize_ok)

lemma leaves_summary:
  "leaves not_reports (todoSummaryAdapter_Summary (NewTodoService PgTodoStore b dis) c)"
proof -
  have "not_reports (snd (todoSummaryAdapter_Summary (NewTodoService PgTodoStore b dis) c d)) =
      not_reports d" for d
  proof -
    have "snd (todoSummaryAdapter_Summary (NewTodoService PgTodoStore b dis) c d) =
        snd (Summary (NewTodoService PgTodoStore b dis) c d)"
      by (simp add: todoSummaryAdapter_Summary_def split: prod.splits sum.splits)
    with Summary_read [of b dis c d] show ?thesis by (auto simp: not_reports_def)
  qed
  then show ?thesis by (simp add: leaves_def)
qed

lemma leavesD: "leaves F op \<Longrightarrow> F (snd (op d)) = F d"
  by (simp add: leaves_def)

lemma app_reports_simps [simp]:
  "rsv_store (app_reports cfg) = PgReportStore"
  "rsv_authDisabled (app_reports cfg) = ac_Disabled (cfg_Auth cfg)"
  "rsv_summaries (app_reports cfg) =
     todoSummaryAdapter_Summary (NewTodoService PgTodoStore None (ac_Disabled (cfg_Auth cfg)))"
  "rsv_enqueue (app_reports cfg) = queueEnqueuer_Enqueue (app_queue0 cfg)"
  by (simp_all add: app_reports_def)

lemma app_lease_pos: "rsv_processingLease (app_reports cfg) > 0" "rsv_reconcileAfter (app_reports cfg) > 0"
  unfolding app_reports_def by (rule NewReportService_lease_pos)+

lemma leaves_Generate: "leaves not_reports (Generate (app_reports cfg) c i now now')"
  unfolding leaves_def
proof
  fix d
  show "not_reports (snd (Generate (app_reports cfg) c i now now' d)) = not_reports d"
    by (rule Generate_preserves [where P = "\<lambda>x. not_reports x = not_reports d"])
      (simp_all only: app_reports_simps leavesD [OF leaves_reports(1)] leavesD [OF leaves_reports(2)]
        leavesD [OF leaves_reports(3)] leavesD [OF leaves_reports(4)] leavesD [OF leaves_reports(5)]
        leavesD [OF leaves_summary])
qed

lemma served_update_returning: "net d = [] \<Longrightarrow> net (snd (update_returning i cond set_cols d)) = []"
  by (auto simp: update_returning_def split: option.splits sum.splits)

lemma served_reports:
  assumes "net d = []"
  shows "net (snd (rs_GetReportByID PgReportStore i d)) = []"
    and "net (snd (rs_ClaimExecution PgReportStore i now stale d)) = []"
    and "net (snd (rs_MarkPendingRetry PgReportStore i at d)) = []"
    and "net (snd (rs_MarkCompleted PgReportStore i res at d)) = []"
    and "net (snd (rs_MarkFailed PgReportStore i code reason at d)) = []"
  using assms
  by (simp_all add: PgReportStore_ops pg_GetReportByID_def pg_ClaimExecution_def
      pg_MarkPendingRetry_def pg_MarkCompleted_def pg_MarkFailed_def q_GetReportByID_def
      q_ClaimReportExecution_def q_MarkReportPendingRetry_def q_MarkReportCompleted_def
      q_MarkReportFailed_def served_update_returning)

lemma served_summary:
  assumes "net d = []"
  shows "net (snd (todoSummaryAdapter_Summary (NewTodoService PgTodoStore b dis) c d)) = []"
  using assms
  by (simp add: todoSummaryAdapter_Summary_def Summary_def PgTodoStore_def pg_CountTodos_def
      q_CountTodos_def split: option.splits)

lemma served_Generate:
  assumes "net d = []"
  shows "net (snd (Generate (app_reports cfg) c i now now' d)) = []"
  by (rule Generate_preserves [where P = "\<lambda>x. net x = []"])
    (simp_all only: app_reports_simps assms served_reports served_summary)

lemma app_queue_handlers:
  "q_handlers (app_queue cfg) ty = Some h \<longleftrightarrow>
     (if ty = JobGenerate then h = generate_handler cfg
      else ty = ''todos.audit_created'' \<and> h = audit_handler)"
  by (auto simp: app_queue_def Register_def app_queue0_def NewQueue_def JobGenerate_def)

lemma app_queue_max [simp]: "q_maxAttempts (app_queue cfg) = q_maxAttempts (app_queue0 cfg)"
  by (simp add: app_queue_def Register_def)

lemma app_queue0_max_pos: "q_maxAttempts (app_queue0 cfg) > 0"
  by (simp add: app_queue0_def NewQueue_def)

interpretation app_jobs: job_queue "app_queue cfg" for cfg :: "'f Config"
proof (unfold_locales, goal_cases)
  case (1 ty h env c payload d)
  have "platform_jobs (snd (Generate (app_reports cfg) c' i now now' d)) = platform_jobs d" for c' i now now'
    using leavesD [OF leaves_Generate, of cfg c' i now now' d] by (simp add: not_reports_def)
  with 1 show ?case
    by (auto simp: app_queue_handlers generate_handler_def audit_handler_def split: if_splits sum.splits)
next
  case (2 ty h d env c payload)
  then show ?case
    by (auto simp: app_queue_handlers generate_handler_def audit_handler_def served_Generate
        split: if_splits sum.splits)
qed

lemma leaves_Enqueue: "leaves not_jobs (Enqueue q jobType body runAt newID now t)"
proof -
  have "leaves not_jobs (run_stmt (insert_job row))" for row
    by (rule leaves_run_stmt) (auto simp: leaves_def insert_job_def not_jobs_def)
  then show ?thesis
    by (auto simp: leaves_def Enqueue_def Let_def split: sum.splits prod.splits) (metis snd_conv)+
qed

lemma served_Enqueue: "net d = [] \<Longrightarrow> net (snd (Enqueue q jobType body runAt newID now t d)) = []"
  by (auto simp: Enqueue_def insert_job_def Let_def split: sum.splits)

lemma snd_enqueuer: "snd (queueEnqueuer_Enqueue q env c jobType payload d) =
    snd (Enqueue q jobType (marshal_GenerateReportJob payload) 0 (ee_id env) (ee_now env) (ee_server env) d)"
  by (simp add: queueEnqueuer_Enqueue_def split: prod.splits)

lemma leaves_enqueuer: "leaves not_jobs (queueEnqueuer_Enqueue q env c jobType payload)"
  using leaves_Enqueue by (simp add: leaves_def snd_enqueuer)

lemma served_enqueuer: "net d = [] \<Longrightarrow> net (snd (queueEnqueuer_Enqueue q env c jobType payload d)) = []"
  by (simp add: snd_enqueuer served_Enqueue)

interpretation app_reports: report_service PgReportStore pg_reports_view pg_reports_ok db_healthy
    "app_reports cfg" for cfg :: "'f Config"
proof (unfold_locales, goal_cases)
  case (2 s c sr s')
  have "snd (todoSummaryAdapter_Summary svc c s) = snd (Summary svc c s)" for svc
    by (simp add: todoSummaryAdapter_Summary_def split: prod.splits sum.splits)
  with 2 Summary_read [of None "ac_Disabled (cfg_Auth cfg)" c s] obtain xs where "s' = s\<lparr>net := xs\<rparr>"
    by (metis app_reports_simps(3) snd_conv)
  with 2(1) show ?case by simp
next
  case (4 s env c jt pl er s')
  then have "not_jobs s' = not_jobs s"
    using leavesD [OF leaves_enqueuer, of "app_queue0 cfg" env c jt pl s] by simp
  with 4(1) show ?case by (simp add: not_jobs_def pg_reports_view_def pg_reports_ok_def)
qed (simp_all add: db_healthy_def served_summary served_enqueuer)

interpretation app_todos: todo_service PgTodoStore pg_todos_view pg_todos_ok db_healthy
    "app_todos fmtTime cfg env" for fmtTime and cfg :: "'f Config" and env
proof (unfold_locales, goal_cases)
  case (2 b h s c ev)
  then have h: "h = audit_subscriber fmtTime (app_queue0 cfg) env"
    by (auto simp: app_todos_def app_bus_def Subscribe_def NewBus_def)
  let ?E = "Enqueue (app_queue0 cfg) ''todos.audit_created'' (marshal_Todo fmtTime (ev_Payload ev)) 0
      (ee_id env) (ee_now env) (ee_server env)"
  have "snd (h c ev s) = snd (?E s)" unfolding h by (simp add: audit_subscriber_def split: prod.splits)
  with leavesD [OF leaves_Enqueue, of "app_queue0 cfg" "''todos.audit_created''"
      "marshal_Todo fmtTime (ev_Payload ev)" 0 "ee_id env" "ee_now env" "ee_server env" s]
    2(3) show ?case
    by (simp add: served_Enqueue not_jobs_def pg_todos_view_def pg_todos_ok_def db_healthy_def)
qed (simp add: app_todos_def)

subsection \<open>The worker on a database that serves every statement\<close>

text \<open>A reply that is a result or \<open>ErrNoRows\<close>.\<close>

definition only_no_rows :: "(goerr + 'a) \<times> 's \<Rightarrow> bool" where
  "only_no_rows x \<longleftrightarrow> (\<forall>e. fst x = Inl e \<longrightarrow> e = Sentinel SqlErrNoRows)"

lemma only_no_rowsD: "only_no_rows x \<Longrightarrow> x = (Inl e, s) \<Longrightarrow> errors_Is e SqlErrNoRows"
  by (auto simp: only_no_rows_def)

lemma served_no_rows:
  assumes "net d = []"
  shows "only_no_rows (rs_GetReportByID PgReportStore i d)"
    and "only_no_rows (rs_ClaimExecution PgReportStore i now stale d)"
    and "only_no_rows (rs_MarkCompleted PgReportStore i res at d)"
  using assms
  by (auto simp: only_no_rows_def pg_GetReportByID_def pg_ClaimExecution_def pg_MarkCompleted_def
      q_GetReportByID_def q_ClaimReportExecution_def q_MarkReportCompleted_def update_returning_def
      map_row_def split: option.splits prod.splits sum.splits)

lemma authenticated_system [simp]: "authenticated dis (WithPrincipal c system_principal)"
  by (simp add: authenticated_def system_principal_def)

lemma generate_claimed_no_error:
  assumes "net d = []"
  shows "fst (generate_claimed (app_reports cfg) (WithPrincipal c system_principal) i r now' d) = None"
  using Summary_served [OF assms authenticated_system, of None]
  by (auto simp: generate_claimed_def todoSummaryAdapter_Summary_def simp del: PgReportStore_ops
      split: prod.splits sum.splits dest: only_no_rowsD [OF served_no_rows(3) [OF assms]])

lemma generate_no_error:
  assumes "net d = []"
  shows "fst (Generate (app_reports cfg) (WithPrincipal c system_principal) i now now' d) = None"
proof -
  obtain gr d1 where g: "rs_GetReportByID PgReportStore i d = (gr, d1)" by force
  obtain cr d2 where cl: "rs_ClaimExecution PgReportStore i now
      (now - rsv_processingLease (app_reports cfg)) d1 = (cr, d2)" by force
  have net1: "net d1 = []" using served_reports(1) [OF assms, of i] g by simp
  have net2: "net d2 = []"
    using served_reports(2) [OF net1, of i now "now - rsv_processingLease (app_reports cfg)"] cl by simp
  show ?thesis
    using g cl
    by (auto simp: Generate_def Let_def generate_claimed_no_error [OF net2] simp del: PgReportStore_ops
        split: sum.splits dest: only_no_rowsD [OF served_no_rows(1) [OF assms]]
        only_no_rowsD [OF served_no_rows(2) [OF net1]])
qed

lemma app_never_fails: "never_fails (app_queue cfg)"
  unfolding never_fails_def
  by (auto simp: app_queue_handlers generate_handler_def audit_handler_def generate_no_error
      split: if_splits sum.splits)

text \<open>The summary a generation computes: the counts of the todos table.\<close>

definition todo_counts :: "db \<Rightarrow> TodoSummary" where
  "todo_counts d = \<lparr>su_Total = int (length (todos_todos d)),
     su_Completed = int (length (filter tt_Completed (todos_todos d))),
     su_Outstanding = int (length (todos_todos d)) - int (length (filter tt_Completed (todos_todos d)))\<rparr>"

lemma app_generate_success:
  assumes "pg_reports_ok d" and "net d = []" and "pg_reports_view d i = Some r0"
    and "claimable (now - rsv_processingLease (app_reports cfg)) r0" and "supportedType (rp_Type r0)"
  shows "\<exists>d'. Generate (app_reports cfg) (WithPrincipal c system_principal) i now now' d = (None, d') \<and>
    pg_reports_ok d' \<and> net d' = [] \<and>
    pg_reports_view d' = (pg_reports_view d)(i \<mapsto>
      completed (result_text (todo_counts d)) now' (claimed now r0))"
proof -
  let ?stale = "now - rsv_processingLease (app_reports cfg)"
  let ?d2 = "snd (rs_ClaimExecution PgReportStore i now ?stale d)"
  have "todos_todos ?d2 = todos_todos d"
    using leavesD [OF leaves_reports(2), of i now ?stale d] by (simp add: not_reports_def)
  moreover have "net ?d2 = []" by (rule served_reports(2) [OF assms(2)])
  ultimately have "fst (rsv_summaries (app_reports cfg) (WithPrincipal c system_principal) ?d2) =
      Inr (todo_counts d)"
    using Summary_served [of ?d2 "ac_Disabled (cfg_Auth cfg)" "WithPrincipal c system_principal" None]
    by (simp add: todoSummaryAdapter_Summary_def todo_counts_def)
  from app_reports.generate_success [OF assms(1) _ assms(3-5) this, of now'] assms(2) show ?thesis
    by (auto simp: db_healthy_def)
qed

lemma next_job_singleton:
  assumes "\<forall>j \<in> set js. \<not> job_due t j" and "job_due t j"
  shows "next_job t (js @ [j]) = Some j"
proof -
  have "filter (job_due t) js = []" using assms(1) by (simp add: filter_empty_conv)
  then show ?thesis using assms(2) by (simp add: next_job_def order_by_asc_def)
qed

text \<open>A served job of type \<open>reports.generate\<close>.\<close>

lemma app_processOne_generate:
  assumes "net d = []" and "pg_reports_ok d" and "next_job t (platform_jobs d) = Some j"
    and "job_type j = JobGenerate"
    and "unmarshal_GenerateReportJob (job_payload j) = Inr \<lparr>gj_ReportID = i\<rparr>"
    and "pg_reports_view d i = Some r0"
    and "claimable (je_now env - rsv_processingLease (app_reports cfg)) r0" and "supportedType (rp_Type r0)"
  shows "\<exists>d'. processOne (app_queue cfg) env c t t' d =
      (\<lparr>jr_err = None, jr_counted = Some (JobGenerate, ''ok'')\<rparr>, d') \<and> net d' = [] \<and> pg_reports_ok d' \<and>
    platform_jobs d' = update_rows job_id (job_id j) (\<lambda>x. finish_job t' (lock_job t x)) (platform_jobs d) \<and>
    pg_reports_view d' = (pg_reports_view d)(i \<mapsto>
      completed (result_text (todo_counts d)) (je_later env) (claimed (je_now env) r0))"
proof -
  let ?d1 = "d\<lparr>platform_jobs := update_rows job_id (job_id j) (lock_job t) (platform_jobs d)\<rparr>"
  let ?c = "ContextWithAttempt c \<lparr>Attempt = job_attempts j + 1, MaxAttempts = job_max_attempts j\<rparr>"
  have same: "pg_reports_ok ?d1" "net ?d1 = []" "pg_reports_view ?d1 = pg_reports_view d"
    "todo_counts ?d1 = todo_counts d"
    using assms(1,2) by (simp_all add: pg_reports_ok_def pg_reports_view_def todo_counts_def)
  from app_generate_success [OF same(1,2), of i r0 "je_now env" cfg ?c "je_later env"] assms(6-8) same(3,4)
  obtain d2 where g: "Generate (app_reports cfg) (WithPrincipal ?c system_principal) i
      (je_now env) (je_later env) ?d1 = (None, d2)" and d2: "pg_reports_ok d2" "net d2 = []"
    "pg_reports_view d2 = (pg_reports_view d)(i \<mapsto>
      completed (result_text (todo_counts d)) (je_later env) (claimed (je_now env) r0))" by auto
  have h: "q_handlers (app_queue cfg) (job_type j) = Some (generate_handler cfg)"
    by (simp add: app_queue_handlers assms(4))
  have run: "generate_handler cfg env ?c (job_payload j) ?d1 = (None, d2)"
    by (simp add: generate_handler_def assms(5) g)
  show ?thesis
    using app_jobs.processOne_served [OF assms(1,3) h run, of t'] d2 assms(4)
    by (simp add: pg_reports_ok_def pg_reports_view_def)
qed

lemma app_create_report:
  assumes "pg_reports_ok d" and "net d = []" and "pg_reports_view d rid = None"
    and "ee_id env \<notin> job_id ` set (platform_jobs d)" and "int4_range (q_maxAttempts (app_queue0 cfg))"
    and "authenticated (ac_Disabled (cfg_Auth cfg)) c" and "supportedType (cr_Type req)"
  shows "\<exists>r d1 j. CreateReport (app_reports cfg) c req now rid env d = (Inr r, d1) \<and>
    r = new_report rid (fst (FromContext c)) req now \<and>
    pg_reports_ok d1 \<and> net d1 = [] \<and> pg_reports_view d1 = (pg_reports_view d)(rid \<mapsto> r) \<and>
    todos_todos d1 = todos_todos d \<and> platform_jobs d1 = platform_jobs d @ [j] \<and>
    job_type j = JobGenerate \<and> job_run_at j = ee_now env \<and> job_attempts j = 0 \<and>
    job_max_attempts j = q_maxAttempts (app_queue0 cfg) \<and> job_locked_until j = None \<and>
    job_completed_at j = None \<and>
    unmarshal_GenerateReportJob (job_payload j) = Inr \<lparr>gj_ReportID = rid\<rparr>"
proof -
  let ?r = "new_report rid (fst (FromContext c)) req now"
  from app_reports.create_report_healthy [OF assms(1) _ assms(3), of cfg c req now env] assms(2,6,7)
  obtain s1 where s1: "rs_CreateReport PgReportStore ?r d = (Inr ?r, s1)" "net s1 = []"
    and cr: "CreateReport (app_reports cfg) c req now rid env d =
      (Inr ?r, snd (queueEnqueuer_Enqueue (app_queue0 cfg) env c JobGenerate \<lparr>gj_ReportID = rid\<rparr> s1))"
    by (auto simp: db_healthy_def)
  have nr: "todos_todos s1 = todos_todos d" "platform_jobs s1 = platform_jobs d"
    using leavesD [OF leaves_reports(6), of ?r d] s1(1) by (simp_all add: not_reports_def)
  have enq: "snd (queueEnqueuer_Enqueue (app_queue0 cfg) env c JobGenerate \<lparr>gj_ReportID = rid\<rparr> s1) =
    s1\<lparr>platform_jobs := platform_jobs d @
       [\<lparr>job_id = ee_id env, job_type = JobGenerate,
         job_payload = JObj [(''report_id'', JStr (uuid_String rid))],
         job_run_at = ee_now env, job_attempts = 0,
         job_max_attempts = q_maxAttempts (app_queue0 cfg), job_locked_until = None, job_completed_at = None,
         job_last_error = None, job_created_at = ee_server env\<rparr>]\<rparr>"
    using assms(4,5) s1(2) nr
    by (simp add: snd_enqueuer marshal_GenerateReportJob_def Enqueue_served)
  from app_reports.create_report_Inr(4,5) [OF assms(1) cr] cr enq s1(2) nr show ?thesis
    using payload_round_trip [of "\<lparr>gj_ReportID = rid\<rparr>"] by (auto simp: marshal_GenerateReportJob_def)
qed

subsection \<open>Reconciliation\<close>

definition generate_job :: "job_env Queue \<Rightarrow> enq_env \<Rightarrow> uuid \<Rightarrow> Job" where
  "generate_job q env i = \<lparr>job_id = ee_id env, job_type = JobGenerate,
     job_payload = JObj [(''report_id'', JStr (uuid_String i))], job_run_at = ee_now env,
     job_attempts = 0, job_max_attempts = q_maxAttempts q, job_locked_until = None,
     job_completed_at = None, job_last_error = None, job_created_at = ee_server env\<rparr>"

lemma job_id_generate_job [simp]: "job_id (generate_job q env i) = ee_id env"
  by (simp add: generate_job_def)

lemma enqueuer_served:
  assumes "net d = []" and "ee_id env \<notin> job_id ` set (platform_jobs d)" and "int4_range (q_maxAttempts q)"
  shows "queueEnqueuer_Enqueue q env c JobGenerate pl d =
    (None, d\<lparr>platform_jobs := platform_jobs d @ [generate_job q env (gj_ReportID pl)]\<rparr>)"
  using assms
  by (simp add: queueEnqueuer_Enqueue_def marshal_GenerateReportJob_def Enqueue_served generate_job_def)

lemma reconcile_loop_served:
  assumes "net d = []" and "inj_on (\<lambda>n. ee_id (env n)) {k..<k + length rs}"
    and "\<And>n. n \<in> {k..<k + length rs} \<Longrightarrow> ee_id (env n) \<notin> job_id ` set (platform_jobs d)"
    and "int4_range (q_maxAttempts (app_queue0 cfg))"
  shows "reconcile_loop (app_reports cfg) c env k rs d =
    d\<lparr>platform_jobs := platform_jobs d @
        map (\<lambda>(n, r). generate_job (app_queue0 cfg) (env n) (rp_ReportID r)) (zip [k..<k + length rs] rs)\<rparr>"
  using assms(1-3)
proof (induction rs arbitrary: k d)
  case (Cons r rs)
  let ?d1 = "d\<lparr>platform_jobs := platform_jobs d @ [generate_job (app_queue0 cfg) (env k) (rp_ReportID r)]\<rparr>"
  have fresh: "ee_id (env n) \<notin> job_id ` set (platform_jobs ?d1)" if "n \<in> {Suc k..<Suc k + length rs}" for n
    using Cons.prems(3) [of n] that inj_onD [OF Cons.prems(2), of n k] by auto
  have inj: "inj_on (\<lambda>n. ee_id (env n)) {Suc k..<Suc k + length rs}"
    by (rule inj_on_subset [OF Cons.prems(2)]) auto
  have "[k..<k + length (r # rs)] = k # [Suc k..<Suc k + length rs]"
    by (subst upt_conv_Cons) simp_all
  then show ?case
    using Cons.IH [of ?d1 "Suc k", OF _ inj fresh] Cons.prems(1)
      enqueuer_served [OF Cons.prems(1) Cons.prems(3) assms(4), of k c "\<lparr>gj_ReportID = rp_ReportID r\<rparr>"]
    by simp
qed simp

text \<open>The reports a reconciliation at time \<open>now\<close> is after: pending, and not moved for the
  configured time.\<close>

definition stale_pending :: "'f Config \<Rightarrow> time \<Rightarrow> db \<Rightarrow> Report set" where
  "stale_pending cfg now d = {r \<in> ran (pg_reports_view d). rp_Status r = StatusPending \<and>
     rp_UpdatedAt r < now - rsv_reconcileAfter (app_reports cfg)}"

lemma reconcile_served:
  assumes "pg_reports_ok d" and "net d = []"
    and "inj_on (\<lambda>n. ee_id (env n)) {..<card (stale_pending cfg now d)}"
    and "\<And>n. n < card (stale_pending cfg now d) \<Longrightarrow> ee_id (env n) \<notin> job_id ` set (platform_jobs d)"
    and "int4_range (q_maxAttempts (app_queue0 cfg))"
  shows "\<exists>rs. set rs = stale_pending cfg now d \<and> distinct rs \<and>
    ReconcilePending (app_reports cfg) c now env d = (None, d\<lparr>platform_jobs := platform_jobs d @
        map (\<lambda>(n, r). generate_job (app_queue0 cfg) (env n) (rp_ReportID r)) (zip [0..<length rs] rs)\<rparr>)"
proof -
  let ?before = "now - rsv_reconcileAfter (app_reports cfg)"
  obtain rs where l: "rs_ListPendingOlderThan PgReportStore ?before d = (Inr rs, d)"
    using pg_report.pending_healthy [OF assms(1)] assms(2) by (auto simp: db_healthy_def)
  have rs: "set rs = stale_pending cfg now d" "distinct rs"
    using pg_report.pending_Inr [OF assms(1) l] by (auto simp: stale_pending_def)
  have "length rs = card (stale_pending cfg now d)" using rs distinct_card by metis
  then have "reconcile_loop (app_reports cfg) c env 0 rs d = d\<lparr>platform_jobs := platform_jobs d @
        map (\<lambda>(n, r). generate_job (app_queue0 cfg) (env n) (rp_ReportID r)) (zip [0..<0 + length rs] rs)\<rparr>"
    using assms by (intro reconcile_loop_served) (simp_all add: lessThan_atLeast0)
  with rs l show ?thesis
    by (intro exI [of _ rs]) (simp add: ReconcilePending_def Let_def del: PgReportStore_ops)
qed

text \<open>A job whose report is held by another worker, or is gone: done without effect.\<close>

lemma app_processOne_noop:
  assumes "net d = []" and "pg_reports_ok d" and "next_job t (platform_jobs d) = Some j"
    and "job_type j = JobGenerate"
    and "unmarshal_GenerateReportJob (job_payload j) = Inr \<lparr>gj_ReportID = i\<rparr>"
    and "\<And>r. pg_reports_view d i = Some r \<Longrightarrow>
      \<not> claimable (je_now env - rsv_processingLease (app_reports cfg)) r"
  shows "processOne (app_queue cfg) env c t t' d =
      (\<lparr>jr_err = None, jr_counted = Some (JobGenerate, ''ok'')\<rparr>,
       d\<lparr>platform_jobs := update_rows job_id (job_id j) (\<lambda>x. finish_job t' (lock_job t x)) (platform_jobs d)\<rparr>)"
proof -
  let ?d1 = "d\<lparr>platform_jobs := update_rows job_id (job_id j) (lock_job t) (platform_jobs d)\<rparr>"
  let ?c = "ContextWithAttempt c \<lparr>Attempt = job_attempts j + 1, MaxAttempts = job_max_attempts j\<rparr>"
  have same: "pg_reports_ok ?d1" "db_healthy ?d1" "pg_reports_view ?d1 = pg_reports_view d"
    using assms(1,2) by (simp_all add: pg_reports_ok_def pg_reports_view_def db_healthy_def)
  have g: "Generate (app_reports cfg) (WithPrincipal ?c system_principal) i (je_now env) (je_later env) ?d1 = (None, ?d1)"
  proof (cases "pg_reports_view d i")
    case None
    then show ?thesis using app_reports.generate_absent [OF same(1,2), of i] same(3) by simp
  next
    case (Some r)
    then show ?thesis
      using app_reports.generate_not_claimable [OF same(1,2), of i r] same(3) assms(6) by simp
  qed
  have h: "q_handlers (app_queue cfg) (job_type j) = Some (generate_handler cfg)"
    by (simp add: app_queue_handlers assms(4))
  have run: "generate_handler cfg env ?c (job_payload j) ?d1 = (None, ?d1)"
    by (simp add: generate_handler_def assms(5) g)
  show ?thesis using app_jobs.processOne_served [OF assms(1,3) h run, of t'] assms(4) by simp
qed

text \<open>Creating a todo queues its audit job.\<close>

lemma app_create_todo_audit:
  assumes "pg_todos_ok d" and "net d = []" and "pg_todos_view d newID = None"
    and "authenticated (ac_Disabled (cfg_Auth cfg)) c" and "tp_Label req \<noteq> ''''"
    and "ee_id env \<notin> job_id ` set (platform_jobs d)" and "int4_range (q_maxAttempts (app_queue0 cfg))"
    and "\<And>x. \<exists>s. fmtTime x = Inr s"
  shows "\<exists>t d' j. CreateTodo (app_todos fmtTime cfg env) c req now newID d = (Inr t, d') \<and>
    pg_todos_view d' = (pg_todos_view d)(newID \<mapsto> t) \<and>
    platform_jobs d' = platform_jobs d @ [j] \<and> job_type j = ''todos.audit_created''"
proof -
  let ?m = "\<lparr>cp_TodoID = newID, cp_CreatedAt = now, cp_UpdatedAt = now,
             cp_Label = tp_Label req, cp_Completed = tp_Completed req\<rparr>"
  from pg_todo.create_healthy [OF assms(1), of ?m] assms(2,3) obtain d1
    where st: "st_CreateTodo PgTodoStore ?m d = (Inr (created_todo ?m), d1)" and net1: "net d1 = []"
    by (auto simp: db_healthy_def)
  have jobs: "platform_jobs d1 = platform_jobs d"
    using st assms(2) by (auto simp: PgTodoStore_def pg_CreateTodo_def q_CreateTodo_def Let_def
        split: if_splits prod.splits sum.splits)
  obtain b where b: "marshal_Todo fmtTime (created_todo ?m) = Inr b"
    using assms(8) [of now] by (auto simp: marshal_Todo_def created_todo_def)
  have cr: "CreateTodo (app_todos fmtTime cfg env) c req now newID d =
    (Inr (created_todo ?m), d1\<lparr>platform_jobs := platform_jobs d @
       [\<lparr>job_id = ee_id env, job_type = ''todos.audit_created'', job_payload = b,
         job_run_at = ee_now env, job_attempts = 0,
         job_max_attempts = q_maxAttempts (app_queue0 cfg), job_locked_until = None, job_completed_at = None,
         job_last_error = None, job_created_at = ee_server env\<rparr>]\<rparr>)"
    using st assms(4-7) net1 jobs b
    by (simp add: CreateTodo_def app_todos_def Let_def app_bus_def Publish_Subscribe audit_subscriber_def
        Enqueue_served)
  from app_todos.service_create_Inr(4) [OF assms(1) cr] cr show ?thesis by auto
qed

end
