(* ===== verification/Auth_Store.thy ===== *)
theory Auth_Store
  imports Database
begin

text \<open>
  Persistence of the auth domain: the port \<open>auth.Store\<close> (\<open>auth/service.go\<close>), the sqlc
  queries \<open>auth/postgres/auth.sql.go\<close> with the unique and foreign-key constraints of the
  migration, and the adapter \<open>auth/postgres/store.go\<close>. The contract of the port is a
  simulation: on an abstract view (maps by id, by email and by token hash) every operation
  is a function, and an implementation answers as that function does, except that a
  statement may be refused or its reply lost.
\<close>

subsection \<open>The port\<close>

record User =
  us_UserID :: uuid
  us_Email :: string
  us_PasswordHash :: string
  us_Roles :: "string list"
  us_CreatedAt :: time

record Session =
  se_SessionID :: uuid
  se_UserID :: uuid
  se_ExpiresAt :: time

record APIToken =
  tk_TokenID :: uuid
  tk_UserID :: uuid
  tk_TokenHash :: string
  tk_ExpiresAt :: time

record CreateSessionParams =
  csp_SessionID :: uuid
  csp_UserID :: uuid
  csp_ExpiresAt :: time
  csp_CreatedAt :: time

record CreateAPITokenParams =
  cap_TokenID :: uuid
  cap_UserID :: uuid
  cap_TokenHash :: string
  cap_ExpiresAt :: time
  cap_CreatedAt :: time

text \<open>\<open>CreateUserParams\<close> has the fields of \<open>User\<close>.\<close>

type_synonym CreateUserParams = User

record 's AuthStore =
  ast_CreateUser :: "CreateUserParams \<Rightarrow> 's \<Rightarrow> (goerr + User) \<times> 's"
  ast_GetUserByEmail :: "string \<Rightarrow> 's \<Rightarrow> (goerr + User) \<times> 's"
  ast_GetUserByID :: "uuid \<Rightarrow> 's \<Rightarrow> (goerr + User) \<times> 's"
  ast_CreateSession :: "CreateSessionParams \<Rightarrow> 's \<Rightarrow> (goerr + Session) \<times> 's"
  ast_GetSession :: "uuid \<Rightarrow> 's \<Rightarrow> (goerr + Session) \<times> 's"
  ast_DeleteSession :: "uuid \<Rightarrow> 's \<Rightarrow> (goerr + unit) \<times> 's"
  ast_CreateAPIToken :: "CreateAPITokenParams \<Rightarrow> 's \<Rightarrow> (goerr + APIToken) \<times> 's"
  ast_GetAPITokenByHash :: "string \<Rightarrow> 's \<Rightarrow> (goerr + APIToken) \<times> 's"

subsection \<open>The abstract store\<close>

record auth_view =
  av_users :: "uuid \<Rightarrow> User option"
  av_emails :: "string \<Rightarrow> User option"
  av_sessions :: "uuid \<Rightarrow> Session option"
  av_token_ids :: "uuid set"
  av_tokens :: "string \<Rightarrow> APIToken option"

definition new_session :: "CreateSessionParams \<Rightarrow> Session" where
  "new_session p = \<lparr>se_SessionID = csp_SessionID p, se_UserID = csp_UserID p, se_ExpiresAt = csp_ExpiresAt p\<rparr>"

definition new_token :: "CreateAPITokenParams \<Rightarrow> APIToken" where
  "new_token p = \<lparr>tk_TokenID = cap_TokenID p, tk_UserID = cap_UserID p,
     tk_TokenHash = cap_TokenHash p, tk_ExpiresAt = cap_ExpiresAt p\<rparr>"

definition found :: "'a option \<Rightarrow> goerr + 'a" where
  "found x = (case x of None \<Rightarrow> Inl (Sentinel SqlErrNoRows) | Some y \<Rightarrow> Inr y)"

lemma found_simps [simp]:
  "found None = Inl (Sentinel SqlErrNoRows)" "found (Some y) = Inr y"
  "found x = Inr y \<longleftrightarrow> x = Some y"
  by (auto simp: found_def split: option.splits)

type_synonym 'a auth_spec = "auth_view \<Rightarrow> (goerr + 'a) \<times> auth_view"

definition spec_CreateUser :: "CreateUserParams \<Rightarrow> User auth_spec" where
  "spec_CreateUser u v =
     (if av_users v (us_UserID u) \<noteq> None \<or> av_emails v (us_Email u) \<noteq> None
      then (Inl duplicate_key, v)
      else (Inr u, v\<lparr>av_users := (av_users v)(us_UserID u \<mapsto> u),
                      av_emails := (av_emails v)(us_Email u \<mapsto> u)\<rparr>))"

definition spec_GetUserByEmail :: "string \<Rightarrow> User auth_spec" where
  "spec_GetUserByEmail e v = (found (av_emails v e), v)"

definition spec_GetUserByID :: "uuid \<Rightarrow> User auth_spec" where
  "spec_GetUserByID i v = (found (av_users v i), v)"

definition spec_CreateSession :: "CreateSessionParams \<Rightarrow> Session auth_spec" where
  "spec_CreateSession p v =
     (if av_sessions v (csp_SessionID p) \<noteq> None then (Inl duplicate_key, v)
      else if av_users v (csp_UserID p) = None then (Inl foreign_key, v)
      else (Inr (new_session p), v\<lparr>av_sessions := (av_sessions v)(csp_SessionID p \<mapsto> new_session p)\<rparr>))"

definition spec_GetSession :: "uuid \<Rightarrow> Session auth_spec" where
  "spec_GetSession i v = (found (av_sessions v i), v)"

definition spec_DeleteSession :: "uuid \<Rightarrow> unit auth_spec" where
  "spec_DeleteSession i v = (Inr (), v\<lparr>av_sessions := (av_sessions v)(i := None)\<rparr>)"

definition spec_CreateAPIToken :: "CreateAPITokenParams \<Rightarrow> APIToken auth_spec" where
  "spec_CreateAPIToken p v =
     (if cap_TokenID p \<in> av_token_ids v \<or> av_tokens v (cap_TokenHash p) \<noteq> None then (Inl duplicate_key, v)
      else if av_users v (cap_UserID p) = None then (Inl foreign_key, v)
      else (Inr (new_token p), v\<lparr>av_token_ids := insert (cap_TokenID p) (av_token_ids v),
                                  av_tokens := (av_tokens v)(cap_TokenHash p \<mapsto> new_token p)\<rparr>))"

definition spec_GetAPITokenByHash :: "string \<Rightarrow> APIToken auth_spec" where
  "spec_GetAPITokenByHash h v = (found (av_tokens v h), v)"

lemmas auth_specs =
  spec_CreateUser_def spec_GetUserByEmail_def spec_GetUserByID_def spec_CreateSession_def
  spec_GetSession_def spec_DeleteSession_def spec_CreateAPIToken_def spec_GetAPITokenByHash_def

definition implements ::
  "('s \<Rightarrow> auth_view) \<Rightarrow> ('s \<Rightarrow> bool) \<Rightarrow> ('s \<Rightarrow> bool) \<Rightarrow> ('s \<Rightarrow> (goerr + 'a) \<times> 's) \<Rightarrow> 'a auth_spec \<Rightarrow> bool" where
  "implements view invar healthy op spec \<longleftrightarrow>
     (\<forall>s r s'. invar s \<longrightarrow> op s = (r, s') \<longrightarrow>
        invar s' \<and>
        ((r, view s') = spec (view s) \<or>
         (\<not> healthy s \<and> (\<exists>m. r = Inl (OtherErr m)) \<and>
          (view s' = view s \<or> view s' = snd (spec (view s))))) \<and>
        (healthy s \<longrightarrow> healthy s'))"

lemma implementsD:
  assumes "implements view invar healthy op spec" and "invar s" and "op s = (r, s')"
  shows "invar s'"
    and "r = Inr x \<Longrightarrow> spec (view s) = (Inr x, view s')"
    and "healthy s \<Longrightarrow> spec (view s) = (r, view s')" and "healthy s \<Longrightarrow> healthy s'"
    and "view s' = view s \<or> view s' = snd (spec (view s))"
proof -
  have post: "invar s' \<and>
        ((r, view s') = spec (view s) \<or>
         (\<not> healthy s \<and> (\<exists>m. r = Inl (OtherErr m)) \<and>
          (view s' = view s \<or> view s' = snd (spec (view s))))) \<and>
        (healthy s \<longrightarrow> healthy s')"
    using assms unfolding implements_def by blast
  then show "invar s'" "healthy s \<Longrightarrow> healthy s'" "r = Inr x \<Longrightarrow> spec (view s) = (Inr x, view s')"
    "healthy s \<Longrightarrow> spec (view s) = (r, view s')" by auto
  from post show "view s' = view s \<or> view s' = snd (spec (view s))" by (metis snd_conv)
qed

text \<open>The same as a rewrite: on a healthy state the answer is the specification's.\<close>

lemma implements_run:
  assumes "implements view invar healthy op spec" and "invar s" and "healthy s"
  shows "\<exists>s'. op s = (fst (spec (view s)), s') \<and> view s' = snd (spec (view s)) \<and> invar s' \<and> healthy s'"
proof -
  obtain r s' where op: "op s = (r, s')" by force
  from implementsD(1,3,4) [OF assms(1,2) op] assms(3) op show ?thesis by auto
qed

locale auth_store =
  fixes st :: "'s AuthStore"
    and view :: "'s \<Rightarrow> auth_view"
    and invar :: "'s \<Rightarrow> bool"
    and healthy :: "'s \<Rightarrow> bool"
  assumes create_user: "implements view invar healthy (ast_CreateUser st u) (spec_CreateUser u)"
    and by_email: "implements view invar healthy (ast_GetUserByEmail st e) (spec_GetUserByEmail e)"
    and by_id: "implements view invar healthy (ast_GetUserByID st i) (spec_GetUserByID i)"
    and create_session: "implements view invar healthy (ast_CreateSession st p) (spec_CreateSession p)"
    and get_session: "implements view invar healthy (ast_GetSession st i) (spec_GetSession i)"
    and delete_session: "implements view invar healthy (ast_DeleteSession st i) (spec_DeleteSession i)"
    and create_token: "implements view invar healthy (ast_CreateAPIToken st q) (spec_CreateAPIToken q)"
    and by_hash: "implements view invar healthy (ast_GetAPITokenByHash st h) (spec_GetAPITokenByHash h)"
    and users_keyed: "invar s \<Longrightarrow> av_users (view s) i = Some w \<Longrightarrow> us_UserID w = i"
    and emails_keyed: "invar s \<Longrightarrow> av_emails (view s) e = Some w \<Longrightarrow>
      us_Email w = e \<and> av_users (view s) (us_UserID w) = Some w"
    and sessions_owned: "invar s \<Longrightarrow> av_sessions (view s) i = Some x \<Longrightarrow> av_users (view s) (se_UserID x) \<noteq> None"
    and tokens_owned: "invar s \<Longrightarrow> av_tokens (view s) h = Some t \<Longrightarrow> av_users (view s) (tk_UserID t) \<noteq> None"

subsection \<open>Queries\<close>

definition q_CreateUser :: "AuthUser \<Rightarrow> db \<Rightarrow> (goerr + AuthUser) \<times> db" where
  "q_CreateUser row = run_stmt (\<lambda>d.
     if au_UserID row \<in> au_UserID ` set (auth_users d) \<or> au_Email row \<in> au_Email ` set (auth_users d)
     then (Inl duplicate_key, d)
     else (Inr row, d\<lparr>auth_users := insert_row row (auth_users d)\<rparr>))"

definition q_CreateSession :: "AuthSession \<Rightarrow> db \<Rightarrow> (goerr + AuthSession) \<times> db" where
  "q_CreateSession row = run_stmt (\<lambda>d.
     if as_SessionID row \<in> as_SessionID ` set (auth_sessions d) then (Inl duplicate_key, d)
     else if as_UserID row \<notin> au_UserID ` set (auth_users d) then (Inl foreign_key, d)
     else (Inr row, d\<lparr>auth_sessions := insert_row row (auth_sessions d)\<rparr>))"

definition q_CreateAPIToken :: "AuthApiToken \<Rightarrow> db \<Rightarrow> (goerr + AuthApiToken) \<times> db" where
  "q_CreateAPIToken row = run_stmt (\<lambda>d.
     if at_TokenID row \<in> at_TokenID ` set (auth_api_tokens d) \<or>
        at_TokenHash row \<in> at_TokenHash ` set (auth_api_tokens d) then (Inl duplicate_key, d)
     else if at_UserID row \<notin> au_UserID ` set (auth_users d) then (Inl foreign_key, d)
     else (Inr row, d\<lparr>auth_api_tokens := insert_row row (auth_api_tokens d)\<rparr>))"

definition q_DeleteAPIToken :: "uuid \<Rightarrow> db \<Rightarrow> (goerr + unit) \<times> db" where
  "q_DeleteAPIToken tokenID = run_stmt (\<lambda>d.
     (Inr (), d\<lparr>auth_api_tokens := delete_rows at_TokenID tokenID (auth_api_tokens d)\<rparr>))"

definition q_DeleteSession :: "uuid \<Rightarrow> db \<Rightarrow> (goerr + unit) \<times> db" where
  "q_DeleteSession sessionID = run_stmt (\<lambda>d.
     (Inr (), d\<lparr>auth_sessions := delete_rows as_SessionID sessionID (auth_sessions d)\<rparr>))"

definition q_GetAPITokenByHash :: "string \<Rightarrow> db \<Rightarrow> (goerr + AuthApiToken) \<times> db" where
  "q_GetAPITokenByHash h = run_stmt (\<lambda>d. (found (select_row at_TokenHash h (auth_api_tokens d)), d))"

definition q_GetSession :: "uuid \<Rightarrow> db \<Rightarrow> (goerr + AuthSession) \<times> db" where
  "q_GetSession i = run_stmt (\<lambda>d. (found (select_row as_SessionID i (auth_sessions d)), d))"

definition q_GetUserByEmail :: "string \<Rightarrow> db \<Rightarrow> (goerr + AuthUser) \<times> db" where
  "q_GetUserByEmail e = run_stmt (\<lambda>d. (found (select_row au_Email e (auth_users d)), d))"

definition q_GetUserByID :: "uuid \<Rightarrow> db \<Rightarrow> (goerr + AuthUser) \<times> db" where
  "q_GetUserByID i = run_stmt (\<lambda>d. (found (select_row au_UserID i (auth_users d)), d))"

subsection \<open>Adapter\<close>

definition mapUser :: "AuthUser \<Rightarrow> User" where
  "mapUser u = \<lparr>us_UserID = au_UserID u, us_Email = au_Email u, us_PasswordHash = au_PasswordHash u,
     us_Roles = au_Roles u, us_CreatedAt = au_CreatedAt u\<rparr>"

definition map_session :: "AuthSession \<Rightarrow> Session" where
  "map_session row = \<lparr>se_SessionID = as_SessionID row, se_UserID = as_UserID row, se_ExpiresAt = as_ExpiresAt row\<rparr>"

definition map_token :: "AuthApiToken \<Rightarrow> APIToken" where
  "map_token row = \<lparr>tk_TokenID = at_TokenID row, tk_UserID = at_UserID row,
     tk_TokenHash = at_TokenHash row, tk_ExpiresAt = at_ExpiresAt row\<rparr>"

definition mapped :: "('r \<Rightarrow> 'a) \<Rightarrow> (goerr + 'r) \<times> db \<Rightarrow> (goerr + 'a) \<times> db" where
  "mapped f x = (case x of (Inl err, d) \<Rightarrow> (Inl err, d) | (Inr row, d) \<Rightarrow> (Inr (f row), d))"

definition pg_CreateUser :: "CreateUserParams \<Rightarrow> db \<Rightarrow> (goerr + User) \<times> db" where
  "pg_CreateUser arg d = mapped mapUser (q_CreateUser
     \<lparr>au_UserID = us_UserID arg, au_Email = us_Email arg, au_PasswordHash = us_PasswordHash arg,
      au_Roles = us_Roles arg, au_CreatedAt = us_CreatedAt arg\<rparr> d)"

definition pg_GetUserByEmail :: "string \<Rightarrow> db \<Rightarrow> (goerr + User) \<times> db" where
  "pg_GetUserByEmail e d = mapped mapUser (q_GetUserByEmail e d)"

definition pg_GetUserByID :: "uuid \<Rightarrow> db \<Rightarrow> (goerr + User) \<times> db" where
  "pg_GetUserByID i d = mapped mapUser (q_GetUserByID i d)"

definition pg_CreateSession :: "CreateSessionParams \<Rightarrow> db \<Rightarrow> (goerr + Session) \<times> db" where
  "pg_CreateSession arg d = mapped map_session (q_CreateSession
     \<lparr>as_SessionID = csp_SessionID arg, as_UserID = csp_UserID arg, as_ExpiresAt = csp_ExpiresAt arg,
      as_CreatedAt = csp_CreatedAt arg\<rparr> d)"

definition pg_GetSession :: "uuid \<Rightarrow> db \<Rightarrow> (goerr + Session) \<times> db" where
  "pg_GetSession i d = mapped map_session (q_GetSession i d)"

definition pg_DeleteSession :: "uuid \<Rightarrow> db \<Rightarrow> (goerr + unit) \<times> db" where
  "pg_DeleteSession i d = q_DeleteSession i d"

definition pg_CreateAPIToken :: "CreateAPITokenParams \<Rightarrow> db \<Rightarrow> (goerr + APIToken) \<times> db" where
  "pg_CreateAPIToken arg d = mapped map_token (q_CreateAPIToken
     \<lparr>at_TokenID = cap_TokenID arg, at_UserID = cap_UserID arg, at_TokenHash = cap_TokenHash arg,
      at_ExpiresAt = cap_ExpiresAt arg, at_CreatedAt = cap_CreatedAt arg\<rparr> d)"

definition pg_GetAPITokenByHash :: "string \<Rightarrow> db \<Rightarrow> (goerr + APIToken) \<times> db" where
  "pg_GetAPITokenByHash h d = mapped map_token (q_GetAPITokenByHash h d)"

definition PgAuthStore :: "db AuthStore" where
  "PgAuthStore = \<lparr>ast_CreateUser = pg_CreateUser, ast_GetUserByEmail = pg_GetUserByEmail,
     ast_GetUserByID = pg_GetUserByID, ast_CreateSession = pg_CreateSession,
     ast_GetSession = pg_GetSession, ast_DeleteSession = pg_DeleteSession,
     ast_CreateAPIToken = pg_CreateAPIToken, ast_GetAPITokenByHash = pg_GetAPITokenByHash\<rparr>"

subsection \<open>The adapter implements the abstract store\<close>

definition pg_auth_view :: "db \<Rightarrow> auth_view" where
  "pg_auth_view d =
     \<lparr>av_users = (\<lambda>i. map_option mapUser (select_row au_UserID i (auth_users d))),
      av_emails = (\<lambda>e. map_option mapUser (select_row au_Email e (auth_users d))),
      av_sessions = (\<lambda>i. map_option map_session (select_row as_SessionID i (auth_sessions d))),
      av_token_ids = at_TokenID ` set (auth_api_tokens d),
      av_tokens = (\<lambda>h. map_option map_token (select_row at_TokenHash h (auth_api_tokens d)))\<rparr>"

definition pg_auth_ok :: "db \<Rightarrow> bool" where
  "pg_auth_ok d \<longleftrightarrow>
     keyed au_UserID (auth_users d) \<and> keyed au_Email (auth_users d) \<and>
     keyed as_SessionID (auth_sessions d) \<and>
     keyed at_TokenID (auth_api_tokens d) \<and> keyed at_TokenHash (auth_api_tokens d) \<and>
     (\<forall>x \<in> set (auth_sessions d). as_UserID x \<in> au_UserID ` set (auth_users d)) \<and>
     (\<forall>x \<in> set (auth_api_tokens d). at_UserID x \<in> au_UserID ` set (auth_users d))"

lemma pg_auth_net [simp]:
  "pg_auth_view (d\<lparr>net := xs\<rparr>) = pg_auth_view d" "pg_auth_ok (d\<lparr>net := xs\<rparr>) = pg_auth_ok d"
  by (simp_all add: pg_auth_view_def pg_auth_ok_def)

text \<open>A statement that behaves as its specification makes a round trip that implements it.\<close>

lemma run_stmt_implements:
  assumes stmt: "\<And>d. pg_auth_ok d \<Longrightarrow> pg_auth_ok (snd (stmt d)) \<and> net (snd (stmt d)) = net d \<and>
      (map_sum id f (fst (stmt d)), pg_auth_view (snd (stmt d))) = spec (pg_auth_view d)"
    and op: "\<And>d. op d = mapped f (run_stmt stmt d)"
  shows "implements pg_auth_view pg_auth_ok (\<lambda>d. net d = []) op spec"
  unfolding implements_def
proof (intro allI impI)
  fix d r d' assume ok: "pg_auth_ok d" and o: "op d = (r, d')"
  obtain q where q: "run_stmt stmt d = (q, d')" and r: "r = map_sum id f q"
    using o op by (cases "run_stmt stmt d") (auto simp: mapped_def split: sum.splits)
  have healthy: "net d' = []" if "net d = []"
    using q that stmt [OF ok] by (metis run_stmt_served snd_conv)
  have full: "(r, pg_auth_view d') = spec (pg_auth_view d)" if "net d = []"
    using q that stmt [OF ok] r by (metis fst_conv run_stmt_served snd_conv)
  from q show "pg_auth_ok d' \<and>
        ((r, pg_auth_view d') = spec (pg_auth_view d) \<or>
         (net d \<noteq> [] \<and> (\<exists>m. r = Inl (OtherErr m)) \<and>
          (pg_auth_view d' = pg_auth_view d \<or> pg_auth_view d' = snd (spec (pg_auth_view d))))) \<and>
        (net d = [] \<longrightarrow> net d' = [])"
  proof (cases rule: run_stmt_cases)
    case (reply xs)
    with stmt [of "d\<lparr>net := xs\<rparr>"] ok r healthy show ?thesis by auto
  next
    case (refused m xs)
    with ok r healthy full show ?thesis by (cases "net d = []") auto
  next
    case (unacked m xs)
    with stmt [of "d\<lparr>net := xs\<rparr>"] ok r healthy full show ?thesis
      by (cases "net d = []") (auto simp: prod_eq_iff)
  qed
qed

lemmas auth_reading = auth_specs pg_auth_view_def map_option_is_None

lemma select_insert:
  "select_row key k (insert_row r rows) =
     (if k \<in> key ` set rows then select_row key k rows else if key r = k then Some r else None)"
proof (cases "k \<in> key ` set rows")
  case True
  then have "select_row key k rows \<noteq> None" by (simp only: select_row_None not_not)
  then obtain x where "select_row key k rows = Some x" by blast
  with True show ?thesis by (simp add: row_simps)
next
  case False
  then have "select_row key k rows = None" by (simp add: select_row_None)
  with False show ?thesis by (simp add: row_simps)
qed

lemma select_mem: "k \<in> key ` set rows \<longleftrightarrow> select_row key k rows \<noteq> None"
  by (simp add: select_row_None)

lemma found_map: "map_sum id f (found x) = found (map_option f x)"
  by (cases x) simp_all

lemma pg_reads:
  "implements pg_auth_view pg_auth_ok (\<lambda>d. net d = []) (pg_GetUserByEmail e) (spec_GetUserByEmail e)"
  "implements pg_auth_view pg_auth_ok (\<lambda>d. net d = []) (pg_GetUserByID i) (spec_GetUserByID i)"
  "implements pg_auth_view pg_auth_ok (\<lambda>d. net d = []) (pg_GetSession j) (spec_GetSession j)"
  "implements pg_auth_view pg_auth_ok (\<lambda>d. net d = []) (pg_GetAPITokenByHash h) (spec_GetAPITokenByHash h)"
  by (rule run_stmt_implements [OF _ pg_GetUserByEmail_def [unfolded q_GetUserByEmail_def]]
      run_stmt_implements [OF _ pg_GetUserByID_def [unfolded q_GetUserByID_def]]
      run_stmt_implements [OF _ pg_GetSession_def [unfolded q_GetSession_def]]
      run_stmt_implements [OF _ pg_GetAPITokenByHash_def [unfolded q_GetAPITokenByHash_def]],
      simp add: auth_specs pg_auth_view_def found_map)+

lemma fun_upd_select:
  assumes "key r \<notin> key ` set rows"
  shows "(\<lambda>k. map_option f (select_row key k (insert_row r rows))) =
    (\<lambda>k. map_option f (select_row key k rows))(key r \<mapsto> f r)"
  using assms by (auto simp: fun_eq_iff select_insert select_row_None [THEN iffD2])

lemma pg_CreateUser_implements:
  "implements pg_auth_view pg_auth_ok (\<lambda>d. net d = []) (pg_CreateUser u) (spec_CreateUser u)"
proof (rule run_stmt_implements [OF _ pg_CreateUser_def [unfolded q_CreateUser_def]], goal_cases)
  case (1 d)
  let ?row = "\<lparr>au_UserID = us_UserID u, au_Email = us_Email u, au_PasswordHash = us_PasswordHash u,
      au_Roles = us_Roles u, au_CreatedAt = us_CreatedAt u\<rparr>"
  have row: "mapUser ?row = u" by (simp add: mapUser_def)
  show ?case
  proof (cases "us_UserID u \<in> au_UserID ` set (auth_users d) \<or> us_Email u \<in> au_Email ` set (auth_users d)")
    case True
    with 1 show ?thesis by (auto simp: auth_reading select_mem)
  next
    case False
    with fun_upd_select [of au_UserID ?row "auth_users d" mapUser]
      fun_upd_select [of au_Email ?row "auth_users d" mapUser]
    show ?thesis using 1
      by (auto simp: auth_reading row pg_auth_ok_def select_row_None [THEN iffD2])
  qed
qed

lemma pg_CreateSession_implements:
  "implements pg_auth_view pg_auth_ok (\<lambda>d. net d = []) (pg_CreateSession p) (spec_CreateSession p)"
proof (rule run_stmt_implements [OF _ pg_CreateSession_def [unfolded q_CreateSession_def]], goal_cases)
  case (1 d)
  let ?row = "\<lparr>as_SessionID = csp_SessionID p, as_UserID = csp_UserID p, as_ExpiresAt = csp_ExpiresAt p,
      as_CreatedAt = csp_CreatedAt p\<rparr>"
  have row: "map_session ?row = new_session p" by (simp add: map_session_def new_session_def)
  show ?case
  proof (cases "csp_SessionID p \<in> as_SessionID ` set (auth_sessions d) \<or>
      csp_UserID p \<notin> au_UserID ` set (auth_users d)")
    case True
    with 1 show ?thesis by (auto simp: auth_reading select_mem)
  next
    case False
    with fun_upd_select [of as_SessionID ?row "auth_sessions d" map_session]
    show ?thesis using 1
      by (auto simp: auth_reading row pg_auth_ok_def select_row_None [THEN iffD2] select_row_None)
  qed
qed

lemma pg_CreateAPIToken_implements:
  "implements pg_auth_view pg_auth_ok (\<lambda>d. net d = []) (pg_CreateAPIToken p) (spec_CreateAPIToken p)"
proof (rule run_stmt_implements [OF _ pg_CreateAPIToken_def [unfolded q_CreateAPIToken_def]], goal_cases)
  case (1 d)
  let ?row = "\<lparr>at_TokenID = cap_TokenID p, at_UserID = cap_UserID p, at_TokenHash = cap_TokenHash p,
      at_ExpiresAt = cap_ExpiresAt p, at_CreatedAt = cap_CreatedAt p\<rparr>"
  have row: "map_token ?row = new_token p" by (simp add: map_token_def new_token_def)
  show ?case
  proof (cases "cap_TokenID p \<in> at_TokenID ` set (auth_api_tokens d) \<or>
      cap_TokenHash p \<in> at_TokenHash ` set (auth_api_tokens d) \<or>
      cap_UserID p \<notin> au_UserID ` set (auth_users d)")
    case True
    with 1 show ?thesis by (auto simp: auth_reading select_mem)
  next
    case False
    with fun_upd_select [of at_TokenHash ?row "auth_api_tokens d" map_token]
    show ?thesis using 1
      by (auto simp: auth_reading row pg_auth_ok_def select_row_None [THEN iffD2] select_row_None)
  qed
qed

lemma pg_DeleteSession_implements:
  "implements pg_auth_view pg_auth_ok (\<lambda>d. net d = []) (pg_DeleteSession i) (spec_DeleteSession i)"
proof (rule run_stmt_implements [where f = id and stmt = "\<lambda>d. (Inr (), d\<lparr>auth_sessions :=
      delete_rows as_SessionID i (auth_sessions d)\<rparr>)"], goal_cases)
  case (1 d)
  then show ?case
    by (auto simp: auth_reading pg_auth_ok_def row_simps keyed_delete fun_eq_iff)
next
  case (2 d)
  show ?case
    by (simp add: pg_DeleteSession_def q_DeleteSession_def mapped_def split: sum.splits prod.splits)
qed

lemma PgAuthStore_ops [simp]:
  "ast_CreateUser PgAuthStore = pg_CreateUser" "ast_GetUserByEmail PgAuthStore = pg_GetUserByEmail"
  "ast_GetUserByID PgAuthStore = pg_GetUserByID" "ast_CreateSession PgAuthStore = pg_CreateSession"
  "ast_GetSession PgAuthStore = pg_GetSession" "ast_DeleteSession PgAuthStore = pg_DeleteSession"
  "ast_CreateAPIToken PgAuthStore = pg_CreateAPIToken"
  "ast_GetAPITokenByHash PgAuthStore = pg_GetAPITokenByHash"
  by (simp_all add: PgAuthStore_def)

lemma mapped_sel [simp]:
  "us_UserID (mapUser u) = au_UserID u" "us_Email (mapUser u) = au_Email u"
  "se_UserID (map_session x) = as_UserID x" "tk_UserID (map_token t) = at_UserID t"
  by (simp_all add: mapUser_def map_session_def map_token_def)

interpretation pg_auth: auth_store PgAuthStore pg_auth_view pg_auth_ok "\<lambda>d. net d = []"
proof (unfold_locales, unfold PgAuthStore_ops, goal_cases)
  case (9 d i w)
  then show ?case by (auto simp: pg_auth_view_def dest: select_row_Some)
next
  case (10 d e w)
  then obtain x where x: "select_row au_Email e (auth_users d) = Some x" "w = mapUser x"
    by (auto simp: pg_auth_view_def)
  with 10(1) select_row_mem [of au_UserID "auth_users d" x] show ?case
    by (auto simp: pg_auth_view_def pg_auth_ok_def dest: select_row_Some)
next
  case (11 d i x)
  then show ?case
    by (auto simp: pg_auth_view_def pg_auth_ok_def select_row_None dest!: select_row_Some)
next
  case (12 d h t)
  then show ?case
    by (auto simp: pg_auth_view_def pg_auth_ok_def select_row_None dest!: select_row_Some)
qed (rule pg_reads pg_CreateUser_implements pg_CreateSession_implements
      pg_CreateAPIToken_implements pg_DeleteSession_implements)+

end
