(* ===== verification/Sha256.thy ===== *)
theory Sha256
  imports Uuid
begin

text \<open>
  Package \<open>crypto/sha256\<close> as the program uses it, \<open>Sum256\<close>, following FIPS 180-4 on 32-bit
  words. The program relies on two things proved here: the digest always has 32 bytes, and
  its text form (\<open>hex.EncodeToString\<close>) has 64 characters and determines the digest.
\<close>

type_synonym word32 = "32 word"

text \<open>
  The constants: the first 32 bits of the fractional parts of the square roots of the first
  8 primes and of the cube roots of the first 64.
\<close>

definition int_root :: "nat \<Rightarrow> int \<Rightarrow> int" where
  "int_root k n = foldl (\<lambda>r b. if (r + 2 ^ b) ^ k \<le> n then r + 2 ^ b else r) 0 (rev [0..<40])"

definition first_bits :: "nat \<Rightarrow> int \<Rightarrow> word32" where
  "first_bits k p = word_of_int (int_root k (p * 2 ^ (32 * k)))"

definition sha_primes :: "int list" where
  "sha_primes = map int (filter (\<lambda>n. \<forall>d \<in> set [2..<n]. n mod d \<noteq> 0) [2..<312])"

definition sha_K :: "word32 list" where
  "sha_K = map (first_bits 3) sha_primes"

type_synonym sha_state =
  "word32 \<times> word32 \<times> word32 \<times> word32 \<times> word32 \<times> word32 \<times> word32 \<times> word32"

definition sha_init :: sha_state where
  "sha_init = (case map (first_bits 2) (take 8 sha_primes) of
     [a, b, c, d, e, f, g, h] \<Rightarrow> (a, b, c, d, e, f, g, h))"

definition rotr32 :: "nat \<Rightarrow> word32 \<Rightarrow> word32" where
  "rotr32 n x = drop_bit n x OR push_bit (32 - n) x"

definition be32 :: "byte list \<Rightarrow> word32" where
  "be32 bs = word_of_int (foldl (\<lambda>a b. a * 256 + uint b) 0 bs)"

definition bytes_of_word :: "word32 \<Rightarrow> byte list" where
  "bytes_of_word w = [ucast (drop_bit 24 w), ucast (drop_bit 16 w), ucast (drop_bit 8 w), ucast w]"

fun chunks :: "nat \<Rightarrow> 'a list \<Rightarrow> 'a list list" where
  "chunks n xs = (if n = 0 \<or> xs = [] then [] else take n xs # chunks n (drop n xs))"

declare chunks.simps [simp del]

text \<open>The message schedule, newest word first.\<close>

fun sha_extend :: "nat \<Rightarrow> word32 list \<Rightarrow> word32 list" where
  "sha_extend 0 ws = ws"
| "sha_extend (Suc k) ws =
     (let w2 = ws ! 1; w7 = ws ! 6; w15 = ws ! 14; w16 = ws ! 15;
          s0 = rotr32 7 w15 XOR rotr32 18 w15 XOR drop_bit 3 w15;
          s1 = rotr32 17 w2 XOR rotr32 19 w2 XOR drop_bit 10 w2
      in sha_extend k ((w16 + s0 + w7 + s1) # ws))"

definition sha_round :: "sha_state \<Rightarrow> word32 \<times> word32 \<Rightarrow> sha_state" where
  "sha_round st kw =
     (case st of (a, b, c, d, e, f, g, h) \<Rightarrow> case kw of (k, w) \<Rightarrow>
        let S1 = rotr32 6 e XOR rotr32 11 e XOR rotr32 25 e;
            ch = (e AND f) XOR (NOT e AND g);
            t1 = h + S1 + ch + k + w;
            S0 = rotr32 2 a XOR rotr32 13 a XOR rotr32 22 a;
            maj = (a AND b) XOR (a AND c) XOR (b AND c);
            t2 = S0 + maj
        in (t1 + t2, a, b, c, d + t1, e, f, g))"

definition sha_block :: "sha_state \<Rightarrow> byte list \<Rightarrow> sha_state" where
  "sha_block st blk =
     (let ws = rev (sha_extend 48 (rev (map be32 (chunks 4 blk)))) in
      case st of (a, b, c, d, e, f, g, h) \<Rightarrow>
      case foldl sha_round st (zip sha_K ws) of (a', b', c', d', e', f', g', h') \<Rightarrow>
        (a + a', b + b', c + c', d + d', e + e', f + f', g + g', h + h'))"

definition sha_pad :: "byte list \<Rightarrow> byte list" where
  "sha_pad m =
     (let len = length m;
          zeros = (64 - (len + 9) mod 64) mod 64;
          bits = of_nat (8 * len) :: 64 word
      in m @ [0x80] @ replicate zeros 0 @
         [ucast (drop_bit 56 bits), ucast (drop_bit 48 bits), ucast (drop_bit 40 bits),
          ucast (drop_bit 32 bits), ucast (drop_bit 24 bits), ucast (drop_bit 16 bits),
          ucast (drop_bit 8 bits), ucast bits])"

definition Sum256 :: "byte list \<Rightarrow> byte list" where
  "Sum256 m =
     (case foldl sha_block sha_init (chunks 64 (sha_pad m)) of (a, b, c, d, e, f, g, h) \<Rightarrow>
        concat (map bytes_of_word [a, b, c, d, e, f, g, h]))"

text \<open>\<open>[]byte(s)\<close>.\<close>

definition string_bytes :: "string \<Rightarrow> byte list" where
  "string_bytes s = map (\<lambda>c. of_nat (of_char c)) s"

definition tokenHash :: "string \<Rightarrow> string" where
  "tokenHash token = EncodeToString (Sum256 (string_bytes token))"

lemma length_Sum256 [simp]: "length (Sum256 m) = 32"
  by (simp add: Sum256_def bytes_of_word_def split: prod.splits)

lemma length_EncodeToString: "length (EncodeToString bs) = 2 * length bs"
  by (induction bs) (auto simp: EncodeToString_def)

lemma length_tokenHash: "length (tokenHash t) = 64"
  by (simp add: tokenHash_def length_EncodeToString)

lemma hexEncodeByte_inject: "hexEncodeByte a = hexEncodeByte b \<longleftrightarrow> a = b"
proof
  assume "hexEncodeByte a = hexEncodeByte b"
  then have "xtob (hexEncodeByte a ! 0) (hexEncodeByte a ! 1) = xtob (hexEncodeByte b ! 0) (hexEncodeByte b ! 1)"
    by (rule arg_cong)
  moreover have "xtob (hexEncodeByte x ! 0) (hexEncodeByte x ! 1) = Some x" for x
    unfolding hexEncodeByte_def One_nat_def nth_Cons_0 nth_Cons_Suc by (rule xtob_hexEncodeByte)
  ultimately show "a = b" by (metis option.inject)
qed (rule arg_cong)

lemma EncodeToString_inject: "EncodeToString xs = EncodeToString ys \<longleftrightarrow> xs = ys"
proof (induction xs arbitrary: ys)
  case Nil
  show ?case using length_EncodeToString [of ys] length_EncodeToString [of "[]"]
    by (metis length_0_conv list.size(3) mult_eq_0_iff zero_neq_numeral)
next
  case (Cons x xs)
  show ?case
  proof (cases ys)
    case Nil
    then show ?thesis using length_EncodeToString [of "x # xs"] length_EncodeToString [of "[]"]
      by (metis length_0_conv list.size(3) mult_eq_0_iff zero_neq_numeral)
  next
    case (Cons y zs)
    have "EncodeToString (x # xs) = EncodeToString ys \<longleftrightarrow>
        hexEncodeByte x = hexEncodeByte y \<and> EncodeToString xs = EncodeToString zs"
      unfolding Cons by (simp add: EncodeToString_def)
    then show ?thesis using Cons.IH [of zs] Cons by (simp add: hexEncodeByte_inject)
  qed
qed

end
