(* ===== verification/Auth_Service.thy ===== *)
theory Auth_Service
  imports Auth_Store Config Sha256
begin

text \<open>
  The auth service, \<open>auth/service.go\<close>, over any store: registration, login and logout,
  and the two ways a request's principal is found, the session cookie and the bearer
  token. Package \<open>bcrypt\<close> is a parameter (the record \<open>bcrypt\<close>): its salt comes from
  the random source, and what the program relies on is its documented law
  \<open>bcrypt_law\<close>. The clock, \<open>uuid.New\<close> and the random bytes are arguments.
\<close>

subsection \<open>The service\<close>

record bcrypt =
  bc_Generate :: "byte list \<Rightarrow> string \<Rightarrow> int \<Rightarrow> goerr + string"
  bc_Compare :: "string \<Rightarrow> string \<Rightarrow> goerr option"

definition bcrypt_law :: "bcrypt \<Rightarrow> bool" where
  "bcrypt_law bc \<longleftrightarrow> (\<forall>salt pw cost h. bc_Generate bc salt pw cost = Inr h \<longrightarrow> bc_Compare bc h pw = None)"

record 's AuthService =
  asv_store :: "'s AuthStore"
  asv_cfg :: AuthConfig

definition NewAuthService :: "'s AuthStore \<Rightarrow> AuthConfig \<Rightarrow> 's AuthService" where
  "NewAuthService store cfg = \<lparr>asv_store = store, asv_cfg = cfg\<rparr>"

definition auth_Register ::
  "bcrypt \<Rightarrow> 's AuthService \<Rightarrow> string \<Rightarrow> string \<Rightarrow> byte list \<Rightarrow> uuid \<Rightarrow> time \<Rightarrow> 's \<Rightarrow> (goerr + User) \<times> 's" where
  "auth_Register bc svc email password salt newID now s =
     (if email = '''' \<or> password = '''' then
        (Inl (Errorf_w (Sentinel ErrValidation) ''email and password required''), s)
      else (case bc_Generate bc salt password (ac_BcryptCost (asv_cfg svc)) of
        Inl _ \<Rightarrow> (Inl (Errorf_w (Sentinel ErrInternal) ''hash password''), s)
      | Inr hash \<Rightarrow>
          (case ast_CreateUser (asv_store svc)
                  \<lparr>us_UserID = newID, us_Email = email, us_PasswordHash = hash,
                   us_Roles = [''user''], us_CreatedAt = now\<rparr> s of
             (Inl _, s1) \<Rightarrow> (Inl (Errorf_w (Sentinel ErrConflict) ''create user''), s1)
           | (Inr u, s1) \<Rightarrow> (Inr u, s1))))"

definition Login ::
  "bcrypt \<Rightarrow> 's AuthService \<Rightarrow> string \<Rightarrow> string \<Rightarrow> uuid \<Rightarrow> time \<Rightarrow> time \<Rightarrow> 's \<Rightarrow>
   (goerr + Session \<times> User) \<times> 's" where
  "Login bc svc email password newID now now' s =
     (case ast_GetUserByEmail (asv_store svc) email s of
        (Inl err, s1) \<Rightarrow>
          if errors_Is err SqlErrNoRows
          then (Inl (Errorf_w (Sentinel ErrUnauthorized) ''invalid credentials''), s1)
          else (Inl (Errorf_w (Sentinel ErrInternal) ''lookup user''), s1)
      | (Inr u, s1) \<Rightarrow>
          (case bc_Compare bc (us_PasswordHash u) password of
             Some _ \<Rightarrow> (Inl (Errorf_w (Sentinel ErrUnauthorized) ''invalid credentials''), s1)
           | None \<Rightarrow>
               (case ast_CreateSession (asv_store svc)
                       \<lparr>csp_SessionID = newID, csp_UserID = us_UserID u,
                        csp_ExpiresAt = now + ac_SessionTTL (asv_cfg svc), csp_CreatedAt = now'\<rparr> s1 of
                  (Inl _, s2) \<Rightarrow> (Inl (Errorf_w (Sentinel ErrInternal) ''create session''), s2)
                | (Inr sess, s2) \<Rightarrow> (Inr (sess, u), s2))))"

definition Logout :: "'s AuthService \<Rightarrow> uuid \<Rightarrow> 's \<Rightarrow> (goerr + unit) \<times> 's" where
  "Logout svc sessionID s = ast_DeleteSession (asv_store svc) sessionID s"

definition PrincipalFromSession ::
  "'s AuthService \<Rightarrow> uuid \<Rightarrow> time \<Rightarrow> 's \<Rightarrow> (goerr + Principal) \<times> 's" where
  "PrincipalFromSession svc sessionID now s =
     (case ast_GetSession (asv_store svc) sessionID s of
        (Inl _, s1) \<Rightarrow> (Inl (Errorf_w (Sentinel ErrUnauthorized) ''session''), s1)
      | (Inr sess, s1) \<Rightarrow>
          if now > se_ExpiresAt sess then
            (Inl (Errorf_w (Sentinel ErrUnauthorized) ''session expired''),
             snd (ast_DeleteSession (asv_store svc) sessionID s1))
          else (case ast_GetUserByID (asv_store svc) (se_UserID sess) s1 of
             (Inl _, s2) \<Rightarrow> (Inl (Errorf_w (Sentinel ErrUnauthorized) ''user''), s2)
           | (Inr u, s2) \<Rightarrow>
               (Inr \<lparr>UserID = uuid_String (us_UserID u), Roles = us_Roles u, AuthMethod = ''cookie''\<rparr>, s2)))"

definition CreateBearerToken ::
  "'s AuthService \<Rightarrow> uuid \<Rightarrow> goerr + byte list \<Rightarrow> uuid \<Rightarrow> time \<Rightarrow> time \<Rightarrow> 's \<Rightarrow>
   (string \<times> goerr option) \<times> 's" where
  "CreateBearerToken svc userID random newID now now' s =
     (case random of
        Inl err \<Rightarrow> (('''', Some err), s)
      | Inr raw \<Rightarrow>
          let plain = EncodeToString raw in
          (case ast_CreateAPIToken (asv_store svc)
                  \<lparr>cap_TokenID = newID, cap_UserID = userID, cap_TokenHash = tokenHash plain,
                   cap_ExpiresAt = now + ac_TokenTTL (asv_cfg svc), cap_CreatedAt = now'\<rparr> s of
             (Inl err, s1) \<Rightarrow> ((plain, Some err), s1)
           | (Inr _, s1) \<Rightarrow> ((plain, None), s1)))"

definition PrincipalFromBearer ::
  "'s AuthService \<Rightarrow> string \<Rightarrow> time \<Rightarrow> 's \<Rightarrow> (goerr + Principal) \<times> 's" where
  "PrincipalFromBearer svc token now s =
     (case ast_GetAPITokenByHash (asv_store svc) (tokenHash token) s of
        (Inl _, s1) \<Rightarrow> (Inl (Errorf_w (Sentinel ErrUnauthorized) ''token''), s1)
      | (Inr row, s1) \<Rightarrow>
          if now > tk_ExpiresAt row then
            (Inl (Errorf_w (Sentinel ErrUnauthorized) ''token expired''), s1)
          else (case ast_GetUserByID (asv_store svc) (tk_UserID row) s1 of
             (Inl _, s2) \<Rightarrow> (Inl (Errorf_w (Sentinel ErrUnauthorized) ''user''), s2)
           | (Inr u, s2) \<Rightarrow>
               (Inr \<lparr>UserID = uuid_String (us_UserID u), Roles = us_Roles u, AuthMethod = ''bearer''\<rparr>, s2)))"

definition auth_Disabled :: "'s AuthService \<Rightarrow> bool" where
  "auth_Disabled svc = ac_Disabled (asv_cfg svc)"

lemma NewAuthService_simps [simp]:
  "asv_store (NewAuthService st cfg) = st" "asv_cfg (NewAuthService st cfg) = cfg"
  by (simp_all add: NewAuthService_def)

text \<open>The principal a user gets by a given method.\<close>

definition user_principal :: "User \<Rightarrow> string \<Rightarrow> Principal" where
  "user_principal u m = \<lparr>UserID = uuid_String (us_UserID u), Roles = us_Roles u, AuthMethod = m\<rparr>"

subsection \<open>The service over any lawful store\<close>

locale auth_service = auth_store st view invar healthy
  for st :: "'s AuthStore" and view :: "'s \<Rightarrow> auth_view"
    and invar :: "'s \<Rightarrow> bool" and healthy :: "'s \<Rightarrow> bool" +
  fixes svc :: "'s AuthService"
  assumes svc_store: "asv_store svc = st"
begin

text \<open>Soundness, whatever fails on the way: who is let in was known to the store.\<close>

lemma session_principal_sound:
  assumes "invar s" and "PrincipalFromSession svc i now s = (Inr p, s')"
  obtains sess u where "av_sessions (view s) i = Some sess" and "now \<le> se_ExpiresAt sess"
    and "av_users (view s) (se_UserID sess) = Some u" and "p = user_principal u ''cookie''"
    and "view s' = view s" and "invar s'"
proof -
  obtain sess s1 u where g: "ast_GetSession st i s = (Inr sess, s1)" and fresh: "\<not> now > se_ExpiresAt sess"
    and u: "ast_GetUserByID st (se_UserID sess) s1 = (Inr u, s')"
    and p: "p = user_principal u ''cookie''"
    using assms(2)
    by (auto simp: PrincipalFromSession_def svc_store user_principal_def
        split: prod.splits sum.splits if_splits)
  from implementsD(1,2) [OF get_session assms(1) g] have v1: "invar s1" "view s1 = view s"
    "av_sessions (view s) i = Some sess" by (auto simp: spec_GetSession_def)
  from implementsD(1,2) [OF by_id v1(1) u] v1 have "invar s'" "view s' = view s"
    "av_users (view s) (se_UserID sess) = Some u" by (auto simp: spec_GetUserByID_def)
  with v1 fresh p that show thesis by auto
qed

lemma bearer_principal_sound:
  assumes "invar s" and "PrincipalFromBearer svc token now s = (Inr p, s')"
  obtains tk u where "av_tokens (view s) (tokenHash token) = Some tk" and "now \<le> tk_ExpiresAt tk"
    and "av_users (view s) (tk_UserID tk) = Some u" and "p = user_principal u ''bearer''"
    and "view s' = view s" and "invar s'"
proof -
  obtain tk s1 u where g: "ast_GetAPITokenByHash st (tokenHash token) s = (Inr tk, s1)"
    and fresh: "\<not> now > tk_ExpiresAt tk"
    and u: "ast_GetUserByID st (tk_UserID tk) s1 = (Inr u, s')"
    and p: "p = user_principal u ''bearer''"
    using assms(2)
    by (auto simp: PrincipalFromBearer_def svc_store user_principal_def
        split: prod.splits sum.splits if_splits)
  from implementsD(1,2) [OF by_hash assms(1) g] have v1: "invar s1" "view s1 = view s"
    "av_tokens (view s) (tokenHash token) = Some tk" by (auto simp: spec_GetAPITokenByHash_def)
  from implementsD(1,2) [OF by_id v1(1) u] v1 have "invar s'" "view s' = view s"
    "av_users (view s) (tk_UserID tk) = Some u" by (auto simp: spec_GetUserByID_def)
  with v1 fresh p that show thesis by auto
qed

lemma login_sound:
  assumes "invar s" and "Login bc svc email pw newID now now' s = (Inr (sess, u), s')"
  shows "av_emails (view s) email = Some u" and "bc_Compare bc (us_PasswordHash u) pw = None"
    and "sess = \<lparr>se_SessionID = newID, se_UserID = us_UserID u, se_ExpiresAt = now + ac_SessionTTL (asv_cfg svc)\<rparr>"
    and "av_sessions (view s) newID = None"
    and "view s' = (view s)\<lparr>av_sessions := (av_sessions (view s))(newID \<mapsto> sess)\<rparr>" and "invar s'"
proof -
  let ?q = "\<lambda>u. \<lparr>csp_SessionID = newID, csp_UserID = us_UserID u,
      csp_ExpiresAt = now + ac_SessionTTL (asv_cfg svc), csp_CreatedAt = now'\<rparr>"
  obtain s1 where g: "ast_GetUserByEmail st email s = (Inr u, s1)"
    and c: "bc_Compare bc (us_PasswordHash u) pw = None"
    and cs: "ast_CreateSession st (?q u) s1 = (Inr sess, s')"
    using assms(2)
    by (auto simp: Login_def svc_store split: prod.splits sum.splits if_splits option.splits)
  from implementsD(1,2) [OF by_email assms(1) g] have v1: "invar s1" "view s1 = view s"
    "av_emails (view s) email = Some u" by (auto simp: spec_GetUserByEmail_def)
  from implementsD(1,2) [OF create_session v1(1) cs] v1 c
  show "av_emails (view s) email = Some u" and "bc_Compare bc (us_PasswordHash u) pw = None"
    and "sess = \<lparr>se_SessionID = newID, se_UserID = us_UserID u, se_ExpiresAt = now + ac_SessionTTL (asv_cfg svc)\<rparr>"
    and "av_sessions (view s) newID = None"
    and "view s' = (view s)\<lparr>av_sessions := (av_sessions (view s))(newID \<mapsto> sess)\<rparr>" and "invar s'"
    by (auto simp: spec_CreateSession_def new_session_def split: if_splits)
qed

text \<open>A rejected login opens no session (unless the reply to its creation was lost).\<close>

lemma login_rejected:
  assumes "invar s" and "healthy s"
    and "av_emails (view s) email = None \<or>
      (\<exists>u. av_emails (view s) email = Some u \<and> bc_Compare bc (us_PasswordHash u) pw \<noteq> None)"
  shows "\<exists>s'. Login bc svc email pw newID now now' s =
      (Inl (Errorf_w (Sentinel ErrUnauthorized) ''invalid credentials''), s') \<and> view s' = view s"
proof -
  from implements_run [OF by_email assms(1,2), of email] obtain s1
    where "ast_GetUserByEmail st email s = (found (av_emails (view s) email), s1)" "view s1 = view s"
    by (auto simp: spec_GetUserByEmail_def)
  with assms(3) show ?thesis by (auto simp: Login_def svc_store split: option.splits)
qed

text \<open>Registering, logging in and coming back with the cookie.\<close>

lemma register_healthy:
  assumes "invar s" and "healthy s" and "email \<noteq> ''''" and "pw \<noteq> ''''"
    and "bc_Generate bc salt pw (ac_BcryptCost (asv_cfg svc)) = Inr h"
    and "av_users (view s) uid = None" and "av_emails (view s) email = None"
  shows "\<exists>s' u. auth_Register bc svc email pw salt uid now s = (Inr u, s') \<and> invar s' \<and> healthy s' \<and>
    u = \<lparr>us_UserID = uid, us_Email = email, us_PasswordHash = h, us_Roles = [''user''], us_CreatedAt = now\<rparr> \<and>
    view s' = (view s)\<lparr>av_users := (av_users (view s))(uid \<mapsto> u), av_emails := (av_emails (view s))(email \<mapsto> u)\<rparr>"
proof -
  let ?u = "\<lparr>us_UserID = uid, us_Email = email, us_PasswordHash = h, us_Roles = [''user''], us_CreatedAt = now\<rparr>"
  from implements_run [OF create_user assms(1,2), of ?u] assms(6,7) obtain s'
    where "ast_CreateUser st ?u s = (Inr ?u, s')" "invar s'" "healthy s'"
      "view s' = (view s)\<lparr>av_users := (av_users (view s))(uid \<mapsto> ?u), av_emails := (av_emails (view s))(email \<mapsto> ?u)\<rparr>"
    by (auto simp: spec_CreateUser_def)
  with assms(3-5) show ?thesis by (simp add: auth_Register_def svc_store)
qed

lemma login_healthy:
  assumes "invar s" and "healthy s" and "av_emails (view s) email = Some u"
    and "bc_Compare bc (us_PasswordHash u) pw = None" and "av_sessions (view s) sid = None"
  shows "\<exists>s' sess. Login bc svc email pw sid now now' s = (Inr (sess, u), s') \<and> invar s' \<and> healthy s' \<and>
    sess = \<lparr>se_SessionID = sid, se_UserID = us_UserID u, se_ExpiresAt = now + ac_SessionTTL (asv_cfg svc)\<rparr> \<and>
    view s' = (view s)\<lparr>av_sessions := (av_sessions (view s))(sid \<mapsto> sess)\<rparr>"
proof -
  let ?q = "\<lparr>csp_SessionID = sid, csp_UserID = us_UserID u,
      csp_ExpiresAt = now + ac_SessionTTL (asv_cfg svc), csp_CreatedAt = now'\<rparr>"
  from implements_run [OF by_email assms(1,2), of email] assms(3) obtain s1
    where g: "ast_GetUserByEmail st email s = (Inr u, s1)" and v1: "view s1 = view s" "invar s1" "healthy s1"
    by (auto simp: spec_GetUserByEmail_def)
  have "av_users (view s) (us_UserID u) \<noteq> None" using emails_keyed [OF assms(1,3)] by simp
  with implements_run [OF create_session v1(2,3), of ?q] v1(1) assms(5) obtain s2
    where "ast_CreateSession st ?q s1 = (Inr (new_session ?q), s2)" "invar s2" "healthy s2"
      "view s2 = (view s)\<lparr>av_sessions := (av_sessions (view s))(sid \<mapsto> new_session ?q)\<rparr>"
    by (auto simp: spec_CreateSession_def)
  with g assms(4) show ?thesis by (simp add: Login_def svc_store new_session_def)
qed

lemma session_healthy:
  assumes "invar s" and "healthy s" and "av_sessions (view s) sid = Some sess"
    and "av_users (view s) (se_UserID sess) = Some u"
  shows "\<exists>s'. PrincipalFromSession svc sid now s =
      ((if now \<le> se_ExpiresAt sess then Inr (user_principal u ''cookie'')
        else Inl (Errorf_w (Sentinel ErrUnauthorized) ''session expired'')), s') \<and>
    view s' = (if now \<le> se_ExpiresAt sess then view s
      else (view s)\<lparr>av_sessions := (av_sessions (view s))(sid := None)\<rparr>) \<and> invar s' \<and> healthy s'"
proof -
  from implements_run [OF get_session assms(1,2), of sid] assms(3) obtain s1
    where g: "ast_GetSession st sid s = (Inr sess, s1)" and v1: "view s1 = view s" "invar s1" "healthy s1"
    by (auto simp: spec_GetSession_def)
  from implements_run [OF by_id v1(2,3), of "se_UserID sess"] v1(1) assms(4) obtain s2
    where u: "ast_GetUserByID st (se_UserID sess) s1 = (Inr u, s2)" "view s2 = view s" "invar s2" "healthy s2"
    by (auto simp: spec_GetUserByID_def)
  from implements_run [OF delete_session v1(2,3), of sid] v1(1) obtain s3
    where d: "snd (ast_DeleteSession st sid s1) = s3" "invar s3" "healthy s3"
      "view s3 = (view s)\<lparr>av_sessions := (av_sessions (view s))(sid := None)\<rparr>"
    by (auto simp: spec_DeleteSession_def)
  show ?thesis
    using g u d by (auto simp: PrincipalFromSession_def svc_store user_principal_def)
qed

lemma session_unknown:
  assumes "invar s" and "healthy s" and "av_sessions (view s) sid = None"
  shows "\<exists>s'. PrincipalFromSession svc sid now s =
      (Inl (Errorf_w (Sentinel ErrUnauthorized) ''session''), s') \<and> view s' = view s"
  using implements_run [OF get_session assms(1,2), of sid] assms(3)
  by (auto simp: PrincipalFromSession_def svc_store spec_GetSession_def)

lemma logout_healthy:
  assumes "invar s" and "healthy s"
  shows "\<exists>s'. Logout svc sid s = (Inr (), s') \<and> invar s' \<and> healthy s' \<and>
    view s' = (view s)\<lparr>av_sessions := (av_sessions (view s))(sid := None)\<rparr>"
  using implements_run [OF delete_session assms, of sid]
  by (auto simp: Logout_def svc_store spec_DeleteSession_def)

lemma token_healthy:
  assumes "invar s" and "healthy s" and "av_users (view s) uid = Some u"
    and "tid \<notin> av_token_ids (view s)" and "av_tokens (view s) (tokenHash (EncodeToString raw)) = None"
  shows "\<exists>s' tk. CreateBearerToken svc uid (Inr raw) tid now now' s = ((EncodeToString raw, None), s') \<and>
    invar s' \<and> healthy s' \<and> tk_UserID tk = uid \<and> tk_ExpiresAt tk = now + ac_TokenTTL (asv_cfg svc) \<and>
    view s' = (view s)\<lparr>av_token_ids := insert tid (av_token_ids (view s)),
      av_tokens := (av_tokens (view s))(tokenHash (EncodeToString raw) \<mapsto> tk)\<rparr>"
proof -
  let ?p = "\<lparr>cap_TokenID = tid, cap_UserID = uid, cap_TokenHash = tokenHash (EncodeToString raw),
      cap_ExpiresAt = now + ac_TokenTTL (asv_cfg svc), cap_CreatedAt = now'\<rparr>"
  from implements_run [OF create_token assms(1,2), of ?p] assms(3-5) obtain s'
    where "ast_CreateAPIToken st ?p s = (Inr (new_token ?p), s')" "invar s'" "healthy s'"
      "view s' = (view s)\<lparr>av_token_ids := insert tid (av_token_ids (view s)),
        av_tokens := (av_tokens (view s))(tokenHash (EncodeToString raw) \<mapsto> new_token ?p)\<rparr>"
    by (auto simp: spec_CreateAPIToken_def)
  then show ?thesis
    by (auto simp: CreateBearerToken_def svc_store Let_def new_token_def intro!: exI [of _ "new_token ?p"])
qed

lemma bearer_healthy:
  assumes "invar s" and "healthy s" and "av_tokens (view s) (tokenHash token) = Some tk"
    and "av_users (view s) (tk_UserID tk) = Some u"
  shows "\<exists>s'. PrincipalFromBearer svc token now s =
      ((if now \<le> tk_ExpiresAt tk then Inr (user_principal u ''bearer'')
        else Inl (Errorf_w (Sentinel ErrUnauthorized) ''token expired'')), s') \<and> view s' = view s"
proof -
  from implements_run [OF by_hash assms(1,2), of "tokenHash token"] assms(3) obtain s1
    where g: "ast_GetAPITokenByHash st (tokenHash token) s = (Inr tk, s1)"
      and v1: "view s1 = view s" "invar s1" "healthy s1"
    by (auto simp: spec_GetAPITokenByHash_def)
  from implements_run [OF by_id v1(2,3), of "tk_UserID tk"] v1(1) assms(4) obtain s2
    where "ast_GetUserByID st (tk_UserID tk) s1 = (Inr u, s2)" "view s2 = view s"
    by (auto simp: spec_GetUserByID_def)
  with g v1(1) show ?thesis
    by (auto simp: PrincipalFromBearer_def svc_store user_principal_def)
qed

end

interpretation pg_auth_svc: auth_service PgAuthStore pg_auth_view pg_auth_ok "\<lambda>d. net d = []"
    "NewAuthService PgAuthStore cfg" for cfg
  by unfold_locales simp

end
