(* ===== verification/Httpx.thy ===== *)
theory Httpx
  imports Todos_Store Reports_Store Config
begin

text \<open>
  The HTTP platform, \<open>platform/httpx\<close>: what a handler sees of Echo's context, the error
  handler, form errors, flash messages, rendering, and the operations endpoints.

  A request is what the program reads of it; the result of \<open>c.Bind\<close> for each bound type
  is part of it. The response collects status, headers, cookies and body; a body is the
  value handed to the JSON encoder or the template with its data. Whether a template
  executes is the argument \<open>rdr\<close> (\<open>None\<close> for success). Handlers act on the state
  \<open>'s\<close> of the services.
\<close>

subsection \<open>Requests and responses\<close>

record Cookie =
  ck_Name :: string
  ck_Value :: string
  ck_Path :: string
  ck_HttpOnly :: bool
  ck_Lax :: bool
  ck_MaxAge :: int
  ck_Expires :: "time option"

record creds =
  cd_Email :: string
  cd_Password :: string

record Request =
  rq_Method :: string
  rq_URLPath :: string
  rq_Route :: string
  rq_Param :: "string \<Rightarrow> string"
  rq_Header :: "string \<Rightarrow> string"
  rq_Cookies :: "(string \<times> string) list"
  rq_FormValue :: "string \<Rightarrow> string"
  rq_BasicAuth :: "(string \<times> string) option"
  rq_ContentLength :: int
  rq_RemoteAddr :: string
  rq_Allow :: string
  rq_BindTodo :: "goerr + TodoParams"
  rq_BindReport :: "goerr + CreateRequest"
  rq_BindCreds :: "goerr + creds"

record Flash =
  fl_Type :: string
  fl_Message :: string

record Shell =
  sh_Title :: string
  sh_CSRF :: string
  sh_Flash :: "Flash list"
  sh_User :: string
  sh_Nav :: string

definition zero_Shell :: Shell where
  "zero_Shell = \<lparr>sh_Title = '''', sh_CSRF = '''', sh_Flash = [], sh_User = '''', sh_Nav = ''''\<rparr>"

record FormErrors =
  fe_Global :: string
  fe_Fields :: "(string \<times> string) list"

record ErrorBody =
  eb_Status :: int
  eb_Code :: string
  eb_Message :: string
  eb_Details :: details

datatype page =
    TodoListPage Shell "Todo list" string FormErrors
  | ReportListPage Shell "Report list"
  | ReportShowPage Shell Report
  | LoginPage Shell string string
  | ErrorPage Shell string

datatype payload =
    PMap details
  | PTodo Todo
  | PTodos "Todo list"
  | PReport Report
  | PReports "Report list"
  | PError ErrorBody

datatype body =
    NoBody
  | JSONBody payload
  | HTMLBody string
  | TemplateBody "string option" string page
  | MetricsBody
  | FileBody string

text \<open>Echo's context: the request, Go's context, the flash key, and the response so far.\<close>

record echo =
  ec_req :: Request
  ec_ctx :: ctx
  ec_flash :: "Flash list option"
  ec_status :: int
  ec_committed :: bool
  ec_headers :: "(string \<times> string) list"
  ec_cookies :: "Cookie list"
  ec_body :: body

definition new_echo :: "Request \<Rightarrow> ctx \<Rightarrow> echo" where
  "new_echo r c = \<lparr>ec_req = r, ec_ctx = c, ec_flash = None, ec_status = 200, ec_committed = False,
     ec_headers = [], ec_cookies = [], ec_body = NoBody\<rparr>"

type_synonym 's HandlerFunc = "echo \<Rightarrow> 's \<Rightarrow> (goerr option \<times> echo) \<times> 's"
type_synonym renderer = "string \<Rightarrow> page \<Rightarrow> goerr option"

text \<open>\<open>c.Cookie(name)\<close>: the first cookie of that name.\<close>

definition cookie :: "echo \<Rightarrow> string \<Rightarrow> string option" where
  "cookie e name = map_of (rq_Cookies (ec_req e)) name"

definition SetCookie :: "Cookie \<Rightarrow> echo \<Rightarrow> echo" where
  "SetCookie ck e = (if ec_committed e then e else e\<lparr>ec_cookies := ec_cookies e @ [ck]\<rparr>)"

definition SetHeader :: "string \<Rightarrow> string \<Rightarrow> echo \<Rightarrow> echo" where
  "SetHeader k v e = (if ec_committed e then e else e\<lparr>ec_headers := AList.update k v (ec_headers e)\<rparr>)"

text \<open>\<open>Header().Add\<close> and \<open>Header().Get\<close>.\<close>

definition AddHeader :: "string \<Rightarrow> string \<Rightarrow> echo \<Rightarrow> echo" where
  "AddHeader k v e = (if ec_committed e then e else e\<lparr>ec_headers := ec_headers e @ [(k, v)]\<rparr>)"

definition GetHeader :: "string \<Rightarrow> echo \<Rightarrow> string" where
  "GetHeader k e = (case map_of (ec_headers e) k of Some v \<Rightarrow> v | None \<Rightarrow> '''')"

definition respond :: "int \<Rightarrow> body \<Rightarrow> echo \<Rightarrow> echo" where
  "respond status b e =
     (if ec_committed e then e else e\<lparr>ec_status := status, ec_committed := True, ec_body := b\<rparr>)"

definition JSON :: "int \<Rightarrow> payload \<Rightarrow> echo \<Rightarrow> goerr option \<times> echo" where
  "JSON status p e = (None, respond status (JSONBody p) e)"

definition NoContent :: "int \<Rightarrow> echo \<Rightarrow> goerr option \<times> echo" where
  "NoContent status e = (None, respond status NoBody e)"

definition Redirect :: "int \<Rightarrow> string \<Rightarrow> echo \<Rightarrow> goerr option \<times> echo" where
  "Redirect status url e =
     (if status < 300 \<or> status > 308 then (Some (OtherErr ''invalid redirect status code''), e)
      else (None, respond status NoBody (SetHeader ''Location'' url e)))"

definition WithContext :: "ctx \<Rightarrow> echo \<Rightarrow> echo" where
  "WithContext c e = e\<lparr>ec_ctx := c\<rparr>"

lemma respond_simps [simp]:
  "\<not> ec_committed e \<Longrightarrow> ec_status (respond st b e) = st"
  "ec_committed (respond st b e)"
  "\<not> ec_committed e \<Longrightarrow> ec_body (respond st b e) = b"
  "ec_cookies (respond st b e) = ec_cookies e"
  "ec_req (respond st b e) = ec_req e" "ec_ctx (respond st b e) = ec_ctx e"
  "ec_headers (respond st b e) = ec_headers e"
  by (simp_all add: respond_def)

lemma SetCookie_simps [simp]:
  "ec_req (SetCookie ck e) = ec_req e" "ec_ctx (SetCookie ck e) = ec_ctx e"
  "ec_committed (SetCookie ck e) = ec_committed e" "ec_flash (SetCookie ck e) = ec_flash e"
  "ec_status (SetCookie ck e) = ec_status e" "ec_body (SetCookie ck e) = ec_body e"
  "\<not> ec_committed e \<Longrightarrow> ec_cookies (SetCookie ck e) = ec_cookies e @ [ck]"
  "cookie (SetCookie ck e) name = cookie e name"
  by (simp_all add: SetCookie_def cookie_def)

lemma map_of_snoc: "map_of (xs @ [(k, v)]) k' = (case map_of xs k' of Some u \<Rightarrow> Some u | None \<Rightarrow> if k' = k then Some v else None)"
  by (simp add: map_add_def split: option.splits)

lemma header_simps [simp]:
  "ec_req (SetHeader k v e) = ec_req e" "ec_ctx (SetHeader k v e) = ec_ctx e"
  "ec_committed (SetHeader k v e) = ec_committed e" "ec_flash (SetHeader k v e) = ec_flash e"
  "ec_status (SetHeader k v e) = ec_status e" "ec_body (SetHeader k v e) = ec_body e"
  "ec_cookies (SetHeader k v e) = ec_cookies e"
  "ec_req (AddHeader k v e) = ec_req e" "ec_ctx (AddHeader k v e) = ec_ctx e"
  "ec_committed (AddHeader k v e) = ec_committed e" "ec_flash (AddHeader k v e) = ec_flash e"
  "ec_status (AddHeader k v e) = ec_status e" "ec_body (AddHeader k v e) = ec_body e"
  "ec_cookies (AddHeader k v e) = ec_cookies e"
  "ec_headers (SetCookie ck e) = ec_headers e"
  "\<not> ec_committed e \<Longrightarrow> map_of (ec_headers (SetHeader k v e)) k' =
     (if k' = k then Some v else map_of (ec_headers e) k')"
  "\<not> ec_committed e \<Longrightarrow> map_of (ec_headers (AddHeader k v e)) k' =
     (case map_of (ec_headers e) k' of Some u \<Rightarrow> Some u | None \<Rightarrow> if k' = k then Some v else None)"
  by (simp_all add: SetHeader_def AddHeader_def SetCookie_def update_conv map_of_snoc del: map_of_append)

lemma header_other:
  "k' \<noteq> k \<Longrightarrow> map_of (ec_headers (SetHeader k v e)) k' = map_of (ec_headers e) k'"
  "k' \<noteq> k \<Longrightarrow> map_of (ec_headers (AddHeader k v e)) k' = map_of (ec_headers e) k'"
  by (simp_all add: SetHeader_def AddHeader_def update_conv map_of_snoc del: map_of_append split: option.split)

lemma GetHeader_SetHeader [simp]:
  "\<not> ec_committed e \<Longrightarrow> GetHeader k (SetHeader k' v e) = (if k = k' then v else GetHeader k e)"
  by (simp add: GetHeader_def)

subsection \<open>Form errors\<close>

definition FormErrors_Has :: "FormErrors \<Rightarrow> bool" where
  "FormErrors_Has e \<longleftrightarrow> fe_Global e \<noteq> '''' \<or> length (fe_Fields e) > 0"

definition FormErrors_Field :: "FormErrors \<Rightarrow> string \<Rightarrow> string" where
  "FormErrors_Field e name = (case map_of (fe_Fields e) name of None \<Rightarrow> '''' | Some m \<Rightarrow> m)"

definition NewFieldErrors :: "(string \<times> string) list \<Rightarrow> FormErrors" where
  "NewFieldErrors fs = \<lparr>fe_Global = '''', fe_Fields = fs\<rparr>"

definition GlobalError :: "string \<Rightarrow> FormErrors" where
  "GlobalError msg = \<lparr>fe_Global = msg, fe_Fields = []\<rparr>"

subsection \<open>Flash messages\<close>

text \<open>
  The cookie carries the flashes as base64 text of JSON. The codec is an argument: \<open>enc\<close>
  may fail, and \<open>codec_ok\<close> says that decoding undoes encoding.
\<close>

record flash_codec =
  fc_enc :: "Flash list \<Rightarrow> string option"
  fc_dec :: "string \<Rightarrow> Flash list option"

definition codec_ok :: "flash_codec \<Rightarrow> bool" where
  "codec_ok k \<longleftrightarrow> (\<forall>fs v. fc_enc k fs = Some v \<longrightarrow> v \<noteq> '''' \<and> fc_dec k v = Some fs)"

definition flashCookieName :: string where
  "flashCookieName = ''flash_messages''"

definition PeekFlash :: "flash_codec \<Rightarrow> echo \<Rightarrow> Flash list \<times> echo" where
  "PeekFlash k e =
     (case ec_flash e of
        Some fs \<Rightarrow> (fs, e)
      | None \<Rightarrow>
          (case cookie e flashCookieName of
             None \<Rightarrow> ([], e)
           | Some v \<Rightarrow>
               if v = '''' then ([], e)
               else (case fc_dec k v of
                 None \<Rightarrow> ([], e)
               | Some out \<Rightarrow> (out, e\<lparr>ec_flash := Some out\<rparr>))))"

definition SetFlash :: "flash_codec \<Rightarrow> Flash list \<Rightarrow> echo \<Rightarrow> echo" where
  "SetFlash k flashes e =
     (if flashes = [] then e
      else (case PeekFlash k e of (prior, e1) \<Rightarrow>
        let allf = prior @ flashes;
            e2 = e1\<lparr>ec_flash := Some allf\<rparr>
        in case fc_enc k allf of
             None \<Rightarrow> e2
           | Some v \<Rightarrow> SetCookie \<lparr>ck_Name = flashCookieName, ck_Value = v, ck_Path = ''/'',
                ck_HttpOnly = True, ck_Lax = True, ck_MaxAge = 300, ck_Expires = None\<rparr> e2))"

definition clearFlash :: "echo \<Rightarrow> echo" where
  "clearFlash e = SetCookie \<lparr>ck_Name = flashCookieName, ck_Value = '''', ck_Path = ''/'',
     ck_HttpOnly = True, ck_Lax = True, ck_MaxAge = -1, ck_Expires = None\<rparr> e"

definition ConsumeFlash :: "flash_codec \<Rightarrow> echo \<Rightarrow> Flash list \<times> echo" where
  "ConsumeFlash k e =
     (case PeekFlash k e of (out, e1) \<Rightarrow> (out, clearFlash (e1\<lparr>ec_flash := Some []\<rparr>)))"

definition FlashSuccess :: "flash_codec \<Rightarrow> string \<Rightarrow> echo \<Rightarrow> echo" where
  "FlashSuccess k msg e = SetFlash k [\<lparr>fl_Type = ''success'', fl_Message = msg\<rparr>] e"

definition FlashError :: "flash_codec \<Rightarrow> string \<Rightarrow> echo \<Rightarrow> echo" where
  "FlashError k msg e = SetFlash k [\<lparr>fl_Type = ''error'', fl_Message = msg\<rparr>] e"

definition FlashInfo :: "flash_codec \<Rightarrow> string \<Rightarrow> echo \<Rightarrow> echo" where
  "FlashInfo k msg e = SetFlash k [\<lparr>fl_Type = ''info'', fl_Message = msg\<rparr>] e"

lemma ConsumeFlash_SetFlash:
  assumes "flashes \<noteq> []"
  shows "fst (ConsumeFlash k (SetFlash k flashes e)) = fst (PeekFlash k e) @ flashes"
  using assms
  by (auto simp: ConsumeFlash_def SetFlash_def PeekFlash_def [of k "SetCookie _ _"]
      PeekFlash_def [of k "_\<lparr>ec_flash := _\<rparr>"] Let_def split: prod.splits option.splits)

text \<open>The browser's view of one name: the last cookie set wins.\<close>

definition last_cookie :: "echo \<Rightarrow> string \<Rightarrow> Cookie option" where
  "last_cookie e name = (case filter (\<lambda>ck. ck_Name ck = name) (rev (ec_cookies e)) of
     [] \<Rightarrow> None | ck # _ \<Rightarrow> Some ck)"

lemma last_cookie_SetCookie:
  "\<not> ec_committed e \<Longrightarrow>
   last_cookie (SetCookie ck e) name = (if ck_Name ck = name then Some ck else last_cookie e name)"
  by (simp add: last_cookie_def)

subsection \<open>Rendering\<close>

definition IsHTMX :: "echo \<Rightarrow> bool" where
  "IsHTMX e \<longleftrightarrow> rq_Header (ec_req e) ''HX-Request'' = ''true''"

text \<open>
  \<open>renderLayout\<close>: the page is executed first and its error returned before anything is
  written; an error of the layout comes after the header.
\<close>

definition renderLayout :: "renderer \<Rightarrow> int \<Rightarrow> string \<Rightarrow> string \<Rightarrow> page \<Rightarrow> echo \<Rightarrow> goerr option \<times> echo" where
  "renderLayout rdr status layout page data e =
     (case rdr page data of
        Some err \<Rightarrow> (Some err, e)
      | None \<Rightarrow> (rdr layout data, respond status (TemplateBody (Some layout) page data) e))"

definition RenderApp :: "renderer \<Rightarrow> string \<Rightarrow> page \<Rightarrow> echo \<Rightarrow> goerr option \<times> echo" where
  "RenderApp rdr page data = renderLayout rdr 200 ''layouts/app.html'' page data"

definition RenderAppStatus :: "renderer \<Rightarrow> int \<Rightarrow> string \<Rightarrow> page \<Rightarrow> echo \<Rightarrow> goerr option \<times> echo" where
  "RenderAppStatus rdr status page data = renderLayout rdr status ''layouts/app.html'' page data"

definition RenderAuth :: "renderer \<Rightarrow> string \<Rightarrow> page \<Rightarrow> echo \<Rightarrow> goerr option \<times> echo" where
  "RenderAuth rdr page data = renderLayout rdr 200 ''layouts/auth.html'' page data"

definition RenderAuthStatus :: "renderer \<Rightarrow> int \<Rightarrow> string \<Rightarrow> page \<Rightarrow> echo \<Rightarrow> goerr option \<times> echo" where
  "RenderAuthStatus rdr status page data = renderLayout rdr status ''layouts/auth.html'' page data"

definition RenderFragment :: "renderer \<Rightarrow> string \<Rightarrow> page \<Rightarrow> echo \<Rightarrow> goerr option \<times> echo" where
  "RenderFragment rdr name data e =
     (case rdr name data of
        Some err \<Rightarrow> (Some err, e)
      | None \<Rightarrow> (None, respond 200 (TemplateBody None name data) e))"

definition RenderFragmentStatus :: "renderer \<Rightarrow> int \<Rightarrow> string \<Rightarrow> page \<Rightarrow> echo \<Rightarrow> goerr option \<times> echo" where
  "RenderFragmentStatus rdr status name data e =
     (rdr name data, respond status (TemplateBody None name data) e)"

lemmas render_defs =
  renderLayout_def RenderApp_def RenderAppStatus_def RenderAuth_def RenderAuthStatus_def
  RenderFragment_def RenderFragmentStatus_def

subsection \<open>Errors\<close>

definition MapError :: "goerr option \<Rightarrow> int \<times> string \<times> string" where
  "MapError err =
     (let is = (\<lambda>t. case err of None \<Rightarrow> False | Some e \<Rightarrow> errors_Is e t) in
      if is ErrNotFound then (404, ''NOT_FOUND'', ''Resource not found'')
      else if is ErrValidation then (422, ''VALIDATION_ERROR'', ''Validation failed'')
      else if is ErrBadRequest then (400, ''BAD_REQUEST'', ''Bad request'')
      else if is ErrConflict then (409, ''CONFLICT'', ''Conflict'')
      else if is ErrUnauthorized then (401, ''UNAUTHORIZED'', ''Unauthorized'')
      else if is ErrPermissionDenied then (403, ''FORBIDDEN'', ''Permission denied'')
      else (500, ''INTERNAL_SERVER_ERROR'', ''An unexpected error occurred''))"

definition errorPage :: "int \<Rightarrow> string" where
  "errorPage status =
     (if status = 400 then ''pages/errors/400.html''
      else if status = 401 then ''pages/errors/401.html''
      else if status = 403 then ''pages/errors/403.html''
      else if status = 404 then ''pages/errors/404.html''
      else if status = 422 then ''pages/errors/422.html''
      else ''pages/errors/500.html'')"

definition isAPI :: "string \<Rightarrow> bool" where
  "isAPI path \<longleftrightarrow> HasPrefix path ''/api''"

text \<open>\<open>html.EscapeString\<close>.\<close>

definition escapeChar :: "char \<Rightarrow> string" where
  "escapeChar c =
     (if c = CHR ''<'' then ''&lt;'' else if c = CHR ''>'' then ''&gt;''
      else if c = CHR ''&'' then ''&amp;'' else if c = CHR 0x27 then ''&#39;''
      else if c = CHR 0x22 then ''&#34;'' else [c])"

definition EscapeString :: "string \<Rightarrow> string" where
  "EscapeString s = concat (map escapeChar s)"

text \<open>
  What \<open>ErrorHandler\<close> makes of an error: status, code, message, details. \<open>statusText\<close>
  is \<open>http.StatusText\<close>.
\<close>

definition classify ::
  "(int \<Rightarrow> string) \<Rightarrow> goerr \<Rightarrow> int \<times> string \<times> string \<times> details" where
  "classify statusText err =
     (case errors_As_APIError err of
        Some (inner, m, d) \<Rightarrow>
          (case MapError inner of (status, code, message) \<Rightarrow>
             (status, code, if m \<noteq> '''' then m else message, d))
      | None \<Rightarrow>
          (case err of
             HTTPError hc m _ \<Rightarrow>
               (hc, ''HTTP_ERROR'', (case m of Some t \<Rightarrow> t | None \<Rightarrow> statusText hc), [])
           | _ \<Rightarrow>
               (case MapError (Some err) of (status, code, message) \<Rightarrow>
                  (status, code, if status \<noteq> 500 then Error err else message, []))))"

definition alert_html :: "string \<Rightarrow> string" where
  "alert_html safe =
     ''<div class=\"rounded-md border border-danger/40 bg-danger/10 px-3 py-2 text-sm text-danger\" role=\"alert\">'' @
     safe @ ''</div>''"

definition ErrorHandler :: "(int \<Rightarrow> string) \<Rightarrow> renderer \<Rightarrow> goerr \<Rightarrow> echo \<Rightarrow> echo" where
  "ErrorHandler statusText rdr err e =
     (case classify statusText err of (status, code, message, details) \<Rightarrow>
        if ec_committed e then e
        else let safe = EscapeString message;
                 accept = rq_Header (ec_req e) ''Accept'';
                 wantsHTML = (IsHTMX e \<or>
                   (accept \<noteq> '''' \<and> accept \<noteq> ''application/json'' \<and> \<not> isAPI (rq_Route (ec_req e))))
             in if wantsHTML then
                  (if IsHTMX e then respond status (HTMLBody (alert_html safe)) e
                   else snd (RenderAppStatus rdr status (errorPage status)
                     (ErrorPage (zero_Shell\<lparr>sh_Title := statusText status\<rparr>) message) e))
                else snd (JSON status (PError \<lparr>eb_Status = status, eb_Code = code,
                       eb_Message = message, eb_Details = details\<rparr>) e))"

lemma MapError_status:
  "MapError err = (status, code, message) \<Longrightarrow> status \<in> {400, 401, 403, 404, 409, 422, 500}"
  by (auto simp: MapError_def Let_def split: if_splits)

text \<open>The text of an internal error never leaves the server.\<close>

lemma classify_internal:
  assumes "errors_As_APIError err = None" and "\<And>hc m i. err \<noteq> HTTPError hc m i"
    and "classify statusText err = (500, code, message, d)"
  shows "message = ''An unexpected error occurred''"
  using assms
  by (auto simp: classify_def MapError_def Let_def split: goerr.splits if_splits)

lemma EscapeString_safe:
  "set (EscapeString s) \<inter> {CHR ''<'', CHR ''>'', CHR 0x22, CHR 0x27} = {}"
  by (auto simp: EscapeString_def escapeChar_def split: if_splits)

lemma ErrorHandler_committed [simp]:
  "ec_committed e \<Longrightarrow> ErrorHandler statusText rdr err e = e"
  by (simp add: ErrorHandler_def split: prod.splits)

lemma ErrorHandler_status:
  assumes "\<not> ec_committed e" and "classify statusText err = (status, code, message, details)"
    and "\<And>p d. rdr p d = None"
  shows "ec_status (ErrorHandler statusText rdr err e) = status"
    and "ec_committed (ErrorHandler statusText rdr err e)"
  using assms by (simp_all add: ErrorHandler_def JSON_def render_defs Let_def)

subsection \<open>Operations endpoints\<close>

text \<open>\<open>RegisterOps\<close>: one handler per route. \<open>ready\<close> is \<open>database.Ready\<close>, then the extra checks run in order.\<close>

definition healthz :: "'s HandlerFunc" where
  "healthz e s = (JSON 200 (PMap [(''status'', ''ok'')]) e, s)"

definition health_legacy :: "'s HandlerFunc" where
  "health_legacy e s = (JSON 200 (PMap [(''status'', ''ok''), (''message'', ''Server is healthy'')]) e, s)"

fun run_checks :: "('s \<Rightarrow> goerr option \<times> 's) list \<Rightarrow> 's \<Rightarrow> bool \<times> 's" where
  "run_checks [] s = (True, s)"
| "run_checks (chk # checks) s =
     (case chk s of (Some _, s1) \<Rightarrow> (False, s1) | (None, s1) \<Rightarrow> run_checks checks s1)"

definition readyz ::
  "('s \<Rightarrow> goerr option \<times> 's) \<Rightarrow> ('s \<Rightarrow> goerr option \<times> 's) list \<Rightarrow> 's HandlerFunc" where
  "readyz ready extraReady e s =
     (case ready s of
        (Some _, s1) \<Rightarrow> (JSON 503 (PMap [(''status'', ''not_ready''), (''error'', ''database'')]) e, s1)
      | (None, s1) \<Rightarrow>
          (case run_checks extraReady s1 of
             (False, s2) \<Rightarrow> (JSON 503 (PMap [(''status'', ''not_ready'')]) e, s2)
           | (True, s2) \<Rightarrow> (JSON 200 (PMap [(''status'', ''ready'')]) e, s2)))"

definition metrics_endpoint :: "MetricsConfig \<Rightarrow> 's HandlerFunc" where
  "metrics_endpoint cfg e s =
     (if \<not> mt_Public cfg \<and>
         (case rq_BasicAuth (ec_req e) of
            None \<Rightarrow> True
          | Some (user, pass) \<Rightarrow> user \<noteq> mt_BasicAuthUser cfg \<or> pass \<noteq> mt_BasicAuthPass cfg)
      then (NoContent 401 (SetHeader ''WWW-Authenticate'' ''Basic realm=\"metrics\"'' e), s)
      else ((None, respond 200 MetricsBody e), s))"

end
