(* ===== verification/Auth_Http.thy ===== *)
theory Auth_Http
  imports Auth_Service Httpx
begin

text \<open>
  The HTTP side of the auth domain: the two middlewares of \<open>auth/middleware.go\<close>, the JSON
  API (\<open>auth/api/api.go\<close>) and the login page (\<open>auth/web/web.go\<close>). Random bytes, clock
  readings and new ids are arguments.
\<close>

subsection \<open>Middleware\<close>

definition anonymous_principal :: Principal where
  "anonymous_principal = \<lparr>UserID = ''anonymous'', Roles = [''user''], AuthMethod = ''disabled''\<rparr>"

text \<open>The principal the middleware attaches: bearer token first, then the session cookie.\<close>

definition request_principal ::
  "'s AuthService \<Rightarrow> AuthConfig \<Rightarrow> time \<Rightarrow> echo \<Rightarrow> 's \<Rightarrow> Principal \<times> 's" where
  "request_principal svc cfg now e s =
     (let authz = rq_Header (ec_req e) ''Authorization'' in
      if HasPrefix (ToLower authz) ''bearer '' then
        (case PrincipalFromBearer svc (TrimSpace (drop 7 authz)) now s of
           (Inr p, s1) \<Rightarrow> (p, s1)
         | (Inl _, s1) \<Rightarrow> (Anonymous, s1))
      else (case cookie e (ac_SessionCookie cfg) of
        None \<Rightarrow> (Anonymous, s)
      | Some v \<Rightarrow>
          if v = '''' then (Anonymous, s)
          else (case uuid_Parse v of
            Inl _ \<Rightarrow> (Anonymous, s)
          | Inr sid \<Rightarrow>
              (case PrincipalFromSession svc sid now s of
                 (Inr p, s1) \<Rightarrow> (p, s1)
               | (Inl _, s1) \<Rightarrow> (Anonymous, s1)))))"

definition auth_Middleware ::
  "'s AuthService \<Rightarrow> AuthConfig \<Rightarrow> time \<Rightarrow> 's HandlerFunc \<Rightarrow> 's HandlerFunc" where
  "auth_Middleware svc cfg now next e s =
     (if ac_Disabled cfg then
        next (WithContext (WithPrincipal (ec_ctx e) anonymous_principal) e) s
      else (case request_principal svc cfg now e s of (p, s1) \<Rightarrow>
        next (WithContext (WithPrincipal (ec_ctx e) p) e) s1))"

definition csrf_cookie :: "AuthConfig \<Rightarrow> string \<Rightarrow> Cookie" where
  "csrf_cookie cfg token = \<lparr>ck_Name = ac_CSRFCookieName cfg, ck_Value = token, ck_Path = ''/'',
     ck_HttpOnly = False, ck_Lax = True, ck_MaxAge = 0, ck_Expires = None\<rparr>"

text \<open>\<open>random\<close>: the sixteen bytes read from \<open>crypto/rand\<close>.\<close>

definition NewCSRFToken :: "byte list \<Rightarrow> string" where
  "NewCSRFToken random = EncodeToString random"

definition ensureCSRFCookie :: "AuthConfig \<Rightarrow> byte list \<Rightarrow> echo \<Rightarrow> echo" where
  "ensureCSRFCookie cfg random e =
     (case cookie e (ac_CSRFCookieName cfg) of
        Some _ \<Rightarrow> e
      | None \<Rightarrow> SetCookie (csrf_cookie cfg (EncodeToString random)) e)"

definition CSRFMiddleware :: "AuthConfig \<Rightarrow> byte list \<Rightarrow> 's HandlerFunc \<Rightarrow> 's HandlerFunc" where
  "CSRFMiddleware cfg random next e s =
     (if ac_Disabled cfg then next e s
      else if \<not> HasPrefix (rq_URLPath (ec_req e)) ''/app'' then next e s
      else if rq_Method (ec_req e) \<in> {''GET'', ''HEAD'', ''OPTIONS''} then
        next (ensureCSRFCookie cfg random e) s
      else let ck = cookie e (ac_CSRFCookieName cfg);
               h = rq_Header (ec_req e) ''X-CSRF-Token'';
               header = (if h = '''' then rq_FormValue (ec_req e) ''csrf_token'' else h)
           in if ck = None \<or> ck = Some '''' \<or> header = '''' \<or> ck \<noteq> Some header
              then (JSON 403 (PMap [(''message'', ''csrf validation failed'')]) e, s)
              else next e s)"

subsection \<open>API\<close>

definition session_cookie :: "AuthConfig \<Rightarrow> Session \<Rightarrow> Cookie" where
  "session_cookie cfg sess = \<lparr>ck_Name = ac_SessionCookie cfg, ck_Value = uuid_String (se_SessionID sess),
     ck_Path = ''/'', ck_HttpOnly = True, ck_Lax = True, ck_MaxAge = 0,
     ck_Expires = Some (se_ExpiresAt sess)\<rparr>"

definition invalid_body :: goerr where
  "invalid_body = NewAPIError (Sentinel ErrBadRequest) ''invalid body'' []"

definition authapi_Register ::
  "bcrypt \<Rightarrow> 's AuthService \<Rightarrow> byte list \<Rightarrow> uuid \<Rightarrow> time \<Rightarrow> 's HandlerFunc" where
  "authapi_Register bc svc salt newID now e s =
     (case rq_BindCreds (ec_req e) of
        Inl _ \<Rightarrow> ((Some invalid_body, e), s)
      | Inr req \<Rightarrow>
          (case auth_Register bc svc (cd_Email req) (cd_Password req) salt newID now s of
             (Inl err, s1) \<Rightarrow> ((Some err, e), s1)
           | (Inr u, s1) \<Rightarrow>
               (JSON 201 (PMap [(''user_id'', uuid_String (us_UserID u)), (''email'', us_Email u)]) e, s1)))"

definition authapi_Login ::
  "bcrypt \<Rightarrow> 's AuthService \<Rightarrow> AuthConfig \<Rightarrow> uuid \<Rightarrow> time \<Rightarrow> time \<Rightarrow> 's HandlerFunc" where
  "authapi_Login bc svc cfg newID now now' e s =
     (case rq_BindCreds (ec_req e) of
        Inl _ \<Rightarrow> ((Some invalid_body, e), s)
      | Inr req \<Rightarrow>
          (case Login bc svc (cd_Email req) (cd_Password req) newID now now' s of
             (Inl err, s1) \<Rightarrow> ((Some err, e), s1)
           | (Inr (sess, u), s1) \<Rightarrow>
               (JSON 200 (PMap [(''user_id'', uuid_String (us_UserID u)), (''email'', us_Email u)])
                  (SetCookie (session_cookie cfg sess) e), s1)))"

definition authapi_Logout :: "'s AuthService \<Rightarrow> AuthConfig \<Rightarrow> 's HandlerFunc" where
  "authapi_Logout svc cfg e s =
     (let s1 = (case cookie e (ac_SessionCookie cfg) of
                  None \<Rightarrow> s
                | Some v \<Rightarrow> (case uuid_Parse v of Inl _ \<Rightarrow> s | Inr i \<Rightarrow> snd (Logout svc i s)));
          gone = \<lparr>ck_Name = ac_SessionCookie cfg, ck_Value = '''', ck_Path = ''/'', ck_HttpOnly = False,
                  ck_Lax = False, ck_MaxAge = -1, ck_Expires = None\<rparr>
      in (NoContent 204 (SetCookie gone e), s1))"

definition authapi_CreateToken ::
  "bcrypt \<Rightarrow> 's AuthService \<Rightarrow> uuid \<Rightarrow> time \<Rightarrow> time \<Rightarrow> goerr + byte list \<Rightarrow> uuid \<Rightarrow> time \<Rightarrow> time \<Rightarrow>
   's HandlerFunc" where
  "authapi_CreateToken bc svc sid now now' random tid later later' e s =
     (case rq_BindCreds (ec_req e) of
        Inl _ \<Rightarrow> ((Some invalid_body, e), s)
      | Inr req \<Rightarrow>
          (case Login bc svc (cd_Email req) (cd_Password req) sid now now' s of
             (Inl err, s1) \<Rightarrow> ((Some err, e), s1)
           | (Inr (_, u), s1) \<Rightarrow>
               (case CreateBearerToken svc (us_UserID u) random tid later later' s1 of
                  ((_, Some err), s2) \<Rightarrow> ((Some err, e), s2)
                | ((token, None), s2) \<Rightarrow>
                    (JSON 200 (PMap [(''token'', token), (''token_type'', ''Bearer'')]) e, s2))))"

subsection \<open>Login page\<close>

definition authweb_LoginForm :: "flash_codec \<Rightarrow> renderer \<Rightarrow> AuthConfig \<Rightarrow> byte list \<Rightarrow> 's HandlerFunc" where
  "authweb_LoginForm k rdr cfg random e s =
     (let csrf = NewCSRFToken random;
          e1 = SetCookie (csrf_cookie cfg csrf) e
      in case ConsumeFlash k e1 of (flashes, e2) \<Rightarrow>
           (RenderAuth rdr ''pages/auth/login.html''
              (LoginPage \<lparr>sh_Title = ''Sign in'', sh_CSRF = csrf, sh_Flash = flashes,
                          sh_User = '''', sh_Nav = ''login''\<rparr> '''' '''') e2, s))"

definition authweb_Login ::
  "bcrypt \<Rightarrow> flash_codec \<Rightarrow> renderer \<Rightarrow> 's AuthService \<Rightarrow> AuthConfig \<Rightarrow> byte list \<Rightarrow> uuid \<Rightarrow> time \<Rightarrow> time \<Rightarrow>
   's HandlerFunc" where
  "authweb_Login bc k rdr svc cfg random newID now now' e s =
     (let email = rq_FormValue (ec_req e) ''email'';
          password = rq_FormValue (ec_req e) ''password''
      in case Login bc svc email password newID now now' s of
           (Inl _, s1) \<Rightarrow>
             (let csrf = NewCSRFToken random in
              (RenderAuthStatus rdr 401 ''pages/auth/login.html''
                 (LoginPage \<lparr>sh_Title = ''Sign in'', sh_CSRF = csrf, sh_Flash = [], sh_User = '''',
                             sh_Nav = ''login''\<rparr> ''Invalid credentials'' email)
                 (SetCookie (csrf_cookie cfg csrf) e), s1))
         | (Inr (sess, _), s1) \<Rightarrow>
             (Redirect 303 ''/app/todos'' (FlashSuccess k ''Signed in'' (SetCookie (session_cookie cfg sess) e)), s1))"

subsection \<open>What the middlewares guarantee\<close>

text \<open>
  An unsafe request to the web application runs its handler only with a token that
  matches the cookie; otherwise nothing happens but the refusal.
\<close>

lemma CSRF_guard:
  assumes "\<not> ac_Disabled cfg" and "HasPrefix (rq_URLPath (ec_req e)) ''/app''"
    and "rq_Method (ec_req e) \<notin> {''GET'', ''HEAD'', ''OPTIONS''}"
  shows "CSRFMiddleware cfg random next e s =
    (if \<exists>t. t \<noteq> '''' \<and> cookie e (ac_CSRFCookieName cfg) = Some t \<and>
        (rq_Header (ec_req e) ''X-CSRF-Token'' = t \<or>
         (rq_Header (ec_req e) ''X-CSRF-Token'' = '''' \<and> rq_FormValue (ec_req e) ''csrf_token'' = t))
     then next e s
     else (JSON 403 (PMap [(''message'', ''csrf validation failed'')]) e, s))"
  using assms by (cases "cookie e (ac_CSRFCookieName cfg)") (auto simp: CSRFMiddleware_def Let_def)

lemma CSRF_cases:
  obtains "CSRFMiddleware cfg random next e s = next e s"
  | "CSRFMiddleware cfg random next e s = next (ensureCSRFCookie cfg random e) s"
  | "HasPrefix (rq_URLPath (ec_req e)) ''/app''"
    and "CSRFMiddleware cfg random next e s = (JSON 403 (PMap [(''message'', ''csrf validation failed'')]) e, s)"
  unfolding CSRFMiddleware_def Let_def by argo

context auth_service
begin

text \<open>Every principal the middleware attaches is anonymous or stands for a stored user.\<close>

lemma request_principal_sound:
  assumes "invar s" and "request_principal svc cfg now e s = (p, s')"
  shows "p = Anonymous \<or> (\<exists>u m. av_users (view s) (us_UserID u) = Some u \<and> m \<in> {''cookie'', ''bearer''} \<and>
    p = user_principal u m)"
proof -
  have bearer: "(\<exists>u. av_users (view s) (us_UserID u) = Some u \<and> p = user_principal u ''bearer'')"
    if "PrincipalFromBearer svc tok now s = (Inr p, s1)" for tok s1
    using that by (rule bearer_principal_sound [OF assms(1)]) (use users_keyed [OF assms(1)] in metis)
  have sess: "(\<exists>u. av_users (view s) (us_UserID u) = Some u \<and> p = user_principal u ''cookie'')"
    if "PrincipalFromSession svc sid now s = (Inr p, s1)" for sid s1
    using that by (rule session_principal_sound [OF assms(1)]) (use users_keyed [OF assms(1)] in metis)
  from assms(2) show ?thesis
    by (auto simp: request_principal_def Let_def split: if_splits prod.splits sum.splits option.splits
        dest: bearer sess)
qed

text \<open>A login cookie brings its user back, until it expires.\<close>

lemma request_principal_cookie:
  assumes "invar s" and "healthy s" and "av_sessions (view s) sid = Some sess"
    and "av_users (view s) (se_UserID sess) = Some u" and "now \<le> se_ExpiresAt sess"
    and "\<not> HasPrefix (ToLower (rq_Header (ec_req e) ''Authorization'')) ''bearer ''"
    and "cookie e (ac_SessionCookie cfg) = Some (uuid_String sid)"
  shows "fst (request_principal svc cfg now e s) = user_principal u ''cookie''"
  using session_healthy [OF assms(1-4), of now] assms(5-7)
  by (auto simp: request_principal_def Let_def uuid_Parse_String)

end

end
