(* ===== verification/Domain_Http.thy ===== *)
theory Domain_Http
  imports Auth_Http Todos_Service Reports_Service
begin

text \<open>
  The HTTP adapters of the todos and reports domains: the JSON APIs (\<open>todos/api/api.go\<close>,
  \<open>reports/api/api.go\<close>) and the server-rendered pages (\<open>todos/web/web.go\<close>,
  \<open>reports/web/web.go\<close>). \<open>id\<close>, clock readings and random bytes are arguments of the
  handlers that draw them.
\<close>

subsection \<open>Todos API\<close>

definition invalid_request_body :: "goerr \<Rightarrow> goerr" where
  "invalid_request_body err =
     NewAPIError (Sentinel ErrBadRequest) ''Invalid request body'' [(''error'', Error err)]"

definition todoapi_Create :: "'s TodoService \<Rightarrow> time \<Rightarrow> uuid \<Rightarrow> 's HandlerFunc" where
  "todoapi_Create svc now newID e s =
     (case rq_BindTodo (ec_req e) of
        Inl err \<Rightarrow> ((Some (invalid_request_body err), e), s)
      | Inr req \<Rightarrow>
          (case CreateTodo svc (ec_ctx e) req now newID s of
             (Inl err, s1) \<Rightarrow> ((Some err, e), s1)
           | (Inr out, s1) \<Rightarrow> (JSON 201 (PTodo out) e, s1)))"

definition todoapi_List :: "'s TodoService \<Rightarrow> 's HandlerFunc" where
  "todoapi_List svc e s =
     (case ListAllTodos svc (ec_ctx e) s of
        (Inl err, s1) \<Rightarrow> ((Some err, e), s1)
      | (Inr out, s1) \<Rightarrow> (JSON 200 (PTodos out) e, s1))"

definition todoapi_get :: "string \<Rightarrow> 's TodoService \<Rightarrow> 's HandlerFunc" where
  "todoapi_get param svc e s =
     (case FindTodoById svc (ec_ctx e) (rq_Param (ec_req e) param) s of
        (Inl err, s1) \<Rightarrow> ((Some err, e), s1)
      | (Inr out, s1) \<Rightarrow> (JSON 200 (PTodo out) e, s1))"

definition todoapi_update :: "string \<Rightarrow> 's TodoService \<Rightarrow> time \<Rightarrow> 's HandlerFunc" where
  "todoapi_update param svc now e s =
     (case rq_BindTodo (ec_req e) of
        Inl err \<Rightarrow> ((Some (invalid_request_body err), e), s)
      | Inr req \<Rightarrow>
          (case UpdateTodo svc (ec_ctx e) (rq_Param (ec_req e) param) req now s of
             (Inl err, s1) \<Rightarrow> ((Some err, e), s1)
           | (Inr out, s1) \<Rightarrow> (JSON 200 (PTodo out) e, s1)))"

definition todoapi_delete :: "string \<Rightarrow> 's TodoService \<Rightarrow> 's HandlerFunc" where
  "todoapi_delete param svc e s =
     (case DeleteTodo svc (ec_ctx e) (rq_Param (ec_req e) param) s of
        (Some err, s1) \<Rightarrow> ((Some err, e), s1)
      | (None, s1) \<Rightarrow> (JSON 200 (PMap [(''message'', ''todo deleted successfully'')]) e, s1))"

definition todoapi_Get :: "'s TodoService \<Rightarrow> 's HandlerFunc" where
  "todoapi_Get = todoapi_get ''id''"

definition todoapi_Update :: "'s TodoService \<Rightarrow> time \<Rightarrow> 's HandlerFunc" where
  "todoapi_Update = todoapi_update ''id''"

definition todoapi_Delete :: "'s TodoService \<Rightarrow> 's HandlerFunc" where
  "todoapi_Delete = todoapi_delete ''id''"

definition todoapi_GetLegacy :: "'s TodoService \<Rightarrow> 's HandlerFunc" where
  "todoapi_GetLegacy = todoapi_get ''todo-id''"

definition todoapi_UpdateLegacy :: "'s TodoService \<Rightarrow> time \<Rightarrow> 's HandlerFunc" where
  "todoapi_UpdateLegacy = todoapi_update ''todo-id''"

definition todoapi_DeleteLegacy :: "'s TodoService \<Rightarrow> 's HandlerFunc" where
  "todoapi_DeleteLegacy = todoapi_delete ''todo-id''"

subsection \<open>Pages shared by both domains\<close>

definition web_csrf :: "AuthConfig \<Rightarrow> byte list \<Rightarrow> echo \<Rightarrow> string \<times> echo" where
  "web_csrf cfg random e =
     (case cookie e (ac_CSRFCookieName cfg) of
        Some v \<Rightarrow> (v, e)
      | None \<Rightarrow>
          let token = NewCSRFToken random in (token, SetCookie (csrf_cookie cfg token) e))"

definition web_user :: "echo \<Rightarrow> string" where
  "web_user e =
     (case FromContext (ec_ctx e) of (p, ok) \<Rightarrow> if ok \<and> UserID p \<noteq> '''' then UserID p else '''')"

definition web_shell ::
  "flash_codec \<Rightarrow> AuthConfig \<Rightarrow> byte list \<Rightarrow> string \<Rightarrow> string \<Rightarrow> echo \<Rightarrow> Shell \<times> echo" where
  "web_shell k cfg random title nav e =
     (case web_csrf cfg random e of (csrf, e1) \<Rightarrow>
        (case ConsumeFlash k e1 of (flashes, e2) \<Rightarrow>
           (\<lparr>sh_Title = title, sh_CSRF = csrf, sh_Flash = flashes, sh_User = web_user e2, sh_Nav = nav\<rparr>, e2)))"

subsection \<open>Todos pages\<close>

definition no_errors :: FormErrors where
  "no_errors = \<lparr>fe_Global = '''', fe_Fields = []\<rparr>"

definition todo_page ::
  "flash_codec \<Rightarrow> AuthConfig \<Rightarrow> byte list \<Rightarrow> Todo list \<Rightarrow> string \<Rightarrow> FormErrors \<Rightarrow> echo \<Rightarrow> page \<times> echo" where
  "todo_page k cfg random items form errs e =
     (case web_shell k cfg random ''Todos'' ''todos'' e of (sh, e1) \<Rightarrow> (TodoListPage sh items form errs, e1))"

definition todoweb_List ::
  "flash_codec \<Rightarrow> renderer \<Rightarrow> AuthConfig \<Rightarrow> byte list \<Rightarrow> 's TodoService \<Rightarrow> 's HandlerFunc" where
  "todoweb_List k rdr cfg random svc e s =
     (case ListAllTodos svc (ec_ctx e) s of
        (Inl err, s1) \<Rightarrow> ((Some err, e), s1)
      | (Inr items, s1) \<Rightarrow>
          (case todo_page k cfg random items '''' no_errors e of (data, e1) \<Rightarrow>
             if IsHTMX e1 then (RenderFragment rdr ''fragments/todos/list.html'' data e1, s1)
             else (RenderApp rdr ''pages/todos/list.html'' data e1, s1)))"

text \<open>The field message is what follows the last colon of the error text.\<close>

definition label_error :: "goerr \<Rightarrow> string" where
  "label_error err =
     (case LastIndexChar (Error err) (CHR '':'') of
        None \<Rightarrow> ''Label is required''
      | Some i \<Rightarrow> TrimSpace (drop (i + 1) (Error err)))"

definition create_errors :: "goerr \<Rightarrow> FormErrors" where
  "create_errors err =
     (if errors_Is err ErrValidation then \<lparr>fe_Global = '''', fe_Fields = [(''label'', label_error err)]\<rparr>
      else \<lparr>fe_Global = ''Could not create todo'', fe_Fields = []\<rparr>)"

definition todoweb_Create ::
  "flash_codec \<Rightarrow> renderer \<Rightarrow> AuthConfig \<Rightarrow> byte list \<Rightarrow> 's TodoService \<Rightarrow> time \<Rightarrow> uuid \<Rightarrow> 's HandlerFunc" where
  "todoweb_Create k rdr cfg random svc now newID e s =
     (let label = TrimSpace (rq_FormValue (ec_req e) ''label'') in
      case CreateTodo svc (ec_ctx e) \<lparr>tp_Label = label, tp_Completed = False\<rparr> now newID s of
        (Inl err, s1) \<Rightarrow>
          (case ListAllTodos svc (ec_ctx e) s1 of (r, s2) \<Rightarrow>
             let items = (case r of Inl _ \<Rightarrow> [] | Inr l \<Rightarrow> l) in
             (case todo_page k cfg random items label (create_errors err) e of (data, e1) \<Rightarrow>
                if IsHTMX e1 then (RenderFragmentStatus rdr 422 ''pages/todos/list.html'' data e1, s2)
                else (RenderAppStatus rdr 422 ''pages/todos/list.html'' data e1, s2)))
      | (Inr _, s1) \<Rightarrow>
          if IsHTMX e then
            (case ListAllTodos svc (ec_ctx e) s1 of
               (Inl err, s2) \<Rightarrow> ((Some err, e), s2)
             | (Inr items, s2) \<Rightarrow>
                 (case todo_page k cfg random items '''' no_errors e of (data, e1) \<Rightarrow>
                    (RenderFragment rdr ''fragments/todos/list.html'' data e1, s2)))
          else (Redirect 303 ''/app/todos'' (FlashSuccess k ''Todo created'' e), s1))"

definition todoweb_Delete ::
  "flash_codec \<Rightarrow> renderer \<Rightarrow> AuthConfig \<Rightarrow> byte list \<Rightarrow> 's TodoService \<Rightarrow> 's HandlerFunc" where
  "todoweb_Delete k rdr cfg random svc e s =
     (case DeleteTodo svc (ec_ctx e) (rq_Param (ec_req e) ''id'') s of
        (Some err, s1) \<Rightarrow> ((Some err, e), s1)
      | (None, s1) \<Rightarrow> todoweb_List k rdr cfg random svc (FlashSuccess k ''Todo deleted'' e) s1)"

subsection \<open>Reports API\<close>

definition reportapi_Create ::
  "('e, 's) ReportService \<Rightarrow> time \<Rightarrow> uuid \<Rightarrow> 'e \<Rightarrow> 's HandlerFunc" where
  "reportapi_Create svc now newID env e s =
     (case rq_BindReport (ec_req e) of
        Inl _ \<Rightarrow> ((Some invalid_body, e), s)
      | Inr req \<Rightarrow>
          (case CreateReport svc (ec_ctx e) req now newID env s of
             (Inl err, s1) \<Rightarrow> ((Some err, e), s1)
           | (Inr out, s1) \<Rightarrow>
               (JSON 202 (PReport out)
                  (SetHeader ''Location'' (''/api/v1/reports/'' @ uuid_String (rp_ReportID out)) e), s1)))"

definition reportapi_List :: "('e, 's) ReportService \<Rightarrow> 's HandlerFunc" where
  "reportapi_List svc e s =
     (case ListReports svc (ec_ctx e) s of
        (Inl err, s1) \<Rightarrow> ((Some err, e), s1)
      | (Inr out, s1) \<Rightarrow> (JSON 200 (PReports out) e, s1))"

definition reportapi_Get :: "('e, 's) ReportService \<Rightarrow> 's HandlerFunc" where
  "reportapi_Get svc e s =
     (case GetReport svc (ec_ctx e) (rq_Param (ec_req e) ''id'') s of
        (Inl err, s1) \<Rightarrow> ((Some err, e), s1)
      | (Inr out, s1) \<Rightarrow> (JSON 200 (PReport out) e, s1))"

subsection \<open>Reports pages\<close>

definition reportweb_List ::
  "flash_codec \<Rightarrow> renderer \<Rightarrow> AuthConfig \<Rightarrow> byte list \<Rightarrow> ('e, 's) ReportService \<Rightarrow> 's HandlerFunc" where
  "reportweb_List k rdr cfg random svc e s =
     (case ListReports svc (ec_ctx e) s of
        (Inl err, s1) \<Rightarrow> ((Some err, e), s1)
      | (Inr items, s1) \<Rightarrow>
          (case web_shell k cfg random ''Reports'' ''reports'' e of (sh, e1) \<Rightarrow>
             if IsHTMX e1 then (RenderFragment rdr ''fragments/reports/list.html'' (ReportListPage sh items) e1, s1)
             else (RenderApp rdr ''pages/reports/list.html'' (ReportListPage sh items) e1, s1)))"

definition reportweb_Create ::
  "flash_codec \<Rightarrow> renderer \<Rightarrow> AuthConfig \<Rightarrow> byte list \<Rightarrow> ('e, 's) ReportService \<Rightarrow> time \<Rightarrow> uuid \<Rightarrow> 'e \<Rightarrow>
   's HandlerFunc" where
  "reportweb_Create k rdr cfg random svc now newID env e s =
     (case CreateReport svc (ec_ctx e) \<lparr>cr_Type = rq_FormValue (ec_req e) ''type''\<rparr> now newID env s of
        (Inl err, s1) \<Rightarrow> ((Some err, e), s1)
      | (Inr r, s1) \<Rightarrow>
          let e1 = FlashInfo k ''Report generation started'' e in
          if IsHTMX e1 then reportweb_List k rdr cfg random svc e1 s1
          else (Redirect 303 (''/app/reports/'' @ uuid_String (rp_ReportID r)) e1, s1))"

definition reportweb_Show ::
  "flash_codec \<Rightarrow> renderer \<Rightarrow> AuthConfig \<Rightarrow> byte list \<Rightarrow> ('e, 's) ReportService \<Rightarrow> 's HandlerFunc" where
  "reportweb_Show k rdr cfg random svc e s =
     (case GetReport svc (ec_ctx e) (rq_Param (ec_req e) ''id'') s of
        (Inl err, s1) \<Rightarrow> ((Some err, e), s1)
      | (Inr r, s1) \<Rightarrow>
          (case web_shell k cfg random ''Report'' ''reports'' e of (sh, e1) \<Rightarrow>
             (RenderApp rdr ''pages/reports/show.html'' (ReportShowPage sh r) e1, s1)))"

definition reportweb_StatusFragment :: "renderer \<Rightarrow> ('e, 's) ReportService \<Rightarrow> 's HandlerFunc" where
  "reportweb_StatusFragment rdr svc e s =
     (case GetReport svc (ec_ctx e) (rq_Param (ec_req e) ''id'') s of
        (Inl err, s1) \<Rightarrow> ((Some err, e), s1)
      | (Inr r, s1) \<Rightarrow>
          (RenderFragment rdr ''fragments/reports/status.html'' (ReportShowPage zero_Shell r) e, s1))"

lemmas todoapi_defs =
  todoapi_Get_def todoapi_Update_def todoapi_Delete_def todoapi_GetLegacy_def
  todoapi_UpdateLegacy_def todoapi_DeleteLegacy_def todoapi_get_def todoapi_update_def todoapi_delete_def

subsection \<open>Frames of the page helpers\<close>

lemma PeekFlash_frame [simp]:
  "ec_req (snd (PeekFlash k e)) = ec_req e" "ec_ctx (snd (PeekFlash k e)) = ec_ctx e"
  "ec_committed (snd (PeekFlash k e)) = ec_committed e" "ec_cookies (snd (PeekFlash k e)) = ec_cookies e"
  "ec_status (snd (PeekFlash k e)) = ec_status e" "ec_body (snd (PeekFlash k e)) = ec_body e"
  by (simp_all add: PeekFlash_def split: option.splits)

lemma SetFlash_frame [simp]:
  "ec_req (SetFlash k fs e) = ec_req e" "ec_ctx (SetFlash k fs e) = ec_ctx e"
  "ec_committed (SetFlash k fs e) = ec_committed e" "ec_status (SetFlash k fs e) = ec_status e"
  by (simp_all add: SetFlash_def Let_def case_prod_beta split: option.splits)

lemma web_shell_frame [simp]:
  "ec_req (snd (web_shell k cfg random title nav e)) = ec_req e"
  "ec_committed (snd (web_shell k cfg random title nav e)) = ec_committed e"
  "ec_ctx (snd (web_shell k cfg random title nav e)) = ec_ctx e"
proof -
  obtain t e1 where c: "web_csrf cfg random e = (t, e1)" by force
  then have e1: "ec_req e1 = ec_req e" "ec_committed e1 = ec_committed e" "ec_ctx e1 = ec_ctx e"
    by (auto simp: web_csrf_def Let_def split: option.splits)
  show "ec_req (snd (web_shell k cfg random title nav e)) = ec_req e"
    and "ec_committed (snd (web_shell k cfg random title nav e)) = ec_committed e"
    and "ec_ctx (snd (web_shell k cfg random title nav e)) = ec_ctx e"
    by (simp_all add: web_shell_def c ConsumeFlash_def clearFlash_def e1 case_prod_beta)
qed

text \<open>The label message of a rejected form, for the one validation error the service reports.\<close>

lemma label_error_required:
  "label_error (Errorf_w (Sentinel ErrValidation) ''label is required'') = ''label is required''"
  by (simp add: label_error_def Errorf_w_def TrimSpace_def isSpace_def)

end
