(* ===== verification/Logging.thy ===== *)
theory Logging
  imports Database "HOL-Library.List_Lexorder" "HOL-Library.Char_ord"
begin

text \<open>
  \<open>platform/logging/logging.go\<close>: the levels, the global logger, the request id that travels
  in the context, and what one call of a log method does. The package variables
  \<open>globalLogger\<close> and \<open>appEnv\<close> are the record \<open>logging\<close>; of the zap logger its level is kept,
  since the core only writes what the level admits. The text of the clock and of the
  goroutine's stack are arguments (\<open>log_env\<close>), and so is the random UUID of a context without
  a request id.
\<close>

subsection \<open>Levels\<close>

datatype LogLevel = DebugLevel | InfoLevel | WarnLevel | ErrorLevel | FatalLevel

fun level_text :: "LogLevel \<Rightarrow> string" where
  "level_text DebugLevel = ''DEBUG''"
| "level_text InfoLevel = ''INFO''"
| "level_text WarnLevel = ''WARN''"
| "level_text ErrorLevel = ''ERROR''"
| "level_text FatalLevel = ''FATAL''"

text \<open>The order of zap's levels, by zap's numbers.\<close>

fun severity :: "LogLevel \<Rightarrow> int" where
  "severity DebugLevel = -1"
| "severity InfoLevel = 0"
| "severity WarnLevel = 1"
| "severity ErrorLevel = 2"
| "severity FatalLevel = 5"

lemma severity_inject: "severity a = severity b \<Longrightarrow> a = b"
  by (cases a; cases b) simp_all

instantiation LogLevel :: linorder
begin

definition less_eq_LogLevel :: "LogLevel \<Rightarrow> LogLevel \<Rightarrow> bool" where
  "less_eq_LogLevel a b \<longleftrightarrow> severity a \<le> severity b"

definition less_LogLevel :: "LogLevel \<Rightarrow> LogLevel \<Rightarrow> bool" where
  "less_LogLevel a b \<longleftrightarrow> severity a < severity b"

instance
  by standard (auto simp: less_eq_LogLevel_def less_LogLevel_def dest: severity_inject)

end

lemma FatalLevel_max [simp]: "l \<le> FatalLevel"
  by (cases l) (simp_all add: less_eq_LogLevel_def)

lemma DebugLevel_min [simp]: "DebugLevel \<le> l"
  by (cases l) (simp_all add: less_eq_LogLevel_def)

text \<open>The \<open>switch\<close> of \<open>Initialize\<close>; \<open>None\<close> is its default branch.\<close>

definition parse_level :: "string \<Rightarrow> LogLevel option" where
  "parse_level s =
     (let u = ToUpper s in
      if u = ''DEBUG'' then Some DebugLevel
      else if u = ''INFO'' then Some InfoLevel
      else if u = ''WARN'' then Some WarnLevel
      else if u = ''ERROR'' then Some ErrorLevel
      else if u = ''FATAL'' then Some FatalLevel
      else None)"

lemma parse_level_text [simp]: "parse_level (level_text l) = Some l"
  by (cases l) (simp_all add: parse_level_def ToUpper_def upperChar_def)

lemma parse_level_upper: "parse_level (ToUpper s) = parse_level s"
  by (simp add: parse_level_def)

lemma parse_level_Some: "parse_level s = Some l \<longleftrightarrow> ToUpper s = level_text l"
  by (cases l) (auto simp: parse_level_def Let_def)

subsection \<open>The global logger\<close>

record logging =
  globalLogger :: "LogLevel option"
  appEnv :: string

definition no_logging :: logging where
  "no_logging = \<lparr>globalLogger = None, appEnv = ''''\<rparr>"

text \<open>\<open>Initialize\<close>: the lines printed to standard output, the error, the package state after it.\<close>

definition Initialize :: "string \<Rightarrow> string \<Rightarrow> string list \<times> goerr option \<times> logging" where
  "Initialize environment logLevelString =
     (case parse_level logLevelString of
        Some level \<Rightarrow> ([], None, \<lparr>globalLogger = Some level, appEnv = environment\<rparr>)
      | None \<Rightarrow>
          ([''Warning: Invalid LOG_LEVEL '' @ [CHR 0x27] @ logLevelString @ [CHR 0x27] @ '', defaulting to DEBUG'' @ [CHR 0x0A]],
           None, \<lparr>globalLogger = Some DebugLevel, appEnv = environment\<rparr>))"

text \<open>\<open>flush\<close> is what zap's own \<open>Sync\<close> answers.\<close>

definition Sync :: "logging \<Rightarrow> goerr option \<Rightarrow> goerr option" where
  "Sync st flush = (if globalLogger st = None then None else flush)"

lemma Initialize_ok:
  "Initialize env lvl = (out, err, st) \<Longrightarrow> err = None \<and> globalLogger st \<noteq> None \<and> appEnv st = env"
  by (auto simp: Initialize_def split: option.splits)

subsection \<open>Request ids\<close>

definition ContextWithRequestID :: "ctx \<Rightarrow> string \<Rightarrow> ctx" where
  "ContextWithRequestID c requestID = c\<lparr>ctx_request_id := Some requestID\<rparr>"

text \<open>A \<open>nil\<close> context is \<open>None\<close>.\<close>

definition RequestIDFromContext :: "ctx option \<Rightarrow> string" where
  "RequestIDFromContext ctx =
     (case ctx of None \<Rightarrow> ''''
      | Some c \<Rightarrow> (case ctx_request_id c of Some i \<Rightarrow> i
         | None \<Rightarrow> (case ctx_request_id_plain c of Some i \<Rightarrow> i | None \<Rightarrow> '''')))"

record Logger =
  lg_zap :: "LogLevel option"
  lg_component :: string
  lg_traceID :: string

definition logging_WithContext :: "logging \<Rightarrow> ctx option \<Rightarrow> string \<Rightarrow> uuid \<Rightarrow> Logger" where
  "logging_WithContext st ctx component newID =
     (let traceID = RequestIDFromContext ctx in
      \<lparr>lg_zap = globalLogger st, lg_component = component,
       lg_traceID = (if traceID = '''' then uuid_String newID else traceID)\<rparr>)"

lemma RequestIDFromContext_simps [simp]:
  "RequestIDFromContext None = ''''"
  "RequestIDFromContext (Some (ContextWithRequestID c i)) = i"
  "RequestIDFromContext (Some (WithPrincipal c p)) = RequestIDFromContext (Some c)"
  "RequestIDFromContext (Some (ContextWithAttempt c a)) = RequestIDFromContext (Some c)"
  "RequestIDFromContext (Some Background) = ''''"
  by (simp_all add: RequestIDFromContext_def ContextWithRequestID_def WithPrincipal_def
      ContextWithAttempt_def Background_def split: option.split)

lemma FromContext_ContextWithRequestID [simp]:
  "FromContext (ContextWithRequestID c i) = FromContext c"
  "AttemptFromContext (ContextWithRequestID c i) = AttemptFromContext c"
  by (simp_all add: FromContext_def AttemptFromContext_def ContextWithRequestID_def)

lemma WithContext_traced:
  "RequestIDFromContext ctx = i \<Longrightarrow> i \<noteq> '''' \<Longrightarrow>
   logging_WithContext st ctx component newID = \<lparr>lg_zap = globalLogger st, lg_component = component, lg_traceID = i\<rparr>"
  by (simp add: logging_WithContext_def)

subsection \<open>Log calls\<close>

text \<open>A value of a metadata map, as far as \<open>encoding/json\<close> is concerned; \<open>MOther\<close> is one it refuses.\<close>

datatype meta = MString string | MInt int | MOther

type_synonym metadata = "(string \<times> meta) list"

record LogEntry =
  le_Timestamp :: string
  le_Level :: LogLevel
  le_Message :: string
  le_TraceID :: string
  le_Service :: string
  le_Environment :: string
  le_Component :: string
  le_Error :: string
  le_Stack :: string
  le_Metadata :: metadata

fun marshal_meta :: "meta \<Rightarrow> goerr + json" where
  "marshal_meta (MString s) = Inr (JStr s)"
| "marshal_meta (MInt i) = Inr (JNum i)"
| "marshal_meta MOther = Inl (OtherErr ''json: unsupported type'')"

fun marshal_metadata :: "metadata \<Rightarrow> goerr + (string \<times> json) list" where
  "marshal_metadata [] = Inr []"
| "marshal_metadata ((k, v) # kvs) =
     (case marshal_meta v of
        Inl e \<Rightarrow> Inl e
      | Inr j \<Rightarrow> (case marshal_metadata kvs of Inl e \<Rightarrow> Inl e | Inr js \<Rightarrow> Inr ((k, j) # js)))"

definition omitempty :: "string \<Rightarrow> string \<Rightarrow> (string \<times> json) list" where
  "omitempty name v = (if v = '''' then [] else [(name, JStr v)])"

text \<open>\<open>json.Marshal\<close> on an entry: fields in order, empty ones dropped, map keys sorted.\<close>

definition marshal_LogEntry :: "LogEntry \<Rightarrow> goerr + json" where
  "marshal_LogEntry e =
     (case marshal_metadata (sort_key fst (le_Metadata e)) of
        Inl err \<Rightarrow> Inl err
      | Inr ms \<Rightarrow> Inr (JObj (
          [(''timestamp'', JStr (le_Timestamp e)), (''level'', JStr (level_text (le_Level e))),
           (''message'', JStr (le_Message e))] @
          omitempty ''trace_id'' (le_TraceID e) @
          [(''service'', JStr (le_Service e)), (''environment'', JStr (le_Environment e)),
           (''component'', JStr (le_Component e))] @
          omitempty ''error'' (le_Error e) @ omitempty ''stack'' (le_Stack e) @
          (if ms = [] then [] else [(''metadata'', JObj ms)]))))"

record log_env =
  lv_stamp :: string
  lv_stack :: string

text \<open>
  What a call does: a line that is written, a line below the logger's level, the note printed
  when the entry has no JSON form, or the nil dereference when nothing was initialised.
\<close>

datatype log_effect =
    Written LogLevel json
  | Filtered
  | Unmarshalled goerr
  | NilLogger

definition log_entry ::
  "logging \<Rightarrow> Logger \<Rightarrow> log_env \<Rightarrow> LogLevel \<Rightarrow> string \<Rightarrow> goerr option \<Rightarrow> metadata \<Rightarrow> LogEntry" where
  "log_entry st l v level msg err m =
     \<lparr>le_Timestamp = lv_stamp v, le_Level = level, le_Message = msg, le_TraceID = lg_traceID l,
      le_Service = ''app'', le_Environment = appEnv st, le_Component = lg_component l,
      le_Error = (case err of Some e \<Rightarrow> Error e | None \<Rightarrow> ''''),
      le_Stack = (if err \<noteq> None \<and> level \<in> {ErrorLevel, FatalLevel} then lv_stack v else ''''),
      le_Metadata = m\<rparr>"

definition log_call ::
  "logging \<Rightarrow> Logger \<Rightarrow> log_env \<Rightarrow> LogLevel \<Rightarrow> string \<Rightarrow> goerr option \<Rightarrow> metadata \<Rightarrow> log_effect" where
  "log_call st l v level msg err m =
     (case marshal_LogEntry (log_entry st l v level msg err m) of
        Inl e \<Rightarrow> Unmarshalled e
      | Inr j \<Rightarrow>
          (case lg_zap l of
             None \<Rightarrow> NilLogger
           | Some threshold \<Rightarrow> if threshold \<le> level then Written level j else Filtered))"

definition log_Debug where "log_Debug st l v msg m = log_call st l v DebugLevel msg None m"
definition log_Info where "log_Info st l v msg m = log_call st l v InfoLevel msg None m"
definition log_Warn where "log_Warn st l v msg m = log_call st l v WarnLevel msg None m"
definition log_Error where "log_Error st l v msg err m = log_call st l v ErrorLevel msg err m"

text \<open>\<open>Fatal\<close>: the effect, and the exit status of the process unless the call panics.\<close>

definition log_Fatal ::
  "logging \<Rightarrow> Logger \<Rightarrow> log_env \<Rightarrow> string \<Rightarrow> goerr option \<Rightarrow> metadata \<Rightarrow> log_effect \<times> int option" where
  "log_Fatal st l v msg err m =
     (let eff = log_call st l v FatalLevel msg err m
      in (eff, if eff = NilLogger then None else Some 1))"

subsection \<open>What is written\<close>

fun member_text :: "string \<Rightarrow> log_effect \<Rightarrow> string option" where
  "member_text k (Written l (JObj ms)) = (case map_of ms k of Some (JStr s) \<Rightarrow> Some s | _ \<Rightarrow> None)"
| "member_text k _ = None"

definition plain_metadata :: "metadata \<Rightarrow> bool" where
  "plain_metadata m \<longleftrightarrow> MOther \<notin> snd ` set m"

lemma marshal_meta_Inr: "v \<noteq> MOther \<Longrightarrow> \<exists>j. marshal_meta v = Inr j"
  by (cases v) auto

lemma marshal_metadata_Inr:
  "plain_metadata m \<Longrightarrow> \<exists>js. marshal_metadata m = Inr js"
proof (induction m)
  case (Cons kv m)
  obtain k v where kv: "kv = (k, v)" by force
  with Cons.prems have "v \<noteq> MOther" "plain_metadata m" by (auto simp: plain_metadata_def)
  with Cons.IH marshal_meta_Inr [of v] kv show ?case by auto
qed simp

lemma plain_metadata_sort [simp]: "plain_metadata (sort_key f m) = plain_metadata m"
  by (simp add: plain_metadata_def)

lemma marshal_LogEntry_Inr:
  assumes "plain_metadata (le_Metadata e)"
  shows "\<exists>ms. marshal_LogEntry e = Inr (JObj ms) \<and>
    map_of ms ''level'' = Some (JStr (level_text (le_Level e))) \<and>
    map_of ms ''message'' = Some (JStr (le_Message e)) \<and>
    (le_TraceID e \<noteq> '''' \<longrightarrow> map_of ms ''trace_id'' = Some (JStr (le_TraceID e)))"
proof -
  obtain js where "marshal_metadata (sort_key fst (le_Metadata e)) = Inr js"
    using marshal_metadata_Inr [of "sort_key fst (le_Metadata e)"] assms by auto
  then show ?thesis by (auto simp: marshal_LogEntry_def omitempty_def)
qed

text \<open>A call whose metadata has a JSON form is written exactly when its level is admitted.\<close>

lemma log_call_written:
  assumes "lg_zap l = Some threshold" and "plain_metadata m"
  shows "if threshold \<le> level
    then (\<exists>j. log_call st l v level msg err m = Written level j) \<and>
      member_text ''message'' (log_call st l v level msg err m) = Some msg \<and>
      (lg_traceID l \<noteq> '''' \<longrightarrow> member_text ''trace_id'' (log_call st l v level msg err m) = Some (lg_traceID l))
    else log_call st l v level msg err m = Filtered"
proof -
  obtain ms where ms: "marshal_LogEntry (log_entry st l v level msg err m) = Inr (JObj ms)"
    "map_of ms ''message'' = Some (JStr msg)"
    "lg_traceID l \<noteq> '''' \<longrightarrow> map_of ms ''trace_id'' = Some (JStr (lg_traceID l))"
    using marshal_LogEntry_Inr [of "log_entry st l v level msg err m"] assms(2)
    by (auto simp: log_entry_def)
  then show ?thesis using assms(1) by (auto simp: log_call_def)
qed

lemma log_Fatal_exits:
  "lg_zap l = Some threshold \<Longrightarrow> snd (log_Fatal st l v msg err m) = Some 1"
  by (auto simp: log_Fatal_def log_call_def Let_def split: sum.splits)

end
