(* ===== verification/Cors.thy ===== *)
theory Cors
  imports Httpx
begin

text \<open>
  Cross-origin requests: Echo's CORS middleware (\<open>middleware/cors.go\<close> and
  \<open>middleware/util.go\<close> of the vendored copy) as \<open>NewEcho\<close> configures it. The regular
  expressions the middleware makes of the origins have no other metacharacters than \<open>.*\<close>
  and \<open>.\<close>, so they are the matcher \<open>glob\<close>, on ASCII text.
\<close>

subsection \<open>Origins\<close>

fun glob :: "string \<Rightarrow> string \<Rightarrow> bool" where
  "glob [] s \<longleftrightarrow> s = []"
| "glob (p # ps) [] \<longleftrightarrow> p = CHR ''*'' \<and> glob ps []"
| "glob (p # ps) (x # xs) \<longleftrightarrow>
     (if p = CHR ''*'' then glob ps (x # xs) \<or> (x \<noteq> CHR 0x0A \<and> glob (p # ps) xs)
      else if p = CHR ''?'' then x \<noteq> CHR 0x0A \<and> glob ps xs
      else p = x \<and> glob ps xs)"

text \<open>The text before the first \<open>":"\<close>, and after the first \<open>"://"\<close>.\<close>

fun before_colon :: "string \<Rightarrow> string option" where
  "before_colon [] = None"
| "before_colon (c # cs) = (if c = CHR '':'' then Some [] else map_option ((#) c) (before_colon cs))"

fun after_scheme :: "string \<Rightarrow> string option" where
  "after_scheme [] = None"
| "after_scheme (c # cs) = (if HasPrefix (c # cs) ''://'' then Some (drop 3 (c # cs)) else after_scheme cs)"

definition matchScheme :: "string \<Rightarrow> string \<Rightarrow> bool" where
  "matchScheme domain pattern \<longleftrightarrow>
     (case (before_colon domain, before_colon pattern) of (Some d, Some p) \<Rightarrow> d = p | _ \<Rightarrow> False)"

fun match_components :: "string list \<Rightarrow> string list \<Rightarrow> bool" where
  "match_components [] ps = False"
| "match_components (v # vs) [] = False"
| "match_components (v # vs) (p # ps) =
     (if p = ''*'' then True else if p \<noteq> v then False else match_components vs ps)"

definition matchSubdomain :: "string \<Rightarrow> string \<Rightarrow> bool" where
  "matchSubdomain domain pattern =
     (if \<not> matchScheme domain pattern then False
      else (case (after_scheme domain, after_scheme pattern) of
        (Some domAuth, Some patAuth) \<Rightarrow>
          (if length domAuth > 253 then False
           else match_components (rev (splitOn CHR ''.'' domAuth)) (rev (splitOn CHR ''.'' patAuth)))
      | _ \<Rightarrow> False))"

text \<open>The loop over the configured origins; the empty text stands for no match.\<close>

fun allow_loop :: "string \<Rightarrow> string list \<Rightarrow> string" where
  "allow_loop origin [] = ''''"
| "allow_loop origin (o' # os) =
     (if o' = ''*'' \<or> o' = origin then o'
      else if matchSubdomain origin o' then origin
      else allow_loop origin os)"

definition allow_origin :: "string list \<Rightarrow> string \<Rightarrow> string" where
  "allow_origin origins origin =
     (let a = allow_loop origin origins in
      if a = '''' \<and> length origin \<le> 253 + 3 + 5 \<and> after_scheme origin \<noteq> None \<and>
         (\<exists>p \<in> set origins. glob p origin)
      then origin else a)"

subsection \<open>The middleware\<close>

record CORSConfig =
  co_AllowOrigins :: "string list"
  co_AllowMethods :: "string list"
  co_AllowHeaders :: "string list"
  co_ExposeHeaders :: "string list"
  co_AllowCredentials :: bool
  co_MaxAge :: int

definition NoContentNow :: "int \<Rightarrow> 's HandlerFunc" where
  "NoContentNow status e s = (NoContent status e, s)"

definition preflight_headers :: "CORSConfig \<Rightarrow> echo \<Rightarrow> echo" where
  "preflight_headers config e =
     (let e1 = AddHeader ''Vary'' ''Access-Control-Request-Headers''
                 (AddHeader ''Vary'' ''Access-Control-Request-Method'' e);
          e2 = SetHeader ''Access-Control-Allow-Methods'' (Join (co_AllowMethods config) '','') e1;
          asked = rq_Header (ec_req e) ''Access-Control-Request-Headers'';
          e3 = (if Join (co_AllowHeaders config) '','' \<noteq> ''''
                then SetHeader ''Access-Control-Allow-Headers'' (Join (co_AllowHeaders config) '','') e2
                else if asked \<noteq> '''' then SetHeader ''Access-Control-Allow-Headers'' asked e2 else e2)
      in if co_MaxAge config \<noteq> 0
         then SetHeader ''Access-Control-Max-Age'' (if co_MaxAge config > 0 then Itoa (co_MaxAge config) else ''0'') e3
         else e3)"

definition CORS_Middleware :: "CORSConfig \<Rightarrow> 's HandlerFunc \<Rightarrow> 's HandlerFunc" where
  "CORS_Middleware config next e s =
     (let origins = (if co_AllowOrigins config = [] then [''*''] else co_AllowOrigins config);
          origin = rq_Header (ec_req e) ''Origin'';
          preflight = (rq_Method (ec_req e) = ''OPTIONS'');
          e1 = AddHeader ''Vary'' ''Origin'' e;
          e2 = (if preflight \<and> rq_Allow (ec_req e) \<noteq> '''' then SetHeader ''Allow'' (rq_Allow (ec_req e)) e1 else e1);
          allowOrigin = (if origin = '''' then '''' else allow_origin origins origin)
      in if allowOrigin = '''' then (if \<not> preflight then next e2 s else NoContentNow 204 e2 s)
         else
           let e3 = SetHeader ''Access-Control-Allow-Origin'' allowOrigin e2;
               e4 = (if co_AllowCredentials config then SetHeader ''Access-Control-Allow-Credentials'' ''true'' e3 else e3);
               expose = Join (co_ExposeHeaders config) '',''
           in if \<not> preflight then next (if expose \<noteq> '''' then SetHeader ''Access-Control-Expose-Headers'' expose e4 else e4) s
              else NoContentNow 204 (preflight_headers config e4) s)"

text \<open>The origin that is answered to a request, empty for none.\<close>

definition cors_origin :: "CORSConfig \<Rightarrow> Request \<Rightarrow> string" where
  "cors_origin config req =
     (if rq_Header req ''Origin'' = '''' then ''''
      else allow_origin (if co_AllowOrigins config = [] then [''*''] else co_AllowOrigins config)
        (rq_Header req ''Origin''))"

text \<open>What a request that is no preflight carries on to the next handler.\<close>

definition cors_headers :: "CORSConfig \<Rightarrow> echo \<Rightarrow> echo" where
  "cors_headers config e =
     (let a = cors_origin config (ec_req e);
          e1 = AddHeader ''Vary'' ''Origin'' e;
          e3 = SetHeader ''Access-Control-Allow-Origin'' a e1;
          e4 = (if co_AllowCredentials config then SetHeader ''Access-Control-Allow-Credentials'' ''true'' e3 else e3);
          expose = Join (co_ExposeHeaders config) '',''
      in if a = '''' then e1
         else if expose \<noteq> '''' then SetHeader ''Access-Control-Expose-Headers'' expose e4 else e4)"

lemma CORS_passes:
  "rq_Method (ec_req e) \<noteq> ''OPTIONS'' \<Longrightarrow> CORS_Middleware config next e s = next (cors_headers config e) s"
  by (simp add: CORS_Middleware_def cors_headers_def cors_origin_def Let_def)

lemma cors_headers_simps [simp]:
  "ec_req (cors_headers config e) = ec_req e" "ec_ctx (cors_headers config e) = ec_ctx e"
  "ec_committed (cors_headers config e) = ec_committed e" "ec_flash (cors_headers config e) = ec_flash e"
  "ec_status (cors_headers config e) = ec_status e" "ec_body (cors_headers config e) = ec_body e"
  "ec_cookies (cors_headers config e) = ec_cookies e"
  by (simp_all add: cors_headers_def Let_def)

text \<open>The headers that tell a browser whether a page of another origin may read the answer.\<close>

definition cors_answer :: "CORSConfig \<Rightarrow> Request \<Rightarrow> (string \<times> string) list \<Rightarrow> bool" where
  "cors_answer config req hs \<longleftrightarrow>
     map_of hs ''Access-Control-Allow-Origin'' =
       (if cors_origin config req = '''' then None else Some (cors_origin config req)) \<and>
     map_of hs ''Access-Control-Allow-Credentials'' =
       (if cors_origin config req \<noteq> '''' \<and> co_AllowCredentials config then Some ''true'' else None)"

definition cors_fresh :: "echo \<Rightarrow> bool" where
  "cors_fresh e \<longleftrightarrow> \<not> ec_committed e \<and> map_of (ec_headers e) ''Access-Control-Allow-Origin'' = None \<and>
     map_of (ec_headers e) ''Access-Control-Allow-Credentials'' = None"

lemma cors_headers_answer:
  "cors_fresh e \<Longrightarrow> cors_answer config (ec_req e) (ec_headers (cors_headers config e))"
  by (simp add: cors_fresh_def cors_answer_def cors_headers_def Let_def)

lemma preflight_headers_simps [simp]:
  "ec_req (preflight_headers config e) = ec_req e" "ec_ctx (preflight_headers config e) = ec_ctx e"
  "ec_committed (preflight_headers config e) = ec_committed e"
  by (simp_all add: preflight_headers_def Let_def)

lemma preflight_headers_other:
  assumes "k \<notin> {''Vary'', ''Access-Control-Allow-Methods'', ''Access-Control-Allow-Headers'', ''Access-Control-Max-Age''}"
  shows "map_of (ec_headers (preflight_headers config e)) k = map_of (ec_headers e) k"
proof -
  from assms have k: "k \<noteq> ''Vary''" "k \<noteq> ''Access-Control-Allow-Methods''" "k \<noteq> ''Access-Control-Allow-Headers''"
    "k \<noteq> ''Access-Control-Max-Age''" by simp_all
  show ?thesis unfolding preflight_headers_def Let_def
    by (simp only: header_other k not_False_eq_True simp_thms split: if_split)
qed

text \<open>A preflight is answered here, with nothing in its body, whatever its origin.\<close>

definition preflight_allow :: "echo \<Rightarrow> echo" where
  "preflight_allow e =
     (let e1 = AddHeader ''Vary'' ''Origin'' e
      in if rq_Allow (ec_req e) \<noteq> '''' then SetHeader ''Allow'' (rq_Allow (ec_req e)) e1 else e1)"

definition preflight_origin :: "CORSConfig \<Rightarrow> echo \<Rightarrow> echo" where
  "preflight_origin config e =
     (let e1 = SetHeader ''Access-Control-Allow-Origin'' (cors_origin config (ec_req e)) e
      in if co_AllowCredentials config then SetHeader ''Access-Control-Allow-Credentials'' ''true'' e1 else e1)"

definition preflight_echo :: "CORSConfig \<Rightarrow> echo \<Rightarrow> echo" where
  "preflight_echo config e =
     (if cors_origin config (ec_req e) = '''' then preflight_allow e
      else preflight_headers config (preflight_origin config (preflight_allow e)))"

lemma preflight_steps [simp]:
  "ec_ctx (preflight_allow e) = ec_ctx e" "ec_ctx (preflight_origin config e) = ec_ctx e"
  "ec_req (preflight_allow e) = ec_req e" "ec_committed (preflight_allow e) = ec_committed e"
  "ec_req (preflight_origin config e) = ec_req e" "ec_committed (preflight_origin config e) = ec_committed e"
  by (simp_all add: preflight_allow_def preflight_origin_def Let_def)

lemma preflight_echo_simps [simp]:
  "ec_req (preflight_echo config e) = ec_req e" "ec_ctx (preflight_echo config e) = ec_ctx e"
  "ec_committed (preflight_echo config e) = ec_committed e"
  by (simp_all add: preflight_echo_def)

lemma CORS_preflight_eq:
  "rq_Method (ec_req e) = ''OPTIONS'' \<Longrightarrow>
   CORS_Middleware config next e s = ((None, respond 204 NoBody (preflight_echo config e)), s)"
  by (simp add: CORS_Middleware_def cors_origin_def preflight_echo_def preflight_allow_def preflight_origin_def
      NoContentNow_def NoContent_def Let_def)

lemma preflight_allow_other:
  "k \<noteq> ''Vary'' \<Longrightarrow> k \<noteq> ''Allow'' \<Longrightarrow> map_of (ec_headers (preflight_allow e)) k = map_of (ec_headers e) k"
  by (simp add: preflight_allow_def Let_def header_other)

lemma preflight_origin_other:
  "k \<noteq> ''Access-Control-Allow-Origin'' \<Longrightarrow> k \<noteq> ''Access-Control-Allow-Credentials'' \<Longrightarrow>
   map_of (ec_headers (preflight_origin config e)) k = map_of (ec_headers e) k"
  by (simp add: preflight_origin_def Let_def header_other)

lemma CORS_preflight:
  assumes "rq_Method (ec_req e) = ''OPTIONS''" and "cors_fresh e"
    and "CORS_Middleware config next e s = ((err, e'), s')"
  shows "err = None \<and> s' = s \<and> ec_committed e' \<and> ec_status e' = 204 \<and> ec_body e' = NoBody \<and> ec_req e' = ec_req e \<and>
    cors_answer config (ec_req e) (ec_headers e')"
proof -
  have c: "\<not> ec_committed (preflight_echo config e)" "ec_req (preflight_echo config e) = ec_req e"
    using assms(2) by (simp_all add: cors_fresh_def preflight_echo_def)
  have "cors_answer config (ec_req e) (ec_headers (preflight_echo config e))"
    using assms(2) by (simp add: cors_answer_def cors_fresh_def preflight_echo_def preflight_headers_other
        preflight_allow_other preflight_origin_def Let_def)
  with c CORS_preflight_eq [OF assms(1), of config "next" s] assms(3) show ?thesis by auto
qed

text \<open>The other headers stay as they are.\<close>

definition cors_header_names :: "string set" where
  "cors_header_names = {''Vary'', ''Allow'', ''Access-Control-Allow-Origin'', ''Access-Control-Allow-Credentials'',
     ''Access-Control-Expose-Headers'', ''Access-Control-Allow-Methods'', ''Access-Control-Allow-Headers'',
     ''Access-Control-Max-Age''}"

lemma cors_headers_other:
  "k \<notin> cors_header_names \<Longrightarrow> map_of (ec_headers (cors_headers config e)) k = map_of (ec_headers e) k"
  by (simp add: cors_headers_def cors_header_names_def Let_def header_other)

lemma preflight_echo_other:
  "k \<notin> cors_header_names \<Longrightarrow> map_of (ec_headers (preflight_echo config e)) k = map_of (ec_headers e) k"
  by (simp add: preflight_echo_def cors_header_names_def preflight_allow_other preflight_origin_other
      preflight_headers_other)

subsection \<open>Origins without wildcards\<close>

definition literal_origin :: "string \<Rightarrow> bool" where
  "literal_origin p \<longleftrightarrow> CHR ''*'' \<notin> set p \<and> CHR ''?'' \<notin> set p"

lemma glob_literal: "literal_origin p \<Longrightarrow> glob p s \<longleftrightarrow> p = s"
  by (induction p s rule: glob.induct) (auto simp: literal_origin_def)

lemma splitOn_pieces: "p \<in> set (splitOn d s) \<Longrightarrow> set p \<subseteq> set s"
  by (induction s arbitrary: p) (auto split: if_splits list.splits, blast+)

lemma after_scheme_suffix: "after_scheme s = Some t \<Longrightarrow> set t \<subseteq> set s"
  by (induction s) (auto split: if_splits dest: in_set_dropD)

lemma match_components_literal: "''*'' \<notin> set ps \<Longrightarrow> \<not> match_components vs ps"
  by (induction vs ps rule: match_components.induct) (auto split: if_splits)

lemma matchSubdomain_literal: "literal_origin p \<Longrightarrow> \<not> matchSubdomain s p"
proof
  assume p: "literal_origin p" and m: "matchSubdomain s p"
  then obtain d a where a: "after_scheme p = Some a"
    and c: "match_components d (rev (splitOn CHR ''.'' a))"
    by (auto simp: matchSubdomain_def split: if_splits option.splits)
  have "''*'' \<notin> set (splitOn CHR ''.'' a)"
    using splitOn_pieces [of "''*''" "CHR ''.''" a] after_scheme_suffix [OF a] p by (auto simp: literal_origin_def)
  with match_components_literal c show False by simp
qed

lemma allow_loop_cases:
  "allow_loop origin os = '''' \<or> allow_loop origin os = ''*'' \<and> ''*'' \<in> set os \<or>
   allow_loop origin os = origin \<and> (origin \<in> set os \<or> (\<exists>p \<in> set os. matchSubdomain origin p))"
  by (induction os) auto

text \<open>What the header can say, and that a list of plain origins admits exactly its members.\<close>

lemma allow_origin_cases:
  "allow_origin os origin = '''' \<or> allow_origin os origin = ''*'' \<and> ''*'' \<in> set os \<or>
   allow_origin os origin = origin \<and> (\<exists>p \<in> set os. p = origin \<or> matchSubdomain origin p \<or> glob p origin)"
  using allow_loop_cases [of origin os] by (auto simp: allow_origin_def Let_def)

lemma allow_loop_literal:
  "\<forall>p \<in> set os. literal_origin p \<Longrightarrow> allow_loop origin os = (if origin \<in> set os then origin else '''')"
  by (induction os) (auto simp: matchSubdomain_literal literal_origin_def)

lemma allow_origin_literal:
  "\<forall>p \<in> set os. literal_origin p \<Longrightarrow> allow_origin os origin = (if origin \<in> set os then origin else '''')"
  by (auto simp: allow_origin_def allow_loop_literal glob_literal)

end
