(* ===== verification/Middleware.thy ===== *)
theory Middleware
  imports Logging Cors
begin

text \<open>
  The middlewares around the application: \<open>metrics.Middleware\<close>, \<open>logging.Middleware\<close> and
  the configuration of Echo's stock middlewares in \<open>NewEcho\<close> (\<open>platform/httpx/server.go\<close>).
  Of the stock middlewares, secure headers, request id, body limit and CORS are the vendored
  code; the rate limiter's decision is an argument. \<open>Recover\<close> turns a panic of a handler into
  an error; the handlers of the model do not panic.

  What requests leave behind besides the response and the database is \<open>obs\<close>: the log
  effects and the metric samples, each in order. A server state is \<open>'s \<times> obs\<close>.
\<close>

datatype sample =
    RequestsTotal string string string
  | RequestDuration string string int
  | RequestSize string string int
  | ResponseSize string string int
  | JobsProcessed string string

record obs =
  ob_log :: "log_effect list"
  ob_metrics :: "sample list"

definition no_obs :: obs where
  "no_obs = \<lparr>ob_log = [], ob_metrics = []\<rparr>"

definition emit :: "log_effect \<Rightarrow> 's \<times> obs \<Rightarrow> 's \<times> obs" where
  "emit eff s = (fst s, (snd s)\<lparr>ob_log := ob_log (snd s) @ [eff]\<rparr>)"

definition observe :: "sample list \<Rightarrow> 's \<times> obs \<Rightarrow> 's \<times> obs" where
  "observe xs s = (fst s, (snd s)\<lparr>ob_metrics := ob_metrics (snd s) @ xs\<rparr>)"

text \<open>A handler that neither logs nor counts.\<close>

definition quiet :: "'s HandlerFunc \<Rightarrow> ('s \<times> obs) HandlerFunc" where
  "quiet h e s = (case h e (fst s) of (r, d) \<Rightarrow> (r, (d, snd s)))"

lemma obs_simps [simp]:
  "fst (emit eff s) = fst s" "fst (observe xs s) = fst s"
  "ob_log (snd (emit eff s)) = ob_log (snd s) @ [eff]" "ob_metrics (snd (emit eff s)) = ob_metrics (snd s)"
  "ob_log (snd (observe xs s)) = ob_log (snd s)" "ob_metrics (snd (observe xs s)) = ob_metrics (snd s) @ xs"
  "ob_log no_obs = []" "ob_metrics no_obs = []"
  by (simp_all add: emit_def observe_def no_obs_def)

subsection \<open>The metrics registry\<close>

text \<open>
  \<open>AppRegistry\<close>: whether \<open>registerOnce\<close> has run, and what is registered, with the labels of
  the vectors. The Go and process collectors come last. Registering a name twice would panic.
\<close>

datatype metric_kind = CounterVec | HistogramVec | SummaryVec | ExternalCollector

record registry =
  rg_once :: bool
  rg_metrics :: "(string \<times> metric_kind \<times> string list) list"

definition AppRegistry0 :: registry where
  "AppRegistry0 = \<lparr>rg_once = False, rg_metrics = []\<rparr>"

definition app_metrics :: "(string \<times> metric_kind \<times> string list) list" where
  "app_metrics =
     [(''app_http_requests_total'', CounterVec, [''method'', ''path'', ''status_code'']),
      (''app_http_request_duration_seconds'', HistogramVec, [''method'', ''path'']),
      (''app_http_request_size_bytes'', SummaryVec, [''method'', ''path'']),
      (''app_http_response_size_bytes'', SummaryVec, [''method'', ''path'']),
      (''app_jobs_processed_total'', CounterVec, [''type'', ''status'']),
      (''process'', ExternalCollector, []), (''go'', ExternalCollector, [])]"

definition MustRegister :: "registry \<Rightarrow> registry" where
  "MustRegister reg = (if rg_once reg then reg else \<lparr>rg_once = True, rg_metrics = rg_metrics reg @ app_metrics\<rparr>)"

definition JobProcessed :: "string \<Rightarrow> string \<Rightarrow> registry \<Rightarrow> 's \<times> obs \<Rightarrow> registry \<times> ('s \<times> obs)" where
  "JobProcessed jobType status reg s = (MustRegister reg, observe [JobsProcessed jobType status] s)"

lemma MustRegister_idem [simp]: "MustRegister (MustRegister reg) = MustRegister reg"
  by (simp add: MustRegister_def)

text \<open>However often it is called, every metric is registered once.\<close>

lemma MustRegister_power: "(MustRegister ^^ Suc n) reg = MustRegister reg"
  by (induction n) simp_all

lemma MustRegister_distinct: "distinct (map fst (rg_metrics ((MustRegister ^^ Suc n) AppRegistry0)))"
  unfolding MustRegister_power by (simp add: MustRegister_def AppRegistry0_def app_metrics_def)

subsection \<open>Metrics\<close>

text \<open>
  \<open>sz\<close> is the number of bytes a body takes when it is written, \<open>elapsed\<close> the time the
  request took.
\<close>

definition metrics_Middleware ::
  "(body \<Rightarrow> int) \<Rightarrow> duration \<Rightarrow> ('s \<times> obs) HandlerFunc \<Rightarrow> ('s \<times> obs) HandlerFunc" where
  "metrics_Middleware sz elapsed next e s =
     (case next e s of ((err, e1), s1) \<Rightarrow>
        let req = ec_req e;
            path = (if rq_Route req = '''' then ''unmatched'' else rq_Route req);
            status = (if ec_status e1 = 0 then (if err \<noteq> None then 500 else 200) else ec_status e1);
            written = (if ec_committed e1 then sz (ec_body e1) else 0)
        in ((err, e1), observe
             ([RequestsTotal (rq_Method req) path (Itoa status), RequestDuration (rq_Method req) path elapsed] @
              (if rq_ContentLength req > 0 then [RequestSize (rq_Method req) path (rq_ContentLength req)] else []) @
              (if written > 0 then [ResponseSize (rq_Method req) path written] else [])) s1))"

subsection \<open>Logging\<close>

definition response_request_id :: "echo \<Rightarrow> uuid \<Rightarrow> string" where
  "response_request_id e newID =
     (let reqID = GetHeader ''X-Request-Id'' e;
          reqID = (if reqID = '''' then rq_Header (ec_req e) ''X-Request-Id'' else reqID)
      in if reqID = '''' then uuid_String newID else reqID)"

definition logging_Middleware ::
  "logging \<Rightarrow> uuid \<Rightarrow> log_env \<Rightarrow> log_env \<Rightarrow> ('s \<times> obs) HandlerFunc \<Rightarrow> ('s \<times> obs) HandlerFunc" where
  "logging_Middleware st newID v v' next e s =
     (let reqID = response_request_id e newID;
          c = ContextWithRequestID (ec_ctx e) reqID;
          l = logging_WithContext st (Some c) ''http'' newID;
          s1 = emit (log_Info st l v ''Incoming request''
            [(''method'', MString (rq_Method (ec_req e))), (''path'', MString (rq_URLPath (ec_req e))),
             (''remote_ip'', MString (rq_RemoteAddr (ec_req e))),
             (''user_agent'', MString (rq_Header (ec_req e) ''User-Agent'')), (''request_id'', MString reqID)]) s
      in case next (WithContext c e) s1 of
           ((Some err, e2), s2) \<Rightarrow>
             ((Some err, e2), emit (log_Error st l v' ''Request failed'' (Some err) [(''status_code'', MInt (ec_status e2))]) s2)
         | ((None, e2), s2) \<Rightarrow>
             ((None, e2), emit (log_Info st l v' ''Request completed'' [(''status_code'', MInt (ec_status e2))]) s2))"

text \<open>What \<open>ErrorHandler\<close> logs of the error it is handed.\<close>

definition ErrorHandler_log :: "logging \<Rightarrow> uuid \<Rightarrow> log_env \<Rightarrow> (int \<Rightarrow> string) \<Rightarrow> goerr \<Rightarrow> echo \<Rightarrow> log_effect" where
  "ErrorHandler_log st newID v statusText err e =
     (case classify statusText err of (status, code, message, details) \<Rightarrow>
        log_Error st (logging_WithContext st (Some (ec_ctx e)) ''error_handler'' newID) v ''Request error'' (Some err)
          [(''error_code'', MString code), (''method'', MString (rq_Method (ec_req e))),
           (''path'', MString (rq_URLPath (ec_req e))), (''status_code'', MInt status)])"

subsection \<open>Stock middlewares\<close>

record SecureConfig =
  sc_XSSProtection :: string
  sc_ContentTypeNosniff :: string
  sc_XFrameOptions :: string
  sc_HSTSMaxAge :: int
  sc_ContentSecurityPolicy :: string

text \<open>\<open>middleware/secure.go\<close> for a server that speaks plain HTTP, with the other options unset.\<close>

definition set_if :: "string \<Rightarrow> string \<Rightarrow> echo \<Rightarrow> echo" where
  "set_if k v e = (if v \<noteq> '''' then SetHeader k v e else e)"

definition secure_headers :: "SecureConfig \<Rightarrow> echo \<Rightarrow> echo" where
  "secure_headers sc e =
     (let e1 = set_if ''X-Frame-Options'' (sc_XFrameOptions sc)
                 (set_if ''X-Content-Type-Options'' (sc_ContentTypeNosniff sc)
                   (set_if ''X-XSS-Protection'' (sc_XSSProtection sc) e));
          e2 = (if rq_Header (ec_req e) ''X-Forwarded-Proto'' = ''https'' \<and> sc_HSTSMaxAge sc \<noteq> 0
                then SetHeader ''Strict-Transport-Security''
                  (''max-age='' @ Itoa (sc_HSTSMaxAge sc) @ ''; includeSubdomains'') e1
                else e1)
      in set_if ''Content-Security-Policy'' (sc_ContentSecurityPolicy sc) e2)"

definition SecureWithConfig :: "SecureConfig \<Rightarrow> 's HandlerFunc \<Rightarrow> 's HandlerFunc" where
  "SecureWithConfig sc next e s = next (secure_headers sc e) s"

text \<open>\<open>middleware/request_id.go\<close>; \<open>generated\<close> is the random string.\<close>

definition assign_request_id :: "string \<Rightarrow> echo \<Rightarrow> echo" where
  "assign_request_id generated e =
     (let rid = rq_Header (ec_req e) ''X-Request-Id''
      in SetHeader ''X-Request-Id'' (if rid = '''' then generated else rid) e)"

definition RequestID :: "string \<Rightarrow> 's HandlerFunc \<Rightarrow> 's HandlerFunc" where
  "RequestID generated next e s = next (assign_request_id generated e) s"

text \<open>\<open>middleware/body_limit.go\<close>: the declared length. The reader's limit shows in the result of \<open>Bind\<close>.\<close>

definition too_large :: goerr where
  "too_large = HTTPError 413 (Some ''Request Entity Too Large'') None"

definition BodyLimit :: "int \<Rightarrow> 's HandlerFunc \<Rightarrow> 's HandlerFunc" where
  "BodyLimit limit next e s =
     (if rq_ContentLength (ec_req e) > limit then ((Some too_large, e), s) else next e s)"

definition RateLimiter :: "(Request \<Rightarrow> goerr option) \<Rightarrow> 's HandlerFunc \<Rightarrow> 's HandlerFunc" where
  "RateLimiter deny next e s =
     (case deny (ec_req e) of Some err \<Rightarrow> ((Some err, e), s) | None \<Rightarrow> next e s)"

subsection \<open>\<open>NewEcho\<close>\<close>

datatype 'f middleware =
    MetricsMw
  | SecureMw SecureConfig
  | RequestIDMw
  | LoggingMw
  | RecoverMw
  | BodyLimitMw int
  | CORSMw CORSConfig
  | RateLimiterMw 'f int duration

definition secure_config :: SecureConfig where
  "secure_config = \<lparr>sc_XSSProtection = ''1; mode=block'', sc_ContentTypeNosniff = ''nosniff'',
     sc_XFrameOptions = ''SAMEORIGIN'', sc_HSTSMaxAge = 3600,
     sc_ContentSecurityPolicy = ''default-src '' @ [CHR 0x27] @ ''self'' @ [CHR 0x27] @ ''; style-src '' @ [CHR 0x27] @
       ''self'' @ [CHR 0x27] @ ''; script-src '' @ [CHR 0x27] @ ''self'' @ [CHR 0x27] @ ''; img-src '' @ [CHR 0x27] @
       ''self'' @ [CHR 0x27] @ '' data:; font-src '' @ [CHR 0x27] @ ''self'' @ [CHR 0x27] @ ''; frame-ancestors '' @
       [CHR 0x27] @ ''self'' @ [CHR 0x27] @ ''; base-uri '' @ [CHR 0x27] @ ''self'' @ [CHR 0x27] @ ''; form-action '' @
       [CHR 0x27] @ ''self'' @ [CHR 0x27]\<rparr>"

text \<open>Credentials are allowed in CORS unless the only origin is the wildcard.\<close>

definition allowCredentials :: "string list \<Rightarrow> bool" where
  "allowCredentials origins \<longleftrightarrow> \<not> (length origins = 1 \<and> origins ! 0 = ''*'')"

definition cors_config :: "string list \<Rightarrow> CORSConfig" where
  "cors_config origins = \<lparr>co_AllowOrigins = origins,
     co_AllowMethods = [''GET'', ''PUT'', ''POST'', ''DELETE'', ''OPTIONS'', ''PATCH''],
     co_AllowHeaders = [''Origin'', ''Content-Type'', ''Accept'', ''Authorization'', ''X-CSRF-Token''],
     co_ExposeHeaders = [''Content-Length''], co_AllowCredentials = allowCredentials origins, co_MaxAge = 300\<rparr>"

text \<open>
  The middlewares in the order they are registered, the first outermost. \<open>parse\<close> reads the
  text of a body limit (\<open>bytes.Parse\<close> of \<open>gommon\<close>); \<open>None\<close> is the panic of
  \<open>middleware.BodyLimit\<close> on a text that is none.
\<close>

definition NewEcho :: "(string \<Rightarrow> int option) \<Rightarrow> 'f Config \<Rightarrow> 'f middleware list option" where
  "NewEcho parse cfg =
     (case parse (cfg_BodyLimit cfg) of
        None \<Rightarrow> None
      | Some limit \<Rightarrow> Some (
          [MetricsMw, SecureMw secure_config, RequestIDMw, LoggingMw, RecoverMw, BodyLimitMw limit,
           CORSMw (cors_config (cfg_AllowedOrigins cfg))] @
          (if rl_UseMemory (cfg_RateLimit cfg)
           then [RateLimiterMw (rl_Requests (cfg_RateLimit cfg)) (rl_Burst (cfg_RateLimit cfg)) Minute] else [])))"

subsection \<open>What they do to a fresh request\<close>

lemma set_if_simps [simp]:
  "ec_req (set_if k v e) = ec_req e" "ec_ctx (set_if k v e) = ec_ctx e"
  "ec_committed (set_if k v e) = ec_committed e" "ec_flash (set_if k v e) = ec_flash e"
  "ec_status (set_if k v e) = ec_status e" "ec_body (set_if k v e) = ec_body e"
  "ec_cookies (set_if k v e) = ec_cookies e"
  "\<not> ec_committed e \<Longrightarrow> map_of (ec_headers (set_if k v e)) k' =
     (if k' = k \<and> v \<noteq> '''' then Some v else map_of (ec_headers e) k')"
  by (simp_all add: set_if_def)

lemma secure_headers_simps [simp]:
  "ec_req (secure_headers sc e) = ec_req e" "ec_ctx (secure_headers sc e) = ec_ctx e"
  "ec_committed (secure_headers sc e) = ec_committed e" "ec_flash (secure_headers sc e) = ec_flash e"
  "ec_status (secure_headers sc e) = ec_status e" "ec_body (secure_headers sc e) = ec_body e"
  "ec_cookies (secure_headers sc e) = ec_cookies e"
  by (simp_all add: secure_headers_def Let_def)

lemma assign_request_id_simps [simp]:
  "ec_req (assign_request_id g e) = ec_req e" "ec_ctx (assign_request_id g e) = ec_ctx e"
  "ec_committed (assign_request_id g e) = ec_committed e" "ec_flash (assign_request_id g e) = ec_flash e"
  "ec_status (assign_request_id g e) = ec_status e" "ec_body (assign_request_id g e) = ec_body e"
  "ec_cookies (assign_request_id g e) = ec_cookies e"
  by (simp_all add: assign_request_id_def Let_def)

end
