(* ===== verification/Render.thy ===== *)
theory Render
  imports Httpx
begin

text \<open>
  The renderer of \<open>platform/httpx/render.go\<close>: loading the templates, from an embedded file
  system or from a directory, once; executing them; the functions templates may call. The
  template language is an argument, the record \<open>engine\<close>: an empty template set, parsing one
  more named template into a set, and executing a template, which may fail after writing part
  of its output.
\<close>

subsection \<open>Paths\<close>

text \<open>\<open>path.Clean\<close> and \<open>Join\<close> of a directory and an entry, and the extension.\<close>

definition clean_step :: "bool \<Rightarrow> string list \<Rightarrow> string \<Rightarrow> string list" where
  "clean_step rooted acc c =
     (if c = '''' \<or> c = ''.'' then acc
      else if c = ''..'' then
        (if acc \<noteq> [] \<and> last acc \<noteq> ''..'' then butlast acc else if rooted then acc else acc @ [''..''])
      else acc @ [c])"

definition Clean :: "string \<Rightarrow> string" where
  "Clean p =
     (if p = '''' then ''.''
      else let rooted = (hd p = CHR ''/'');
               cs = foldl (clean_step rooted) [] (splitOn CHR ''/'' p)
           in if rooted then ''/'' @ Join cs ''/'' else if cs = [] then ''.'' else Join cs ''/'')"

definition path_Join :: "string \<Rightarrow> string \<Rightarrow> string" where
  "path_Join dir name = Clean (dir @ ''/'' @ name)"

definition file_ext :: "string \<Rightarrow> string" where
  "file_ext file = (case LastIndexChar file CHR ''.'' of Some i \<Rightarrow> drop i file | None \<Rightarrow> '''')"

definition Ext :: "string \<Rightarrow> string" where
  "Ext p = file_ext (last (splitOn CHR ''/'' p))"

subsection \<open>File trees\<close>

text \<open>
  A file with the result of reading it; a directory with the error of listing it and its
  entries in the order of the listing.
\<close>

datatype node = File "goerr + string" | Dir "goerr option" "(string \<times> node) list"

text \<open>
  \<open>fs.WalkDir\<close> and \<open>filepath.WalkDir\<close> below an existing root, for a callback that passes
  the error of a listing on; the first error ends the walk.
\<close>

fun walk :: "(string \<Rightarrow> node \<Rightarrow> 't \<Rightarrow> goerr option \<times> 't) \<Rightarrow> string \<Rightarrow> node \<Rightarrow> 't \<Rightarrow> goerr option \<times> 't"
  and walk_entries ::
    "(string \<Rightarrow> node \<Rightarrow> 't \<Rightarrow> goerr option \<times> 't) \<Rightarrow> string \<Rightarrow> (string \<times> node) list \<Rightarrow> 't \<Rightarrow> goerr option \<times> 't" where
  "walk cb path (File rd) t = cb path (File rd) t"
| "walk cb path (Dir err es) t =
     (case cb path (Dir err es) t of
        (Some e, t1) \<Rightarrow> (Some e, t1)
      | (None, t1) \<Rightarrow> (case err of Some e \<Rightarrow> (Some e, t1) | None \<Rightarrow> walk_entries cb path es t1))"
| "walk_entries cb path [] t = (None, t)"
| "walk_entries cb path ((n, x) # es) t =
     (case walk cb (path_Join path n) x t of
        (Some e, t1) \<Rightarrow> (Some e, t1)
      | (None, t1) \<Rightarrow> walk_entries cb path es t1)"

subsection \<open>Loading\<close>

datatype view = PageView page | LayoutView Shell string page

record 't engine =
  en_new :: 't
  en_parse :: "string \<Rightarrow> string \<Rightarrow> 't \<Rightarrow> goerr + 't"
  en_exec :: "'t \<Rightarrow> string \<Rightarrow> view \<Rightarrow> goerr option \<times> string"

text \<open>\<open>rn_state\<close> is \<open>None\<close> until \<open>once\<close> has run, then the error and the templates.\<close>

record 't Renderer =
  rn_state :: "(goerr option \<times> 't) option"
  rn_root :: string
  rn_fsys :: "node option"

definition NewRenderer :: "string \<Rightarrow> 't Renderer" where
  "NewRenderer root =
     \<lparr>rn_state = None, rn_root = (if root = '''' then ''web/templates'' else root), rn_fsys = None\<rparr>"

definition NewRendererFS :: "node \<Rightarrow> 't Renderer" where
  "NewRendererFS fsys = \<lparr>rn_state = None, rn_root = ''.'', rn_fsys = Some fsys\<rparr>"

definition parse_file ::
  "'t engine \<Rightarrow> (string \<Rightarrow> string) \<Rightarrow> string \<Rightarrow> node \<Rightarrow> 't \<Rightarrow> goerr option \<times> 't" where
  "parse_file eng name_of path x t =
     (case x of
        Dir _ _ \<Rightarrow> (None, t)
      | File rd \<Rightarrow>
          if Ext path \<noteq> ''.html'' then (None, t)
          else (case rd of
            Inl e \<Rightarrow> (Some e, t)
          | Inr b \<Rightarrow> (case en_parse eng (name_of path) b t of Inl e \<Rightarrow> (Some e, t) | Inr t' \<Rightarrow> (None, t'))))"

text \<open>
  \<open>disk\<close> is what the file system holds under a path: an error, or the tree of a directory.
  (For a root that is itself a template file the cut of the name is out of range.)
\<close>

definition load :: "'t engine \<Rightarrow> (string \<Rightarrow> goerr + node) \<Rightarrow> 't Renderer \<Rightarrow> 't Renderer" where
  "load eng disk r =
     (case rn_state r of
        Some _ \<Rightarrow> r
      | None \<Rightarrow> r\<lparr>rn_state := Some
          (case rn_fsys r of
             Some fsys \<Rightarrow> walk (parse_file eng (\<lambda>path. path)) ''.'' fsys (en_new eng)
           | None \<Rightarrow>
               (case disk (rn_root r) of
                  Inl e \<Rightarrow> (Some e, en_new eng)
                | Inr tree \<Rightarrow>
                    walk (parse_file eng (\<lambda>path. drop (length (rn_root r) + 1) path)) (rn_root r) tree (en_new eng)))\<rparr>)"

definition Render ::
  "'t engine \<Rightarrow> (string \<Rightarrow> goerr + node) \<Rightarrow> string \<Rightarrow> view \<Rightarrow> 't Renderer \<Rightarrow> (goerr option \<times> string) \<times> 't Renderer" where
  "Render eng disk name data r =
     (let r1 = load eng disk r in
      case rn_state r1 of
        Some (Some e, _) \<Rightarrow> ((Some e, ''''), r1)
      | Some (None, t) \<Rightarrow> (en_exec eng t name data, r1)
      | None \<Rightarrow> ((None, ''''), r1))"

text \<open>\<open>execute\<close> buffers the output and drops it when the execution fails.\<close>

definition execute ::
  "'t engine \<Rightarrow> (string \<Rightarrow> goerr + node) \<Rightarrow> string \<Rightarrow> view \<Rightarrow> 't Renderer \<Rightarrow> (goerr + string) \<times> 't Renderer" where
  "execute eng disk name data r =
     (case Render eng disk name data r of
        ((Some e, _), r1) \<Rightarrow> (Inl e, r1)
      | ((None, out), r1) \<Rightarrow> (Inr out, r1))"

text \<open>\<open>rendererFrom\<close>: the default renderer, the one of the Echo instance, or a new one.\<close>

definition rendererFrom :: "'t Renderer option \<Rightarrow> 't Renderer option \<Rightarrow> 't Renderer" where
  "rendererFrom default_renderer of_echo =
     (case default_renderer of
        Some r \<Rightarrow> r
      | None \<Rightarrow> (case of_echo of Some r \<Rightarrow> r | None \<Rightarrow> NewRenderer ''web/templates''))"

text \<open>\<open>extractShell\<close>: every page of the program embeds a shell.\<close>

fun extractShell :: "page \<Rightarrow> Shell" where
  "extractShell (TodoListPage sh items form errs) = sh"
| "extractShell (ReportListPage sh items) = sh"
| "extractShell (ReportShowPage sh r) = sh"
| "extractShell (LoginPage sh email err) = sh"
| "extractShell (ErrorPage sh m) = sh"

text \<open>
  A page in its layout, down to the bytes: the error, and what was written if anything was
  (status and body). A page that fails writes nothing, a layout that fails has written the
  header and part of the body.
\<close>

definition render_page ::
  "'t engine \<Rightarrow> (string \<Rightarrow> goerr + node) \<Rightarrow> int \<Rightarrow> string \<Rightarrow> string \<Rightarrow> page \<Rightarrow> 't Renderer \<Rightarrow>
   (goerr option \<times> (int \<times> string) option) \<times> 't Renderer" where
  "render_page eng disk status layout page data r =
     (case execute eng disk page (PageView data) r of
        (Inl e, r1) \<Rightarrow> ((Some e, None), r1)
      | (Inr body, r1) \<Rightarrow>
          (case Render eng disk layout (LayoutView (extractShell data) body data) r1 of
             ((err, out), r2) \<Rightarrow> ((err, Some (status, out)), r2)))"

subsection \<open>Functions of the templates\<close>

datatype tval = TString string | TTime time | TTimePtr "time option" | TOther

definition errDictArgs :: goerr where
  "errDictArgs = OtherErr ''dict: need even number of args''"

definition errDictKey :: goerr where
  "errDictKey = OtherErr ''dict: keys must be strings''"

fun dict_pairs :: "tval list \<Rightarrow> (string \<rightharpoonup> tval) \<Rightarrow> goerr + (string \<rightharpoonup> tval)" where
  "dict_pairs (k # v # vs) m = (case k of TString s \<Rightarrow> dict_pairs vs (m(s \<mapsto> v)) | _ \<Rightarrow> Inl errDictKey)"
| "dict_pairs _ m = Inr m"

definition dict :: "tval list \<Rightarrow> goerr + (string \<rightharpoonup> tval)" where
  "dict values = (if length values mod 2 \<noteq> 0 then Inl errDictArgs else dict_pairs values Map.empty)"

text \<open>\<open>fmt\<close> is \<open>UTC().Format\<close> with the layout of \<open>formatTime\<close>.\<close>

fun formatTime :: "(time \<Rightarrow> string) \<Rightarrow> tval \<Rightarrow> string" where
  "formatTime fmt (TTime t) = (if t = 0 then '''' else fmt t)"
| "formatTime fmt (TTimePtr v) = (case v of None \<Rightarrow> '''' | Some t \<Rightarrow> if t = 0 then '''' else fmt t)"
| "formatTime fmt _ = ''''"

definition csrfField :: "string \<Rightarrow> string" where
  "csrfField token = ''<input type=\"hidden\" name=\"csrf_token\" value=\"'' @ EscapeString token @ ''\">''"

lemma dict_pairs_Inr:
  "length vs mod 2 = 0 \<Longrightarrow>
   (\<exists>m'. dict_pairs vs m = Inr m') \<longleftrightarrow> (\<forall>i < length vs div 2. \<exists>s. vs ! (2 * i) = TString s)"
proof (induction vs m rule: dict_pairs.induct)
  case (1 k v vs m)
  have "(\<forall>i < Suc (length vs div 2). \<exists>s. (k # v # vs) ! (2 * i) = TString s) \<longleftrightarrow>
      (\<exists>s. k = TString s) \<and> (\<forall>i < length vs div 2. \<exists>s. vs ! (2 * i) = TString s)"
    by (auto simp: All_less_Suc2)
  with 1 show ?case by (cases k) (auto simp del: fun_upd_apply)
qed auto

subsection \<open>Loading happens once\<close>

lemma load_loaded: "rn_state (load eng disk r) \<noteq> None"
  by (auto simp: load_def split: option.split)

lemma load_once: "load eng disk' (load eng disk r) = load eng disk r"
  by (auto simp: load_def split: option.split)

lemma Render_load: "snd (Render eng disk name data r) = load eng disk r"
  by (auto simp: Render_def Let_def split: option.split prod.split)

lemma Render_again:
  "Render eng disk' name data (load eng disk r) = Render eng disk name data r"
  by (simp add: Render_def load_once)

subsection \<open>Clean paths\<close>

lemma splitOn_no_sep: "d \<notin> set x \<Longrightarrow> splitOn d x = [x]"
  by (induction x) auto

lemma splitOn_append: "d \<notin> set x \<Longrightarrow> splitOn d (x @ d # y) = x # splitOn d y"
  by (induction x) auto

lemma splitOn_Join: "cs \<noteq> [] \<Longrightarrow> \<forall>c \<in> set cs. d \<notin> set c \<Longrightarrow> splitOn d (Join cs [d]) = cs"
  by (induction cs "[d]" rule: Join.induct) (simp_all add: splitOn_no_sep splitOn_append)

lemma Join_snoc: "cs \<noteq> [] \<Longrightarrow> Join (cs @ [c]) sep = Join cs sep @ sep @ c"
  by (induction cs sep rule: Join.induct) simp_all

lemma Join_Nil_iff: "Join cs [d] = [] \<longleftrightarrow> cs = [] \<or> cs = [[]]"
  by (induction cs "[d]" rule: Join.induct) auto

text \<open>
  A relative path that is clean, given by its components, and the names a directory can
  list.
\<close>

definition clean_comps :: "string list \<Rightarrow> bool" where
  "clean_comps cs \<longleftrightarrow> foldl (clean_step False) [] cs = cs \<and> (\<forall>c \<in> set cs. CHR ''/'' \<notin> set c)"

definition plain_name :: "string \<Rightarrow> bool" where
  "plain_name n \<longleftrightarrow> n \<notin> {'''', ''.'', ''..''} \<and> CHR ''/'' \<notin> set n"

definition path_text :: "string list \<Rightarrow> string" where
  "path_text cs = (if cs = [] then ''.'' else Join cs ''/'')"

lemma clean_comps_Nil [simp]: "clean_comps []"
  by (simp add: clean_comps_def)

lemma clean_comps_snoc: "clean_comps cs \<Longrightarrow> plain_name n \<Longrightarrow> clean_comps (cs @ [n])"
  by (auto simp: clean_comps_def plain_name_def clean_step_def)

lemma clean_step_nonempty: "'''' \<notin> set acc \<Longrightarrow> '''' \<notin> set (clean_step rooted acc c)"
  by (auto simp: clean_step_def dest: in_set_butlastD)

lemma clean_steps_nonempty: "'''' \<notin> set acc \<Longrightarrow> '''' \<notin> set (foldl (clean_step rooted) acc cs)"
  by (induction cs arbitrary: acc) (simp_all add: clean_step_nonempty)

lemma clean_comps_nonempty: "clean_comps cs \<Longrightarrow> '''' \<notin> set cs"
  using clean_steps_nonempty [of "[]" False cs] by (simp add: clean_comps_def)

lemma hd_Join: "cs \<noteq> [] \<Longrightarrow> hd cs \<noteq> [] \<Longrightarrow> hd (Join cs sep @ x) = hd (hd cs)"
  by (induction cs sep rule: Join.induct) auto

lemma relative_Join:
  assumes "clean_comps cs" and "cs \<noteq> []"
  shows "hd (Join cs ''/'' @ x) \<noteq> CHR ''/''" and "Join cs ''/'' \<noteq> ''''"
proof -
  have h: "hd cs \<in> set cs" "hd cs \<noteq> []" using assms clean_comps_nonempty [of cs] by (cases cs; auto)+
  then have "CHR ''/'' \<notin> set (hd cs)" using assms(1) by (simp add: clean_comps_def)
  with h(2) have "hd (hd cs) \<noteq> CHR ''/''" by (metis hd_in_set)
  with hd_Join [OF assms(2) h(2)] show "hd (Join cs ''/'' @ x) \<noteq> CHR ''/''" by simp
  show "Join cs ''/'' \<noteq> ''''" using assms(2) h(2) by (cases cs) (auto simp: Join_Nil_iff)
qed

lemma Clean_Join:
  assumes "clean_comps cs" and "cs \<noteq> []"
  shows "Clean (Join cs ''/'') = Join cs ''/''"
  using relative_Join(1) [OF assms, of "[]"] relative_Join(2) [OF assms] assms
  by (simp add: Clean_def Let_def splitOn_Join clean_comps_def)

text \<open>Joining a listed name adds a component.\<close>

lemma path_Join_text:
  assumes "clean_comps cs" and "plain_name n"
  shows "path_Join (path_text cs) n = path_text (cs @ [n])"
proof (cases "cs = []")
  case True
  have "splitOn CHR ''/'' (''./'' @ n) = [''.'', n]"
    using splitOn_append [of "CHR ''/''" "''.''" n] assms(2) by (simp add: plain_name_def splitOn_no_sep)
  with True assms(2) show ?thesis
    by (simp add: path_Join_def path_text_def Clean_def Let_def clean_step_def plain_name_def)
next
  case False
  then show ?thesis
    using Clean_Join [OF clean_comps_snoc [OF assms]] by (simp add: path_Join_def path_text_def Join_snoc)
qed

subsection \<open>What is loaded\<close>

text \<open>The reference: the template files below a directory, in listing order, up to the errors met.\<close>

fun template_files :: "string list \<Rightarrow> node \<Rightarrow> (string list \<times> (goerr + string)) list"
  and template_entries :: "string list \<Rightarrow> (string \<times> node) list \<Rightarrow> (string list \<times> (goerr + string)) list" where
  "template_files cs (File rd) = (if Ext (path_text cs) = ''.html'' then [(cs, rd)] else [])"
| "template_files cs (Dir err es) = (case err of Some e \<Rightarrow> [(cs, Inl e)] | None \<Rightarrow> template_entries cs es)"
| "template_entries cs [] = []"
| "template_entries cs ((n, x) # es) = template_files (cs @ [n]) x @ template_entries cs es"

fun parse_all :: "'t engine \<Rightarrow> (string list \<times> (goerr + string)) list \<Rightarrow> 't \<Rightarrow> goerr option \<times> 't" where
  "parse_all eng [] t = (None, t)"
| "parse_all eng ((cs, rd) # fs) t =
     (case rd of
        Inl e \<Rightarrow> (Some e, t)
      | Inr b \<Rightarrow> (case en_parse eng (path_text cs) b t of Inl e \<Rightarrow> (Some e, t) | Inr t' \<Rightarrow> parse_all eng fs t'))"

lemma parse_all_append:
  "parse_all eng (fs @ gs) t =
     (case parse_all eng fs t of (Some e, t1) \<Rightarrow> (Some e, t1) | (None, t1) \<Rightarrow> parse_all eng gs t1)"
  by (induction eng fs t rule: parse_all.induct) (auto split: sum.splits)

fun plain_tree :: "node \<Rightarrow> bool" and plain_entries :: "(string \<times> node) list \<Rightarrow> bool" where
  "plain_tree (File rd) = True"
| "plain_tree (Dir err es) = plain_entries es"
| "plain_entries [] = True"
| "plain_entries ((n, x) # es) = (plain_name n \<and> plain_tree x \<and> plain_entries es)"

lemma Ext_path_text:
  assumes "clean_comps cs" and "cs \<noteq> []"
  shows "Ext (path_text cs) = file_ext (last cs)"
  using assms by (simp add: Ext_def path_text_def splitOn_Join clean_comps_def)

text \<open>
  A walk from a clean relative root, with the names of the templates relative to it, is
  \<open>parse_all\<close> on the reference.
\<close>

definition names_relative :: "string list \<Rightarrow> (string \<Rightarrow> string) \<Rightarrow> bool" where
  "names_relative rs name_of \<longleftrightarrow>
     (\<forall>cs. cs \<noteq> [] \<and> clean_comps cs \<and> clean_comps (rs @ cs) \<longrightarrow> name_of (path_text (rs @ cs)) = path_text cs)"

lemma walk_parses:
  assumes "names_relative rs name_of"
  shows "clean_comps cs \<Longrightarrow> clean_comps (rs @ cs) \<Longrightarrow> plain_tree x \<Longrightarrow> (cs = [] \<Longrightarrow> \<exists>err es. x = Dir err es) \<Longrightarrow>
      walk (parse_file eng name_of) (path_text (rs @ cs)) x t = parse_all eng (template_files cs x) t"
    and "clean_comps cs \<Longrightarrow> clean_comps (rs @ cs) \<Longrightarrow> plain_entries es \<Longrightarrow>
      walk_entries (parse_file eng name_of) (path_text (rs @ cs)) es t = parse_all eng (template_entries cs es) t"
proof (induction cs x and cs es arbitrary: t and t rule: template_files_template_entries.induct)
  case (1 cs rd)
  then have cs: "cs \<noteq> []" by auto
  with 1 assms have "name_of (path_text (rs @ cs)) = path_text cs" by (simp add: names_relative_def)
  moreover have "Ext (path_text (rs @ cs)) = Ext (path_text cs)"
    using Ext_path_text [of cs] Ext_path_text [of "rs @ cs"] 1 cs by simp
  ultimately show ?case by (auto simp: parse_file_def split: sum.splits)
next
  case (2 cs err es)
  then show ?case by (simp add: parse_file_def split: option.split)
next
  case (3 cs)
  then show ?case by simp
next
  case (4 cs n x es)
  then have n: "plain_name n" "plain_tree x" "plain_entries es" by simp_all
  have p: "path_Join (path_text (rs @ cs)) n = path_text (rs @ cs @ [n])"
    using path_Join_text [OF "4.prems"(2) n(1)] by simp
  have c: "clean_comps (cs @ [n])" "clean_comps (rs @ cs @ [n])"
    using clean_comps_snoc [OF "4.prems"(1) n(1)] clean_comps_snoc [OF "4.prems"(2) n(1)] by simp_all
  show ?case
    using "4.IH"(1) [OF c n(2)] "4.IH"(2) [OF "4.prems"(1,2) n(3)]
    by (simp add: p parse_all_append split: prod.split option.split)
qed

text \<open>The two loaders agree: the embedded tree, and the same tree in a directory.\<close>

lemma names_relative_root:
  assumes "rs \<noteq> []"
  shows "names_relative rs (\<lambda>path. drop (length (path_text rs) + 1) path)"
proof -
  have "Join (rs @ cs) ''/'' = Join rs ''/'' @ ''/'' @ Join cs ''/''" if "cs \<noteq> []" for cs
    using assms
  proof (induction rs "''/''" rule: Join.induct)
    case (2 x)
    from that show ?case by (cases cs) simp_all
  qed simp_all
  then show ?thesis using assms by (simp add: names_relative_def path_text_def)
qed

lemma load_embedded:
  assumes "plain_tree (Dir err es)" and "rn_state r = None" and "rn_fsys r = Some (Dir err es)"
  shows "rn_state (load eng disk r) = Some (parse_all eng (template_files [] (Dir err es)) (en_new eng))"
proof -
  have "names_relative [] (\<lambda>path. path)" by (simp add: names_relative_def)
  from walk_parses(1) [OF this, of "[]" "Dir err es" eng "en_new eng"] assms
  show ?thesis by (simp add: load_def path_text_def)
qed

lemma load_directory:
  assumes "plain_tree (Dir err es)" and "rn_state r = None" and "rn_fsys r = None"
    and "rn_root r = path_text rs" and "clean_comps rs" and "rs \<noteq> []" and "disk (rn_root r) = Inr (Dir err es)"
  shows "rn_state (load eng disk r) = Some (parse_all eng (template_files [] (Dir err es)) (en_new eng))"
  using walk_parses(1) [OF names_relative_root [OF assms(6)], of "[]" "Dir err es" eng "en_new eng"] assms
  by (simp add: load_def)

text \<open>If every template parses, they are all there, under their paths.\<close>

lemma parse_all_ok:
  assumes "\<And>n b t. \<exists>t'. en_parse eng n b t = Inr t'" and "\<forall>f \<in> set fs. \<exists>b. snd f = Inr b"
  shows "fst (parse_all eng fs t) = None"
  using assms(2)
proof (induction fs arbitrary: t)
  case (Cons f fs)
  obtain cs b where f: "f = (cs, Inr b)" using Cons.prems by (cases f) auto
  obtain t' where "en_parse eng (path_text cs) b t = Inr t'" using assms(1) by blast
  with Cons f show ?case by simp
qed simp

end
