(* ===== verification/Static.thy ===== *)
theory Static
  imports Render
begin

text \<open>
  The static files that \<open>MountStaticFS\<close> mounts under \<open>/static\<close>: Echo's
  \<open>StaticDirectoryHandler\<close> and \<open>fsFile\<close> (\<open>echo_fs.go\<close>, \<open>context_fs.go\<close> of the vendored
  copy) over the embedded tree, whose files can always be read. What \<open>http.ServeContent\<close>
  makes of the conditional and range headers of a request is an argument, the function
  \<open>fl_decide\<close>; the headers it writes of its own are implied by the body.
\<close>

subsection \<open>Escaped paths\<close>

definition unhex :: "char \<Rightarrow> nat option" where
  "unhex c =
     (let n = of_char c :: nat in
      if 48 \<le> n \<and> n \<le> 57 then Some (n - 48)
      else if 97 \<le> n \<and> n \<le> 102 then Some (n - 87)
      else if 65 \<le> n \<and> n \<le> 70 then Some (n - 55)
      else None)"

text \<open>\<open>strconv.Quote\<close> on printable ASCII.\<close>

definition Quote :: "string \<Rightarrow> string" where
  "Quote s = [CHR 0x22] @ concat (map (\<lambda>c. if c = CHR 0x22 \<or> c = CHR 0x5C then [CHR 0x5C, c] else [c]) s) @ [CHR 0x22]"

definition EscapeError :: "string \<Rightarrow> goerr" where
  "EscapeError s = OtherErr (''invalid URL escape '' @ Quote s)"

definition unescaped :: "char \<Rightarrow> goerr + string \<Rightarrow> goerr + string" where
  "unescaped c r = (case r of Inl e \<Rightarrow> Inl e | Inr s \<Rightarrow> Inr (c # s))"

text \<open>\<open>url.PathUnescape\<close>; the error shows the first escape that is none.\<close>

fun PathUnescape :: "string \<Rightarrow> goerr + string" where
  "PathUnescape [] = Inr []"
| "PathUnescape (c # cs) =
     (if c \<noteq> CHR ''%'' then unescaped c (PathUnescape cs)
      else (case cs of
          a # b # rest \<Rightarrow>
            (case (unhex a, unhex b) of
               (Some x, Some y) \<Rightarrow> unescaped (char_of (16 * x + y)) (PathUnescape rest)
             | _ \<Rightarrow> Inl (EscapeError [c, a, b]))
        | _ \<Rightarrow> Inl (EscapeError (c # cs))))"

subsection \<open>The embedded files\<close>

datatype asset = AssetFile string | AssetDir "(string \<times> asset) list"

text \<open>\<open>fs.ValidPath\<close>.\<close>

definition ValidPath :: "string \<Rightarrow> bool" where
  "ValidPath name \<longleftrightarrow> name = ''.'' \<or> (\<forall>c \<in> set (splitOn CHR ''/'' name). c \<notin> {'''', ''.'', ''..''})"

fun find_asset :: "asset \<Rightarrow> string list \<Rightarrow> asset option" where
  "find_asset a [] = Some a"
| "find_asset (AssetFile s) (c # cs) = None"
| "find_asset (AssetDir es) (c # cs) = (case map_of es c of None \<Rightarrow> None | Some a \<Rightarrow> find_asset a cs)"

definition open_asset :: "asset \<Rightarrow> string \<Rightarrow> asset option" where
  "open_asset tree name =
     (if \<not> ValidPath name then None
      else find_asset tree (if name = ''.'' then [] else splitOn CHR ''/'' name))"

subsection \<open>Serving a file\<close>

datatype served = Whole | Part string | NotModified | PreconditionFailed | Unsatisfiable string

record file_server =
  fl_tree :: asset
  fl_decide :: "Request \<Rightarrow> string \<Rightarrow> served"

definition file_answer :: "string \<Rightarrow> served \<Rightarrow> int \<times> body" where
  "file_answer content decision =
     (case decision of
        Whole \<Rightarrow> (200, FileBody content)
      | Part bytes \<Rightarrow> (206, FileBody bytes)
      | NotModified \<Rightarrow> (304, NoBody)
      | PreconditionFailed \<Rightarrow> (412, NoBody)
      | Unsatisfiable msg \<Rightarrow> (416, FileBody msg))"

definition ServeContent :: "file_server \<Rightarrow> string \<Rightarrow> echo \<Rightarrow> echo" where
  "ServeContent srv content e =
     (case file_answer content (fl_decide srv (ec_req e) content) of (status, b) \<Rightarrow> respond status b e)"

lemma ServeContent_simps [simp]:
  "ec_headers (ServeContent srv content e) = ec_headers e" "ec_req (ServeContent srv content e) = ec_req e"
  "ec_ctx (ServeContent srv content e) = ec_ctx e" "ec_committed (ServeContent srv content e)"
  "\<not> ec_committed e \<Longrightarrow> (ec_status (ServeContent srv content e), ec_body (ServeContent srv content e)) =
     file_answer content (fl_decide srv (ec_req e) content)"
  by (simp_all add: ServeContent_def case_prod_beta)

lemma file_answer_status: "fst (file_answer content decision) \<in> {200, 206, 304, 412, 416}"
  by (simp add: file_answer_def split: served.split)

definition file_not_found :: goerr where
  "file_not_found = HTTPError 404 (Some ''Not Found'') None"

definition fsFile :: "file_server \<Rightarrow> string \<Rightarrow> echo \<Rightarrow> goerr option \<times> echo" where
  "fsFile srv file e =
     (case open_asset (fl_tree srv) file of
        None \<Rightarrow> (Some file_not_found, e)
      | Some (AssetFile content) \<Rightarrow> (None, ServeContent srv content e)
      | Some (AssetDir _) \<Rightarrow>
          (case open_asset (fl_tree srv) (path_Join file ''index.html'') of
             None \<Rightarrow> (Some file_not_found, e)
           | Some (AssetFile content) \<Rightarrow> (None, ServeContent srv content e)
           | Some (AssetDir _) \<Rightarrow> (Some (OtherErr ''file does not implement io.ReadSeeker''), e)))"

definition slashlike :: "char \<Rightarrow> bool" where
  "slashlike c \<longleftrightarrow> c = CHR ''/'' \<or> c = CHR 0x5C"

definition sanitizeURI :: "string \<Rightarrow> string" where
  "sanitizeURI uri =
     (if length uri > 1 \<and> slashlike (uri ! 0) \<and> slashlike (uri ! 1) then ''/'' @ dropWhile slashlike uri else uri)"

definition StaticDirectoryHandler :: "file_server \<Rightarrow> 's HandlerFunc" where
  "StaticDirectoryHandler srv e s =
     (case PathUnescape (rq_Param (ec_req e) ''*'') of
        Inl err \<Rightarrow> ((Some (Errorf_prefix ''failed to unescape path variable'' err), e), s)
      | Inr p \<Rightarrow>
          (let name = Clean (if HasPrefix p ''/'' then drop 1 p else p);
               path = rq_URLPath (ec_req e)
           in case open_asset (fl_tree srv) name of
                None \<Rightarrow> ((Some file_not_found, e), s)
              | Some a \<Rightarrow>
                  ((if (\<exists>es. a = AssetDir es) \<and> length path > 0 \<and> last path \<noteq> CHR ''/''
                    then Redirect 301 (sanitizeURI (path @ ''/'')) e
                    else fsFile srv name e), s)))"

subsection \<open>What is served\<close>

text \<open>A redirect stays on the site: no browser takes its target for another host.\<close>

lemma sanitizeURI_local:
  "\<not> (length (sanitizeURI uri) > 1 \<and> slashlike (sanitizeURI uri ! 0) \<and> slashlike (sanitizeURI uri ! 1))"
proof (cases "length uri > 1 \<and> slashlike (uri ! 0) \<and> slashlike (uri ! 1)")
  case True
  have "\<not> slashlike (hd (dropWhile slashlike uri))" if "dropWhile slashlike uri \<noteq> []"
    using that by (rule hd_dropWhile)
  with True show ?thesis by (cases "dropWhile slashlike uri") (auto simp: sanitizeURI_def)
qed (auto simp: sanitizeURI_def)

lemma open_asset_inside:
  assumes "open_asset tree name = Some a"
  shows "\<exists>cs. find_asset tree cs = Some a \<and> ''..'' \<notin> set cs"
proof -
  have v: "ValidPath name" using assms by (auto simp: open_asset_def split: if_splits)
  show ?thesis
  proof (cases "name = ''.''")
    case True
    with assms v show ?thesis by (intro exI [of _ "[]"]) (simp add: open_asset_def)
  next
    case False
    with assms v show ?thesis
      by (intro exI [of _ "splitOn CHR ''/'' name"]) (auto simp: open_asset_def ValidPath_def)
  qed
qed

text \<open>An error, and nothing is written; a local redirect; or what is served is a file of the tree.\<close>

definition static_outcome :: "file_server \<Rightarrow> echo \<Rightarrow> goerr option \<times> echo \<Rightarrow> bool" where
  "static_outcome srv e re \<longleftrightarrow>
     (case fst re of
        Some _ \<Rightarrow> snd re = e
      | None \<Rightarrow> (\<exists>uri. snd re = respond 301 NoBody (SetHeader ''Location'' (sanitizeURI uri) e)) \<or>
          (\<exists>cs content. find_asset (fl_tree srv) cs = Some (AssetFile content) \<and> ''..'' \<notin> set cs \<and>
             snd re = ServeContent srv content e))"

lemma fsFile_outcome: "static_outcome srv e (fsFile srv file e)"
  by (auto simp: static_outcome_def fsFile_def split: option.splits asset.splits dest: open_asset_inside)

lemma static_handler_outcome:
  "static_outcome srv e (fst (StaticDirectoryHandler srv e s)) \<and> snd (StaticDirectoryHandler srv e s) = s"
proof -
  have "static_outcome srv e (Redirect 301 (sanitizeURI uri) e)" for uri
    by (auto simp: static_outcome_def Redirect_def)
  moreover have "static_outcome srv e (Some err, e)" for err by (simp add: static_outcome_def)
  ultimately show ?thesis
    by (simp add: StaticDirectoryHandler_def Let_def fsFile_outcome split: sum.split option.split)
qed

text \<open>And every file of the tree is served under its path, if that needs no escapes.\<close>

lemma PathUnescape_plain: "CHR ''%'' \<notin> set s \<Longrightarrow> PathUnescape s = Inr s"
  by (induction s) (auto simp: unescaped_def)

lemma plain_names_clean: "\<forall>c \<in> set cs. plain_name c \<Longrightarrow> clean_comps cs"
  by (induction cs rule: rev_induct) (simp_all add: clean_comps_snoc)

lemma open_asset_path:
  assumes "\<forall>c \<in> set cs. plain_name c" and "cs \<noteq> []"
  shows "open_asset tree (Join cs ''/'') = find_asset tree cs"
proof -
  have s: "splitOn CHR ''/'' (Join cs ''/'') = cs"
    using assms by (intro splitOn_Join) (auto simp: plain_name_def)
  moreover have "ValidPath (Join cs ''/'')" using assms(1) by (auto simp: ValidPath_def s plain_name_def)
  moreover have "Join cs ''/'' \<noteq> ''.''"
  proof
    assume "Join cs ''/'' = ''.''"
    with s have "cs = [''.'']" by simp
    with assms(1) show False by (simp add: plain_name_def)
  qed
  ultimately show ?thesis by (simp add: open_asset_def)
qed

lemma static_handler_serves:
  assumes "\<forall>c \<in> set cs. plain_name c \<and> CHR ''%'' \<notin> set c" and "find_asset (fl_tree srv) cs = Some (AssetFile content)"
    and "cs \<noteq> []" and "rq_Param (ec_req e) ''*'' = ''/'' @ Join cs ''/''"
  shows "StaticDirectoryHandler srv e s = ((None, ServeContent srv content e), s)"
proof -
  have pn: "\<forall>c \<in> set cs. plain_name c" using assms(1) by blast
  have "CHR ''%'' \<notin> set (Join cs ''/'')"
    using assms(1) by (induction cs "''/''" rule: Join.induct) auto
  then have "PathUnescape (''/'' @ Join cs ''/'') = Inr (''/'' @ Join cs ''/'')" by (intro PathUnescape_plain) simp
  moreover have "Clean (Join cs ''/'') = Join cs ''/''" by (rule Clean_Join [OF plain_names_clean [OF pn] assms(3)])
  ultimately show ?thesis
    using assms(2,4) open_asset_path [OF pn assms(3)]
    by (simp add: StaticDirectoryHandler_def fsFile_def HasPrefix_def)
qed

end
