(* ===== verification/Server.thy ===== *)
theory Server
  imports App Domain_Http Middleware Static
begin

text \<open>
  The assembled HTTP server: the route table that \<open>app.New\<close> mounts (\<open>Register\<close> of the six
  adapters and \<open>RegisterOps\<close>), the middleware chain and Echo's \<open>ServeHTTP\<close>, which hands a
  returned error to \<open>ErrorHandler\<close> after the whole chain has returned. Echo's router is not
  modelled: a request carries the route pattern it matched. The middlewares that \<open>NewEcho\<close>
  registers run around those of \<open>app.New\<close>; \<open>pr_limiter\<close> is the error with which the rate
  limiter turns a request away.
\<close>

record params =
  pr_bc :: bcrypt
  pr_codec :: flash_codec
  pr_rdr :: renderer
  pr_statusText :: "int \<Rightarrow> string"
  pr_fmtTime :: "time \<Rightarrow> goerr + string"
  pr_limiter :: "Request \<Rightarrow> goerr option"
  pr_bytes :: "string \<Rightarrow> int option"
  pr_size :: "body \<Rightarrow> int"
  pr_static :: file_server

text \<open>What one request draws from the clock and the random source.\<close>

record draws =
  dr_auth_now :: time
  dr_csrf :: "byte list"
  dr_now :: time
  dr_now' :: time
  dr_later :: time
  dr_later' :: time
  dr_id :: uuid
  dr_id' :: uuid
  dr_random :: "byte list"
  dr_bearer :: "goerr + byte list"
  dr_enq :: enq_env
  dr_rid :: string
  dr_log_id :: uuid
  dr_log :: "nat \<Rightarrow> log_env"
  dr_elapsed :: duration

definition database_Ready :: "db \<Rightarrow> goerr option \<times> db" where
  "database_Ready d = (case run_stmt (\<lambda>d. (Inr (), d)) d of
     (Inl err, d') \<Rightarrow> (Some err, d') | (Inr _, d') \<Rightarrow> (None, d'))"

definition app_auth :: "'f Config \<Rightarrow> db AuthService" where
  "app_auth cfg = NewAuthService PgAuthStore (cfg_Auth cfg)"

definition ops_routes :: "'f Config \<Rightarrow> string \<Rightarrow> string \<Rightarrow> db HandlerFunc option" where
  "ops_routes cfg meth route =
     (if meth \<noteq> ''GET'' then None
      else if route = ''/healthz'' then Some healthz
      else if route = ''/health'' \<or> route = ''/'' then Some health_legacy
      else if route = ''/readyz'' then Some (readyz database_Ready [app_ready cfg])
      else if route = ''/metrics'' \<and> mt_Enabled (cfg_Metrics cfg) then Some (metrics_endpoint (cfg_Metrics cfg))
      else None)"

type_synonym route_table = "((string \<times> string) \<times> db HandlerFunc) list"

definition todoapi_Register :: "draws \<Rightarrow> db TodoService \<Rightarrow> route_table" where
  "todoapi_Register w svc =
     [((''POST'', ''/api/v1/todos''), todoapi_Create svc (dr_now w) (dr_id w)),
      ((''GET'', ''/api/v1/todos''), todoapi_List svc),
      ((''GET'', ''/api/v1/todos/:id''), todoapi_Get svc),
      ((''PUT'', ''/api/v1/todos/:id''), todoapi_Update svc (dr_now w)),
      ((''DELETE'', ''/api/v1/todos/:id''), todoapi_Delete svc),
      ((''POST'', ''/api/v1/create-todo''), todoapi_Create svc (dr_now w) (dr_id w)),
      ((''PUT'', ''/api/v1/update-todo/:todo-id''), todoapi_UpdateLegacy svc (dr_now w)),
      ((''DELETE'', ''/api/v1/delete-todo/:todo-id''), todoapi_DeleteLegacy svc),
      ((''GET'', ''/api/v1/todo/:todo-id''), todoapi_GetLegacy svc)]"

definition todoweb_Register :: "params \<Rightarrow> draws \<Rightarrow> db TodoService \<Rightarrow> AuthConfig \<Rightarrow> route_table" where
  "todoweb_Register p w svc ac =
     [((''GET'', ''/app/todos''), todoweb_List (pr_codec p) (pr_rdr p) ac (dr_random w) svc),
      ((''POST'', ''/app/todos''),
         todoweb_Create (pr_codec p) (pr_rdr p) ac (dr_random w) svc (dr_now w) (dr_id w)),
      ((''DELETE'', ''/app/todos/:id''), todoweb_Delete (pr_codec p) (pr_rdr p) ac (dr_random w) svc)]"

definition todo_routes ::
  "params \<Rightarrow> 'f Config \<Rightarrow> draws \<Rightarrow> string \<Rightarrow> string \<Rightarrow> db HandlerFunc option" where
  "todo_routes p cfg w meth route =
     (let svc = app_todos (pr_fmtTime p) cfg (dr_enq w)
      in map_of (todoapi_Register w svc @ todoweb_Register p w svc (cfg_Auth cfg)) (meth, route))"

definition reportapi_Register :: "draws \<Rightarrow> (enq_env, db) ReportService \<Rightarrow> route_table" where
  "reportapi_Register w svc =
     [((''POST'', ''/api/v1/reports''), reportapi_Create svc (dr_now w) (dr_id w) (dr_enq w)),
      ((''GET'', ''/api/v1/reports''), reportapi_List svc),
      ((''GET'', ''/api/v1/reports/:id''), reportapi_Get svc)]"

definition reportweb_Register ::
  "params \<Rightarrow> draws \<Rightarrow> (enq_env, db) ReportService \<Rightarrow> AuthConfig \<Rightarrow> route_table" where
  "reportweb_Register p w svc ac =
     [((''GET'', ''/app/reports''), reportweb_List (pr_codec p) (pr_rdr p) ac (dr_random w) svc),
      ((''POST'', ''/app/reports''),
         reportweb_Create (pr_codec p) (pr_rdr p) ac (dr_random w) svc (dr_now w) (dr_id w) (dr_enq w)),
      ((''GET'', ''/app/reports/:id''), reportweb_Show (pr_codec p) (pr_rdr p) ac (dr_random w) svc),
      ((''GET'', ''/app/reports/:id/status''), reportweb_StatusFragment (pr_rdr p) svc)]"

definition report_routes ::
  "params \<Rightarrow> 'f Config \<Rightarrow> draws \<Rightarrow> string \<Rightarrow> string \<Rightarrow> db HandlerFunc option" where
  "report_routes p cfg w meth route =
     map_of (reportapi_Register w (app_reports cfg) @
       reportweb_Register p w (app_reports cfg) (cfg_Auth cfg)) (meth, route)"

definition authapi_Register_routes ::
  "params \<Rightarrow> draws \<Rightarrow> db AuthService \<Rightarrow> AuthConfig \<Rightarrow> route_table" where
  "authapi_Register_routes p w svc ac =
     [((''POST'', ''/api/v1/auth/register''),
         authapi_Register (pr_bc p) svc (dr_random w) (dr_id w) (dr_now w)),
      ((''POST'', ''/api/v1/auth/login''),
         authapi_Login (pr_bc p) svc ac (dr_id w) (dr_now w) (dr_now' w)),
      ((''POST'', ''/api/v1/auth/logout''), authapi_Logout svc ac),
      ((''POST'', ''/api/v1/auth/token''),
         authapi_CreateToken (pr_bc p) svc (dr_id w) (dr_now w) (dr_now' w) (dr_bearer w) (dr_id' w)
           (dr_later w) (dr_later' w))]"

definition authweb_Register_routes ::
  "params \<Rightarrow> draws \<Rightarrow> db AuthService \<Rightarrow> AuthConfig \<Rightarrow> route_table" where
  "authweb_Register_routes p w svc ac =
     [((''GET'', ''/app/login''), authweb_LoginForm (pr_codec p) (pr_rdr p) ac (dr_random w)),
      ((''POST'', ''/app/login''),
         authweb_Login (pr_bc p) (pr_codec p) (pr_rdr p) svc ac (dr_random w) (dr_id w) (dr_now w) (dr_now' w))]"

definition auth_routes ::
  "params \<Rightarrow> 'f Config \<Rightarrow> draws \<Rightarrow> string \<Rightarrow> string \<Rightarrow> db HandlerFunc option" where
  "auth_routes p cfg w meth route =
     map_of (authapi_Register_routes p w (app_auth cfg) (cfg_Auth cfg) @
       authweb_Register_routes p w (app_auth cfg) (cfg_Auth cfg)) (meth, route)"

lemmas routes_defs =
  todo_routes_def todoapi_Register_def todoweb_Register_def
  report_routes_def reportapi_Register_def reportweb_Register_def
  auth_routes_def authapi_Register_routes_def authweb_Register_routes_def

text \<open>The static files, in every route table under \<open>GET\<close>.\<close>

definition static_routes :: "params \<Rightarrow> string \<Rightarrow> string \<Rightarrow> db HandlerFunc option" where
  "static_routes p meth route =
     (if meth = ''GET'' \<and> route = ''/static*'' then Some (StaticDirectoryHandler (pr_static p)) else None)"

text \<open>
  What the router puts in the place of a handler: not found, or for a path that other methods
  have (\<open>rq_Allow\<close> lists them), method not allowed, or the answer to \<open>OPTIONS\<close>.
\<close>

definition unmatched :: "db HandlerFunc" where
  "unmatched e s =
     (let allow = rq_Allow (ec_req e) in
      if allow = '''' then ((Some (HTTPError 404 (Some ''Not Found'') None), e), s)
      else if rq_Method (ec_req e) = ''OPTIONS'' then (NoContent 204 (AddHeader ''Allow'' allow e), s)
      else ((Some (HTTPError 405 (Some ''Method Not Allowed'') None), SetHeader ''Allow'' allow e), s))"

definition dispatch :: "params \<Rightarrow> 'f Config \<Rightarrow> draws \<Rightarrow> db HandlerFunc" where
  "dispatch p cfg w e d =
     (let m = rq_Method (ec_req e); r = rq_Route (ec_req e) in
      case static_routes p m r of Some h \<Rightarrow> h e d | None \<Rightarrow>
      (case ops_routes cfg m r of Some h \<Rightarrow> h e d | None \<Rightarrow>
      (case todo_routes p cfg w m r of Some h \<Rightarrow> h e d | None \<Rightarrow>
      (case auth_routes p cfg w m r of Some h \<Rightarrow> h e d | None \<Rightarrow>
      (case report_routes p cfg w m r of Some h \<Rightarrow> h e d | None \<Rightarrow> unmatched e d)))))"

text \<open>What \<open>app.New\<close> registers after \<open>NewEcho\<close>: authentication, then CSRF, then the router's handler.\<close>

definition chain :: "params \<Rightarrow> 'f Config \<Rightarrow> draws \<Rightarrow> db HandlerFunc" where
  "chain p cfg w =
     auth_Middleware (app_auth cfg) (cfg_Auth cfg) (dr_auth_now w)
       (CSRFMiddleware (cfg_Auth cfg) (dr_csrf w) (dispatch p cfg w))"

definition app_logging :: "'f Config \<Rightarrow> logging" where
  "app_logging cfg = (case Initialize (cfg_AppEnv cfg) (cfg_LoggingLevel cfg) of (_, _, st) \<Rightarrow> st)"

fun apply_middleware ::
  "params \<Rightarrow> logging \<Rightarrow> draws \<Rightarrow> 'f middleware \<Rightarrow> ('s \<times> obs) HandlerFunc \<Rightarrow> ('s \<times> obs) HandlerFunc" where
  "apply_middleware p st w MetricsMw next = metrics_Middleware (pr_size p) (dr_elapsed w) next"
| "apply_middleware p st w (SecureMw sc) next = SecureWithConfig sc next"
| "apply_middleware p st w RequestIDMw next = RequestID (dr_rid w) next"
| "apply_middleware p st w LoggingMw next = logging_Middleware st (dr_log_id w) (dr_log w 0) (dr_log w 1) next"
| "apply_middleware p st w RecoverMw next = next"
| "apply_middleware p st w (BodyLimitMw limit) next = BodyLimit limit next"
| "apply_middleware p st w (CORSMw co) next = CORS_Middleware co next"
| "apply_middleware p st w (RateLimiterMw rate burst expires) next = RateLimiter (pr_limiter p) next"

definition stack :: "params \<Rightarrow> 'f Config \<Rightarrow> 'f middleware list \<Rightarrow> draws \<Rightarrow> (db \<times> obs) HandlerFunc" where
  "stack p cfg mws w = foldr (apply_middleware p (app_logging cfg) w) mws (quiet (chain p cfg w))"

text \<open>
  One request, served by the Echo instance with the middlewares \<open>mws\<close>: what it logged and
  measured, the response, the database after it. \<open>ErrorHandler\<close> runs after the outermost
  middleware has returned.
\<close>

definition ServeHTTP ::
  "params \<Rightarrow> 'f Config \<Rightarrow> 'f middleware list \<Rightarrow> draws \<Rightarrow> Request \<Rightarrow> db \<Rightarrow> obs \<times> echo \<times> db" where
  "ServeHTTP p cfg mws w req d =
     (case stack p cfg mws w (new_echo req Background) (d, no_obs) of
        ((None, e1), s1) \<Rightarrow> (snd s1, e1, fst s1)
      | ((Some err, e1), s1) \<Rightarrow>
          (let s2 = emit (ErrorHandler_log (app_logging cfg) (dr_log_id w) (dr_log w 2) (pr_statusText p) err e1) s1
           in (snd s2, ErrorHandler (pr_statusText p) (pr_rdr p) err e1, fst s2)))"

subsection \<open>Requests without a principal\<close>

text \<open>
  A request that brings neither a bearer token nor a session cookie is anonymous, and
  finding that out does not touch the database.
\<close>

definition no_credentials :: "AuthConfig \<Rightarrow> Request \<Rightarrow> bool" where
  "no_credentials ac r \<longleftrightarrow>
     \<not> HasPrefix (ToLower (rq_Header r ''Authorization'')) ''bearer '' \<and>
     map_of (rq_Cookies r) (ac_SessionCookie ac) \<in> {None, Some ''''}"

lemma request_principal_none:
  assumes "no_credentials ac (ec_req e)"
  shows "request_principal svc ac now e d = (Anonymous, d)"
  using assms by (auto simp: request_principal_def no_credentials_def cookie_def Let_def)

lemma anonymous_not_authenticated [simp]: "\<not> authenticated False (WithPrincipal c Anonymous)"
  by (simp add: authenticated_def Anonymous_def)

abbreviation denied :: goerr where
  "denied \<equiv> Errorf_w (Sentinel ErrPermissionDenied) ''authentication required''"

text \<open>Every operation of the two domains refuses such a caller before it touches its store.\<close>

lemma todos_denied:
  assumes "\<not> authenticated (ts_authDisabled svc) c"
  shows "CreateTodo svc c req now i s = (Inl denied, s)" "UpdateTodo svc c t req now s = (Inl denied, s)"
    "DeleteTodo svc c t s = (Some denied, s)" "FindTodoById svc c t s = (Inl denied, s)"
    "ListAllTodos svc c s = (Inl denied, s)" "Summary svc c s = (Inl denied, s)"
  using authorize_Some [OF assms]
  by (simp_all add: CreateTodo_def UpdateTodo_def DeleteTodo_def FindTodoById_def ListAllTodos_def Summary_def)

lemma reports_denied:
  assumes "\<not> authenticated (rsv_authDisabled svc) c"
  shows "CreateReport svc c req now i env s = (Inl denied, s)" "GetReport svc c t s = (Inl denied, s)"
    "ListReports svc c s = (Inl denied, s)"
  using principal_Inl [OF assms] by (simp_all add: CreateReport_def GetReport_def ListReports_def)

lemma ts_authDisabled_app [simp]: "ts_authDisabled (app_todos f cfg env) = ac_Disabled (cfg_Auth cfg)"
  by (simp add: app_todos_def)

lemma todo_routes_denied:
  assumes "\<not> authenticated (ac_Disabled (cfg_Auth cfg)) (ec_ctx e)"
    and "todo_routes p cfg w meth route = Some h"
  shows "snd (h e d) = d" and "HasPrefix route ''/api'' \<Longrightarrow>
    h e d = ((Some denied, e), d) \<or> (\<exists>err. h e d = ((Some (invalid_request_body err), e), d))"
  using assms(2)
  by (auto simp: routes_defs Let_def HasPrefix_def todoapi_defs todoapi_Create_def todoapi_List_def
      todoweb_List_def todoweb_Create_def todoweb_Delete_def todos_denied assms(1) case_prod_beta
      split: if_splits sum.splits)

lemma report_routes_denied:
  assumes "\<not> authenticated (ac_Disabled (cfg_Auth cfg)) (ec_ctx e)"
    and "report_routes p cfg w meth route = Some h"
  shows "h e d = ((Some denied, e), d) \<or> h e d = ((Some invalid_body, e), d)"
  using assms(2)
  by (auto simp: routes_defs Let_def reportapi_Create_def reportapi_List_def reportapi_Get_def
      reportweb_List_def reportweb_Create_def reportweb_Show_def reportweb_StatusFragment_def
      reports_denied assms(1) split: if_splits sum.splits)

subsection \<open>What identifying the caller may change\<close>

text \<open>
  Everything but the sessions: an expired session is deleted when it is met.
\<close>

definition but_sessions where
  "but_sessions d = (todos_todos d, reports_reports d, platform_jobs d, auth_users d, auth_api_tokens d)"

lemma leaves_auth_reads:
  "leaves but_sessions (ast_GetUserByID PgAuthStore i)" "leaves but_sessions (ast_GetSession PgAuthStore i)"
  "leaves but_sessions (ast_GetAPITokenByHash PgAuthStore h)" "leaves but_sessions (ast_DeleteSession PgAuthStore i)"
proof -
  have stmt: "leaves but_sessions stmt \<Longrightarrow> leaves but_sessions (run_stmt stmt)" for stmt :: "db \<Rightarrow> (goerr + 'x) \<times> db"
    by (rule leaves_run_stmt) (simp_all add: but_sessions_def)
  have mapped: "leaves F op \<Longrightarrow> leaves F (\<lambda>d. mapped f (op d))" for F :: "db \<Rightarrow> 'x" and f :: "'y \<Rightarrow> 'z" and op
    by (auto simp: leaves_def mapped_def split: prod.splits sum.splits) (metis snd_conv)+
  show "leaves but_sessions (ast_GetUserByID PgAuthStore i)" "leaves but_sessions (ast_GetSession PgAuthStore i)"
    "leaves but_sessions (ast_GetAPITokenByHash PgAuthStore h)" "leaves but_sessions (ast_DeleteSession PgAuthStore i)"
    unfolding PgAuthStore_ops pg_GetUserByID_def pg_GetSession_def pg_GetAPITokenByHash_def pg_DeleteSession_def
      q_GetUserByID_def q_GetSession_def q_GetAPITokenByHash_def q_DeleteSession_def
    by (intro mapped stmt; simp add: leaves_def but_sessions_def)+
qed

lemma leaves_request_principal: "leaves but_sessions (request_principal (app_auth cfg) ac now e)"
proof -
  note l = leaves_auth_reads [THEN leavesD]
  have "but_sessions (snd (PrincipalFromBearer (app_auth cfg) tok now d)) = but_sessions d" for tok d
    using l(1,3) by (auto simp: PrincipalFromBearer_def app_auth_def split: prod.splits sum.splits) (metis snd_conv)+
  moreover have "but_sessions (snd (PrincipalFromSession (app_auth cfg) sid now d)) = but_sessions d" for sid d
    using l(1,2,4) by (auto simp: PrincipalFromSession_def app_auth_def Let_def split: prod.splits sum.splits) (metis snd_conv)+
  ultimately show ?thesis
    by (auto simp: leaves_def request_principal_def Let_def split: option.splits sum.splits prod.splits) (metis snd_conv)+
qed

subsection \<open>Running the middlewares\<close>

text \<open>The context the application's handlers start from, for a request that is not turned away.\<close>

definition request_id :: "draws \<Rightarrow> Request \<Rightarrow> string" where
  "request_id w req =
     (let rid = rq_Header req ''X-Request-Id''
      in if rid \<noteq> '''' then rid else if dr_rid w \<noteq> '''' then dr_rid w else uuid_String (dr_log_id w))"

definition logged_echo :: "draws \<Rightarrow> Request \<Rightarrow> echo" where
  "logged_echo w req =
     (let e = assign_request_id (dr_rid w) (secure_headers secure_config (new_echo req Background))
      in WithContext (ContextWithRequestID Background (request_id w req)) e)"

text \<open>What lies inside of the logging middleware; none of it logs or counts.\<close>

definition inner :: "params \<Rightarrow> 'f Config \<Rightarrow> int \<Rightarrow> draws \<Rightarrow> db HandlerFunc" where
  "inner p cfg limit w =
     BodyLimit limit (CORS_Middleware (cors_config (cfg_AllowedOrigins cfg))
       (if rl_UseMemory (cfg_RateLimit cfg) then RateLimiter (pr_limiter p) (chain p cfg w) else chain p cfg w))"

text \<open>The log and the samples of one request, from the outcome of its inner handlers.\<close>

definition request_log :: "params \<Rightarrow> 'f Config \<Rightarrow> draws \<Rightarrow> Request \<Rightarrow> goerr option \<Rightarrow> echo \<Rightarrow> log_effect list" where
  "request_log p cfg w req err e1 =
     (let st = app_logging cfg;
          l = \<lparr>lg_zap = globalLogger st, lg_component = ''http'', lg_traceID = request_id w req\<rparr>;
          status = [(''status_code'', MInt (ec_status e1))]
      in log_Info st l (dr_log w 0) ''Incoming request''
           [(''method'', MString (rq_Method req)), (''path'', MString (rq_URLPath req)),
            (''remote_ip'', MString (rq_RemoteAddr req)), (''user_agent'', MString (rq_Header req ''User-Agent'')),
            (''request_id'', MString (request_id w req))] #
         (case err of
            None \<Rightarrow> [log_Info st l (dr_log w 1) ''Request completed'' status]
          | Some er \<Rightarrow> [log_Error st l (dr_log w 1) ''Request failed'' (Some er) status,
              ErrorHandler_log st (dr_log_id w) (dr_log w 2) (pr_statusText p) er e1]))"

definition request_samples :: "params \<Rightarrow> draws \<Rightarrow> Request \<Rightarrow> goerr option \<Rightarrow> echo \<Rightarrow> sample list" where
  "request_samples p w req err e1 =
     (let path = (if rq_Route req = '''' then ''unmatched'' else rq_Route req);
          status = (if ec_status e1 = 0 then (if err \<noteq> None then 500 else 200) else ec_status e1);
          written = (if ec_committed e1 then pr_size p (ec_body e1) else 0)
      in [RequestsTotal (rq_Method req) path (Itoa status), RequestDuration (rq_Method req) path (dr_elapsed w)] @
         (if rq_ContentLength req > 0 then [RequestSize (rq_Method req) path (rq_ContentLength req)] else []) @
         (if written > 0 then [ResponseSize (rq_Method req) path written] else []))"

definition answer :: "params \<Rightarrow> goerr option \<Rightarrow> echo \<Rightarrow> echo" where
  "answer p err e1 = (case err of None \<Rightarrow> e1 | Some er \<Rightarrow> ErrorHandler (pr_statusText p) (pr_rdr p) er e1)"

lemma request_id_not_Nil [simp]: "request_id w req \<noteq> ''''"
  by (simp add: request_id_def Let_def)

lemma logged_echo_simps [simp]:
  "ec_req (logged_echo w req) = req" "\<not> ec_committed (logged_echo w req)" "ec_status (logged_echo w req) = 200"
  "ec_flash (logged_echo w req) = None" "ec_body (logged_echo w req) = NoBody" "ec_cookies (logged_echo w req) = []"
  "ec_ctx (logged_echo w req) = ContextWithRequestID Background (request_id w req)"
  by (simp_all add: logged_echo_def WithContext_def new_echo_def Let_def)

lemma quiet_middlewares:
  "BodyLimit limit (quiet h) = quiet (BodyLimit limit h)"
  "CORS_Middleware co (quiet h) = quiet (CORS_Middleware co h)"
  "RateLimiter deny (quiet h) = quiet (RateLimiter deny h)"
  by (auto simp: fun_eq_iff quiet_def BodyLimit_def CORS_Middleware_def RateLimiter_def NoContentNow_def Let_def
      split: option.splits prod.splits)

lemma stack_NewEcho:
  assumes "NewEcho (pr_bytes p) cfg = Some mws" and "pr_bytes p (cfg_BodyLimit cfg) = Some limit"
  shows "stack p cfg mws w = metrics_Middleware (pr_size p) (dr_elapsed w) (SecureWithConfig secure_config
    (RequestID (dr_rid w) (logging_Middleware (app_logging cfg) (dr_log_id w) (dr_log w 0) (dr_log w 1)
      (quiet (inner p cfg limit w)))))"
  using assms by (auto simp: NewEcho_def stack_def inner_def quiet_middlewares)

text \<open>The request id that the logging middleware reads off the response.\<close>

lemma response_request_id:
  "response_request_id (assign_request_id (dr_rid w) (secure_headers secure_config (new_echo req Background))) (dr_log_id w) =
   request_id w req"
  by (simp add: response_request_id_def assign_request_id_def request_id_def new_echo_def Let_def)

lemma ServeHTTP_eq:
  assumes "NewEcho (pr_bytes p) cfg = Some mws" and "pr_bytes p (cfg_BodyLimit cfg) = Some limit"
  shows "ServeHTTP p cfg mws w req d =
    (case inner p cfg limit w (logged_echo w req) d of ((err, e1), d1) \<Rightarrow>
      (\<lparr>ob_log = request_log p cfg w req err e1, ob_metrics = request_samples p w req err e1\<rparr>, answer p err e1, d1))"
proof -
  define E where "E = assign_request_id (dr_rid w) (secure_headers secure_config (new_echo req Background))"
  have e: "ec_req E = req" "ec_ctx E = Background" by (simp_all add: E_def new_echo_def)
  have l: "WithContext (ContextWithRequestID Background (request_id w req)) E = logged_echo w req"
    by (simp add: logged_echo_def E_def)
  have rid: "response_request_id E (dr_log_id w) = request_id w req" unfolding E_def by (rule response_request_id)
  obtain err e1 d1 where i: "inner p cfg limit w (logged_echo w req) d = ((err, e1), d1)" by (metis prod.exhaust)
  have "logging_Middleware (app_logging cfg) (dr_log_id w) (dr_log w 0) (dr_log w 1) (quiet (inner p cfg limit w)) E (d, no_obs) =
      ((err, e1), (d1, \<lparr>ob_log = take 2 (request_log p cfg w req err e1), ob_metrics = []\<rparr>))"
    by (cases err) (simp_all add: logging_Middleware_def rid l e i quiet_def WithContext_traced emit_def
        no_obs_def request_log_def Let_def)
  then have "stack p cfg mws w (new_echo req Background) (d, no_obs) =
      ((err, e1), (d1, \<lparr>ob_log = take 2 (request_log p cfg w req err e1), ob_metrics = request_samples p w req err e1\<rparr>))"
    unfolding stack_NewEcho [OF assms] metrics_Middleware_def SecureWithConfig_def RequestID_def E_def
    by (simp add: request_samples_def observe_def Let_def new_echo_def)
  then show ?thesis
    by (cases err) (simp_all add: ServeHTTP_def i emit_def request_log_def answer_def Let_def)
qed

subsection \<open>Requests the stock middlewares let through\<close>

definition admitted :: "params \<Rightarrow> 'f Config \<Rightarrow> Request \<Rightarrow> bool" where
  "admitted p cfg req \<longleftrightarrow> rq_Method req \<noteq> ''OPTIONS'' \<and>
     (case pr_bytes p (cfg_BodyLimit cfg) of None \<Rightarrow> False | Some limit \<Rightarrow> rq_ContentLength req \<le> limit) \<and>
     (rl_UseMemory (cfg_RateLimit cfg) \<longrightarrow> pr_limiter p req = None)"

text \<open>The context with which the application's own middlewares start.\<close>

definition entry_echo :: "'f Config \<Rightarrow> draws \<Rightarrow> Request \<Rightarrow> echo" where
  "entry_echo cfg w req = cors_headers (cors_config (cfg_AllowedOrigins cfg)) (logged_echo w req)"

lemma entry_echo_simps [simp]:
  "ec_req (entry_echo cfg w req) = req" "\<not> ec_committed (entry_echo cfg w req)" "ec_status (entry_echo cfg w req) = 200"
  "ec_flash (entry_echo cfg w req) = None" "ec_body (entry_echo cfg w req) = NoBody" "ec_cookies (entry_echo cfg w req) = []"
  "ec_ctx (entry_echo cfg w req) = ContextWithRequestID Background (request_id w req)"
  by (simp_all add: entry_echo_def)

lemma inner_admitted:
  assumes "admitted p cfg req" and "pr_bytes p (cfg_BodyLimit cfg) = Some limit"
  shows "inner p cfg limit w (logged_echo w req) d = chain p cfg w (entry_echo cfg w req) d"
  using assms by (simp add: inner_def BodyLimit_def CORS_passes RateLimiter_def admitted_def entry_echo_def)

lemma inner_refused:
  assumes "\<not> admitted p cfg req" and "pr_bytes p (cfg_BodyLimit cfg) = Some limit"
  shows "snd (inner p cfg limit w (logged_echo w req) d) = d"
proof (cases "rq_Method req = ''OPTIONS''")
  case True
  then show ?thesis
    by (auto simp: inner_def BodyLimit_def CORS_Middleware_def NoContentNow_def Let_def)
next
  case False
  with assms show ?thesis
    by (auto simp: inner_def BodyLimit_def CORS_passes RateLimiter_def admitted_def)
qed

lemma NewEcho_limit: "NewEcho (pr_bytes p) cfg = Some mws \<Longrightarrow> \<exists>limit. pr_bytes p (cfg_BodyLimit cfg) = Some limit"
  by (auto simp: NewEcho_def split: option.splits)

lemma ServeHTTP_admitted:
  assumes "NewEcho (pr_bytes p) cfg = Some mws" and "admitted p cfg req"
    and "chain p cfg w (entry_echo cfg w req) d = ((err, e1), d1)"
  shows "ServeHTTP p cfg mws w req d =
    (\<lparr>ob_log = request_log p cfg w req err e1, ob_metrics = request_samples p w req err e1\<rparr>, answer p err e1, d1)"
  using NewEcho_limit [OF assms(1)] ServeHTTP_eq [OF assms(1)] inner_admitted [OF assms(2)] assms(3) by force

lemma ServeHTTP_refused:
  assumes "NewEcho (pr_bytes p) cfg = Some mws" and "\<not> admitted p cfg req"
  shows "\<exists>o' e'. ServeHTTP p cfg mws w req d = (o', e', d)"
proof -
  obtain limit where l: "pr_bytes p (cfg_BodyLimit cfg) = Some limit" using NewEcho_limit [OF assms(1)] by blast
  with inner_refused [OF assms(2) l, of w d] ServeHTTP_eq [OF assms(1) l, of w req d] show ?thesis
    by (auto split: prod.splits)
qed

text \<open>The request as the handlers see it, once the caller is identified.\<close>

lemma chain_enabled:
  assumes "\<not> ac_Disabled (cfg_Auth cfg)"
    and "request_principal (app_auth cfg) (cfg_Auth cfg) (dr_auth_now w) e d = (pr, d1)"
  shows "chain p cfg w e d = CSRFMiddleware (cfg_Auth cfg) (dr_csrf w) (dispatch p cfg w)
    (WithContext (WithPrincipal (ec_ctx e) pr) e) d1"
  using assms by (simp add: chain_def auth_Middleware_def)

text \<open>The two domains' routes are disjoint from the others.\<close>

definition todo_keys :: "(string \<times> string) set" where
  "todo_keys = {(''POST'', ''/api/v1/todos''), (''GET'', ''/api/v1/todos''), (''GET'', ''/api/v1/todos/:id''),
     (''PUT'', ''/api/v1/todos/:id''), (''DELETE'', ''/api/v1/todos/:id''), (''POST'', ''/api/v1/create-todo''),
     (''PUT'', ''/api/v1/update-todo/:todo-id''), (''DELETE'', ''/api/v1/delete-todo/:todo-id''),
     (''GET'', ''/api/v1/todo/:todo-id''), (''GET'', ''/app/todos''), (''POST'', ''/app/todos''),
     (''DELETE'', ''/app/todos/:id'')}"

definition report_keys :: "(string \<times> string) set" where
  "report_keys = {(''POST'', ''/api/v1/reports''), (''GET'', ''/api/v1/reports''), (''GET'', ''/api/v1/reports/:id''),
     (''GET'', ''/app/reports''), (''POST'', ''/app/reports''), (''GET'', ''/app/reports/:id''),
     (''GET'', ''/app/reports/:id/status'')}"

lemma todo_routes_key: "todo_routes p cfg w m r = Some h \<Longrightarrow> (m, r) \<in> todo_keys"
  unfolding todo_routes_def Let_def
  by (drule map_of_SomeD) (auto simp: todo_keys_def todoapi_Register_def todoweb_Register_def)

lemma report_routes_key: "report_routes p cfg w m r = Some h \<Longrightarrow> (m, r) \<in> report_keys"
  unfolding report_routes_def
  by (drule map_of_SomeD) (auto simp: report_keys_def reportapi_Register_def reportweb_Register_def)

definition other_keys :: "(string \<times> string) set" where
  "other_keys = {(''POST'', ''/api/v1/auth/register''), (''POST'', ''/api/v1/auth/login''),
     (''POST'', ''/api/v1/auth/logout''), (''POST'', ''/api/v1/auth/token''), (''GET'', ''/app/login''),
     (''POST'', ''/app/login''), (''GET'', ''/healthz''), (''GET'', ''/health''), (''GET'', ''/''),
     (''GET'', ''/readyz''), (''GET'', ''/metrics'')}"

lemma auth_routes_key: "auth_routes p cfg w m r = Some h \<Longrightarrow> (m, r) \<in> other_keys"
  unfolding auth_routes_def
  by (drule map_of_SomeD) (auto simp: other_keys_def authapi_Register_routes_def authweb_Register_routes_def)

lemma ops_routes_key: "ops_routes cfg m r = Some h \<Longrightarrow> (m, r) \<in> other_keys"
  by (simp add: ops_routes_def other_keys_def split: if_splits) blast+

lemma static_routes_key: "static_routes p m r = Some h \<Longrightarrow> (m, r) \<in> {(''GET'', ''/static*'')}"
  by (simp add: static_routes_def split: if_splits)

lemma keys_disjoint:
  "report_keys \<inter> todo_keys = {}" "todo_keys \<inter> other_keys = {}" "report_keys \<inter> other_keys = {}"
  "todo_keys \<inter> {(''GET'', ''/static*'')} = {}" "report_keys \<inter> {(''GET'', ''/static*'')} = {}"
  unfolding todo_keys_def report_keys_def other_keys_def by code_simp+

lemma no_route: "(\<And>h. f = Some h \<Longrightarrow> k \<in> A) \<Longrightarrow> k \<in> B \<Longrightarrow> B \<inter> A = {} \<Longrightarrow> f = None"
  by (cases f) auto

lemma dispatch_domain:
  assumes "todo_routes p cfg w (rq_Method (ec_req e)) (rq_Route (ec_req e)) = Some h \<or>
    report_routes p cfg w (rq_Method (ec_req e)) (rq_Route (ec_req e)) = Some h"
  shows "dispatch p cfg w e d = h e d"
  using assms
proof
  let ?m = "rq_Method (ec_req e)" and ?r = "rq_Route (ec_req e)"
  assume t: "todo_routes p cfg w ?m ?r = Some h"
  have "ops_routes cfg ?m ?r = None" by (rule no_route [OF ops_routes_key todo_routes_key [OF t] keys_disjoint(2)])
  moreover have "static_routes p ?m ?r = None"
    by (rule no_route [OF static_routes_key todo_routes_key [OF t] keys_disjoint(4)])
  ultimately show ?thesis using t by (simp add: dispatch_def Let_def)
next
  let ?m = "rq_Method (ec_req e)" and ?r = "rq_Route (ec_req e)"
  assume r: "report_routes p cfg w ?m ?r = Some h"
  note k = report_routes_key [OF r]
  have "ops_routes cfg ?m ?r = None" by (rule no_route [OF ops_routes_key k keys_disjoint(3)])
  moreover have "auth_routes p cfg w ?m ?r = None" by (rule no_route [OF auth_routes_key k keys_disjoint(3)])
  moreover have "todo_routes p cfg w ?m ?r = None"
    by (rule no_route [OF todo_routes_key k keys_disjoint(1)])
  moreover have "static_routes p ?m ?r = None"
    by (rule no_route [OF static_routes_key k keys_disjoint(5)])
  ultimately show ?thesis using r by (simp add: dispatch_def Let_def)
qed

subsection \<open>Refusals\<close>

text \<open>
  How the API turns a stranger away: the handler's error reaches \<open>ErrorHandler\<close> with
  nothing written, or the CSRF middleware has answered.
\<close>

definition api_refusal :: "Request \<Rightarrow> goerr option \<Rightarrow> echo \<Rightarrow> bool" where
  "api_refusal req r e \<longleftrightarrow> ec_req e = req \<and> HasPrefix (rq_Route req) ''/api'' \<and>
     ((\<not> ec_committed e \<and> ec_status e = 200 \<and> (r = Some denied \<or> r = Some invalid_body \<or> (\<exists>err. r = Some (invalid_request_body err)))) \<or>
      (r = None \<and> ec_committed e \<and> ec_status e = 403))"

lemma classify_refusals:
  "classify st denied = (403, ''FORBIDDEN'', Error denied, [])"
  "classify st invalid_body = (400, ''BAD_REQUEST'', ''invalid body'', [])"
  "classify st (invalid_request_body err) =
     (400, ''BAD_REQUEST'', ''Invalid request body'', [(''error'', Error err)])"
  by (simp_all add: classify_def MapError_def Let_def invalid_body_def invalid_request_body_def NewAPIError_def
      Errorf_w_def)

lemma ErrorHandler_api_status:
  assumes "\<not> ec_committed e" and "HasPrefix (rq_Route (ec_req e)) ''/api''"
    and "classify st err = (status, code, message, det)"
  shows "ec_committed (ErrorHandler st rdr err e) \<and> ec_status (ErrorHandler st rdr err e) = status"
  using assms by (simp add: ErrorHandler_def isAPI_def JSON_def Let_def)

lemma api_refusal_answer:
  assumes "api_refusal req r e"
  shows "ec_committed (answer p r e) \<and> ec_status (answer p r e) \<in> {400, 403}"
  using assms ErrorHandler_api_status [of e "pr_statusText p" _ _ _ _ _ "pr_rdr p"]
  by (auto simp: api_refusal_def classify_refusals answer_def)

lemma anonymous_chain:
  assumes "\<not> ac_Disabled (cfg_Auth cfg)" and "no_credentials (cfg_Auth cfg) req"
    and "todo_routes p cfg w (rq_Method req) (rq_Route req) = Some h \<or>
      report_routes p cfg w (rq_Method req) (rq_Route req) = Some h"
    and "ec_req e0 = req" "\<not> ec_committed e0" "ec_status e0 = 200"
  shows "\<exists>r e1. chain p cfg w e0 d = ((r, e1), d) \<and>
    (HasPrefix (rq_Route req) ''/api'' \<longrightarrow> api_refusal req r e1 \<and>
      (\<not> HasPrefix (rq_URLPath req) ''/app'' \<longrightarrow> r \<noteq> None))"
proof -
  let ?e = e0
  note req = assms(4)
  let ?e1 = "WithContext (WithPrincipal (ec_ctx ?e) Anonymous) ?e"
  have p0: "request_principal (app_auth cfg) (cfg_Auth cfg) (dr_auth_now w) ?e d = (Anonymous, d)"
    by (rule request_principal_none) (simp add: req assms(2))
  have ch: "chain p cfg w ?e d = CSRFMiddleware (cfg_Auth cfg) (dr_csrf w) (dispatch p cfg w) ?e1 d"
    by (rule chain_enabled [OF assms(1) p0])
  have run: "\<exists>r e2. dispatch p cfg w e d = ((r, e2), d) \<and> 
      (HasPrefix (rq_Route req) ''/api'' \<longrightarrow> api_refusal req r e2 \<and> r \<noteq> None)"
    if e: "ec_req e = req" "ec_ctx e = ec_ctx ?e1" "\<not> ec_committed e" "ec_status e = 200" for e
  proof -
    have na: "\<not> authenticated (ac_Disabled (cfg_Auth cfg)) (ec_ctx e)"
      using assms(1) e(2) by (simp add: WithContext_def)
    have h: "dispatch p cfg w e d = h e d" by (rule dispatch_domain) (simp add: e(1) assms(3))
    from assms(3) show ?thesis
    proof
      assume t: "todo_routes p cfg w (rq_Method req) (rq_Route req) = Some h"
      from todo_routes_denied [OF na t, of d] h e show ?thesis
        by (cases "h e d") (auto simp: api_refusal_def)
    next
      assume r: "report_routes p cfg w (rq_Method req) (rq_Route req) = Some h"
      from report_routes_denied [OF na r, of d] h e show ?thesis by (auto simp: api_refusal_def)
    qed
  qed
  have e1: "ec_req ?e1 = req" "\<not> ec_committed ?e1" "ec_status ?e1 = 200" by (simp_all add: WithContext_def assms(4-6))
  have e2: "ec_req (ensureCSRFCookie ac b ?e1) = req" "ec_ctx (ensureCSRFCookie ac b ?e1) = ec_ctx ?e1"
    "\<not> ec_committed (ensureCSRFCookie ac b ?e1)" "ec_status (ensureCSRFCookie ac b ?e1) = 200" for ac b
    using e1 by (simp_all add: ensureCSRFCookie_def split: option.splits)
  show ?thesis
  proof (cases rule: CSRF_cases [of "cfg_Auth cfg" "dr_csrf w" "dispatch p cfg w" ?e1 d])
    case 1
    then show ?thesis using run [OF e1(1) refl e1(2,3)] ch by metis
  next
    case 2
    then show ?thesis using run [OF e2, of "cfg_Auth cfg" "dr_csrf w"] ch by metis
  next
    case 3
    then show ?thesis using e1 ch by (simp add: JSON_def api_refusal_def respond_def)
  qed
qed

subsection \<open>Requests outside the web pages\<close>

text \<open>They reach their handler with the caller's principal attached and nothing written.\<close>

lemma chain_outside_app:
  assumes "\<not> HasPrefix (rq_URLPath (ec_req e)) ''/app''"
  shows "\<exists>c d1. chain p cfg w e d = dispatch p cfg w (WithContext c e) d1"
proof -
  obtain pr d1 where pr: "request_principal (app_auth cfg) (cfg_Auth cfg) (dr_auth_now w) e d = (pr, d1)" by force
  show ?thesis
    using assms pr by (auto simp: chain_def auth_Middleware_def CSRFMiddleware_def WithContext_def)
qed

lemma dispatch_metrics:
  assumes "rq_Method (ec_req e) = ''GET''" and "rq_Route (ec_req e) = ''/metrics''" and "mt_Enabled (cfg_Metrics cfg)"
  shows "dispatch p cfg w e d = metrics_endpoint (cfg_Metrics cfg) e d"
  using assms by (simp add: dispatch_def static_routes_def ops_routes_def Let_def)

end
