(* ===== verification/Answers.thy ===== *)
theory Answers
  imports Server
begin

text \<open>
  What every answer of the assembled server carries: the headers that the middlewares of
  \<open>NewEcho\<close> set reach the client whatever the handlers do, since those set no header but
  \<open>Location\<close>, \<open>Allow\<close> and \<open>WWW-Authenticate\<close>; and the log lines of a request, which all carry its
  request id.
\<close>

subsection \<open>Headers the handlers leave alone\<close>

text \<open>The headers some handler of the program sets; \<open>Content-Type\<close> is implied by the body.\<close>

definition handler_headers :: "string set" where
  "handler_headers = {''Location'', ''WWW-Authenticate'', ''Content-Type'', ''Allow''}"

text \<open>A handler passes the request and its id on, and the other headers.\<close>

definition kept :: "echo \<Rightarrow> echo \<Rightarrow> bool" where
  "kept e e' \<longleftrightarrow> ec_req e' = ec_req e \<and>
     RequestIDFromContext (Some (ec_ctx e')) = RequestIDFromContext (Some (ec_ctx e)) \<and>
     (\<forall>k. k \<notin> handler_headers \<longrightarrow> map_of (ec_headers e') k = map_of (ec_headers e) k)"

lemma kept_refl [simp]: "kept e e"
  by (simp add: kept_def)

lemma kept_trans: "kept e e1 \<Longrightarrow> kept e1 e2 \<Longrightarrow> kept e e2"
  by (simp add: kept_def)

lemma kept_cong:
  "ec_req e' = ec_req e \<Longrightarrow> ec_ctx e' = ec_ctx e \<Longrightarrow> ec_headers e' = ec_headers e \<Longrightarrow> kept e0 e' \<longleftrightarrow> kept e0 e"
  by (simp add: kept_def)

lemma kept_basic [simp]:
  "kept e0 (respond st b e) \<longleftrightarrow> kept e0 e" "kept e0 (SetCookie ck e) \<longleftrightarrow> kept e0 e"
  "kept e0 (e\<lparr>ec_flash := fs\<rparr>) \<longleftrightarrow> kept e0 e"
  "kept e0 (WithContext (WithPrincipal (ec_ctx e) pr) e) \<longleftrightarrow> kept e0 e"
  by (simp_all add: kept_def WithContext_def)

lemma kept_SetHeader [simp]:
  "k \<in> handler_headers \<Longrightarrow> kept e0 (SetHeader k v e) \<longleftrightarrow> kept e0 e"
  "k \<in> handler_headers \<Longrightarrow> kept e0 (AddHeader k v e) \<longleftrightarrow> kept e0 e"
  by (simp_all add: kept_def) (metis header_other)+

lemma kept_frame [simp]:
  "kept e0 (snd (JSON st p e)) \<longleftrightarrow> kept e0 e" "kept e0 (snd (NoContent st e)) \<longleftrightarrow> kept e0 e"
  "kept e0 (snd (Redirect st url e)) \<longleftrightarrow> kept e0 e"
  "kept e0 (snd (RenderApp rdr page pd e)) \<longleftrightarrow> kept e0 e"
  "kept e0 (snd (RenderAppStatus rdr st page pd e)) \<longleftrightarrow> kept e0 e"
  "kept e0 (snd (RenderAuth rdr page pd e)) \<longleftrightarrow> kept e0 e"
  "kept e0 (snd (RenderAuthStatus rdr st page pd e)) \<longleftrightarrow> kept e0 e"
  "kept e0 (snd (RenderFragment rdr page pd e)) \<longleftrightarrow> kept e0 e"
  "kept e0 (snd (RenderFragmentStatus rdr st page pd e)) \<longleftrightarrow> kept e0 e"
  "kept e0 (snd (PeekFlash k e)) \<longleftrightarrow> kept e0 e" "kept e0 (SetFlash k fs e) \<longleftrightarrow> kept e0 e"
  "kept e0 (clearFlash e) \<longleftrightarrow> kept e0 e" "kept e0 (snd (ConsumeFlash k e)) \<longleftrightarrow> kept e0 e"
  "kept e0 (snd (web_csrf ac random e)) \<longleftrightarrow> kept e0 e" "kept e0 (ensureCSRFCookie ac random e) \<longleftrightarrow> kept e0 e"
proof -
  show peek: "kept e0 (snd (PeekFlash k e)) \<longleftrightarrow> kept e0 e" for k e
    by (simp add: PeekFlash_def split: option.split)
  show "kept e0 (SetFlash k fs e) \<longleftrightarrow> kept e0 e"
    using peek [of k e] by (simp add: SetFlash_def Let_def case_prod_beta split: option.split)
  show clear: "kept e0 (clearFlash e) \<longleftrightarrow> kept e0 e" for e by (simp add: clearFlash_def)
  show "kept e0 (snd (ConsumeFlash k e)) \<longleftrightarrow> kept e0 e"
    using peek [of k e] clear by (simp add: ConsumeFlash_def case_prod_beta)
qed (simp_all add: JSON_def NoContent_def Redirect_def render_defs web_csrf_def ensureCSRFCookie_def Let_def
    handler_headers_def split: option.split)

lemma web_shell_kept [simp]: "kept e0 (snd (web_shell k ac random title nav e)) \<longleftrightarrow> kept e0 e"
  by (simp add: web_shell_def case_prod_beta)

lemma todo_page_kept [simp]: "kept e0 (snd (todo_page k ac random items form errs e)) \<longleftrightarrow> kept e0 e"
  by (simp add: todo_page_def case_prod_beta)

definition keeps :: "'s HandlerFunc \<Rightarrow> bool" where
  "keeps h \<longleftrightarrow> (\<forall>e s. kept e (snd (fst (h e s))))"

lemma keepsI: "(\<And>e s. kept e (snd (fst (h e s)))) \<Longrightarrow> keeps h"
  by (simp add: keeps_def)

lemma keepsD: "keeps h \<Longrightarrow> kept e0 e \<Longrightarrow> kept e0 (snd (fst (h e s)))"
  unfolding keeps_def by (blast intro: kept_trans)

lemma todo_handlers_keep:
  "keeps (todoapi_Create tsvc now i)" "keeps (todoapi_List tsvc)" "keeps (todoapi_Get tsvc)"
  "keeps (todoapi_Update tsvc now)" "keeps (todoapi_Delete tsvc)" "keeps (todoapi_GetLegacy tsvc)"
  "keeps (todoapi_UpdateLegacy tsvc now)" "keeps (todoapi_DeleteLegacy tsvc)"
  "keeps (todoweb_List k rdr ac random tsvc)"
  by (intro keepsI; simp add: todoapi_defs todoapi_Create_def todoapi_List_def todoweb_List_def case_prod_beta
      split: sum.split option.split)+

lemma todo_pages_keep:
  "keeps (todoweb_Create k rdr ac random tsvc now i)" "keeps (todoweb_Delete k rdr ac random tsvc)"
  by (intro keepsI; simp add: todoweb_Create_def todoweb_Delete_def keepsD [OF todo_handlers_keep(9)]
      FlashSuccess_def Let_def case_prod_beta split: sum.split option.split)+

lemma report_handlers_keep:
  "keeps (reportapi_Create rsvc now i env)" "keeps (reportapi_List rsvc)" "keeps (reportapi_Get rsvc)"
  "keeps (reportweb_List k rdr ac random rsvc)" "keeps (reportweb_Show k rdr ac random rsvc)"
  "keeps (reportweb_StatusFragment rdr rsvc)"
  by (intro keepsI; simp add: reportapi_Create_def reportapi_List_def reportapi_Get_def reportweb_List_def
      reportweb_Show_def reportweb_StatusFragment_def handler_headers_def case_prod_beta split: sum.split)+

lemma report_create_keeps: "keeps (reportweb_Create k rdr ac random rsvc now i env)"
  by (intro keepsI) (simp add: reportweb_Create_def keepsD [OF report_handlers_keep(4)] FlashInfo_def Let_def
      case_prod_beta split: sum.split)

lemma auth_handlers_keep:
  "keeps (authapi_Register bc asvc salt i now)" "keeps (authapi_Login bc asvc ac i now now')"
  "keeps (authapi_Logout asvc ac)" "keeps (authapi_CreateToken bc asvc i now now' rb i' l l')"
  "keeps (authweb_LoginForm k rdr ac random)" "keeps (authweb_Login bc k rdr asvc ac random i now now')"
  by (intro keepsI; simp add: authapi_Register_def authapi_Login_def authapi_Logout_def authapi_CreateToken_def
      authweb_LoginForm_def authweb_Login_def FlashSuccess_def FlashInfo_def Let_def case_prod_beta
      split: sum.split option.split)+

lemma ops_handlers_keep:
  "keeps healthz" "keeps health_legacy" "keeps (readyz ready checks)" "keeps (metrics_endpoint mc)" "keeps unmatched"
  "keeps (StaticDirectoryHandler srv)"
proof -
  have s: "kept e (ServeContent srv content e)" for srv content e
    by (simp add: kept_def)
  have k: "kept e (snd re)" if "static_outcome srv e re" for srv e re
  proof (cases "fst re")
    case None
    have "kept e (respond 301 NoBody (SetHeader ''Location'' uri e))" for uri by (simp add: handler_headers_def)
    with None that s [of e srv] show ?thesis by (auto simp: static_outcome_def simp del: kept_basic kept_SetHeader)
  qed (use that in \<open>simp add: static_outcome_def\<close>)
  show "keeps (StaticDirectoryHandler srv)"
    by (rule keepsI) (rule k [OF conjunct1 [OF static_handler_outcome]])
qed (intro keepsI; simp add: healthz_def health_legacy_def readyz_def metrics_endpoint_def unmatched_def
    handler_headers_def Let_def case_prod_beta split: option.split bool.split)+

lemmas handlers_keep = todo_handlers_keep todo_pages_keep report_handlers_keep report_create_keeps auth_handlers_keep
  ops_handlers_keep

text \<open>Hence whatever the router picks.\<close>

lemma map_of_keeps: "map_of xs key = Some h \<Longrightarrow> \<forall>x \<in> set xs. keeps (snd x) \<Longrightarrow> keeps h"
  by (drule map_of_SomeD) fastforce

lemma routes_keep:
  "static_routes p m r = Some h' \<Longrightarrow> keeps h'"
  "ops_routes cfg m r = Some h \<Longrightarrow> keeps h"
  "todo_routes p cfg w m r = Some h \<Longrightarrow> keeps h"
  "auth_routes p cfg w m r = Some h \<Longrightarrow> keeps h"
  "report_routes p cfg w m r = Some h \<Longrightarrow> keeps h"
  unfolding todo_routes_def auth_routes_def report_routes_def Let_def
  by (auto simp: static_routes_def ops_routes_def handlers_keep split: if_splits)
    (erule map_of_keeps, simp add: todoapi_Register_def todoweb_Register_def reportapi_Register_def
      reportweb_Register_def authapi_Register_routes_def authweb_Register_routes_def handlers_keep)+

lemma dispatch_keeps: "keeps (dispatch p cfg w)"
proof (rule keepsI)
  fix e s
  show "kept e (snd (fst (dispatch p cfg w e s)))"
    using ops_handlers_keep(5)
    by (auto simp: dispatch_def Let_def keeps_def split: option.split
        dest!: routes_keep [unfolded keeps_def])
qed

lemma chain_keeps: "keeps (chain p cfg w)"
  by (intro keepsI) (simp add: chain_def auth_Middleware_def CSRFMiddleware_def keepsD [OF dispatch_keeps] Let_def
      case_prod_beta)

lemma limited_chain_keeps: "keeps (if b then RateLimiter deny (chain p cfg w) else chain p cfg w)"
  by (intro keepsI) (simp add: RateLimiter_def keepsD [OF chain_keeps] split: option.split)

lemma ErrorHandler_keeps: "ec_headers (ErrorHandler st rdr err e) = ec_headers e"
  by (simp add: ErrorHandler_def render_defs JSON_def Let_def case_prod_beta split: option.split)

subsection \<open>Headers of every answer\<close>

lemma CORS_keeps:
  assumes "keeps next" and "k \<notin> cors_header_names" and "k \<notin> handler_headers"
  shows "map_of (ec_headers (snd (fst (CORS_Middleware config next e s)))) k = map_of (ec_headers e) k"
proof (cases "rq_Method (ec_req e) = ''OPTIONS''")
  case True
  then show ?thesis by (simp add: CORS_preflight_eq preflight_echo_other [OF assms(2)])
next
  case False
  then show ?thesis
    using assms(1,3) by (simp add: CORS_passes keeps_def kept_def cors_headers_other [OF assms(2)])
qed

text \<open>The inner handlers keep what the outer middlewares set.\<close>

lemma inner_keeps:
  assumes "k \<notin> cors_header_names" and "k \<notin> handler_headers"
  shows "map_of (ec_headers (snd (fst (inner p cfg limit w e d)))) k = map_of (ec_headers e) k"
  by (cases "limit < rq_ContentLength (ec_req e)")
    (simp_all add: inner_def BodyLimit_def CORS_keeps [OF limited_chain_keeps assms] split del: if_split)

lemma inner_traced:
  "ec_req (snd (fst (inner p cfg limit w e d))) = ec_req e \<and>
   RequestIDFromContext (Some (ec_ctx (snd (fst (inner p cfg limit w e d))))) = RequestIDFromContext (Some (ec_ctx e))"
proof -
  let ?next = "if rl_UseMemory (cfg_RateLimit cfg) then RateLimiter (pr_limiter p) (chain p cfg w) else chain p cfg w"
  let ?co = "cors_config (cfg_AllowedOrigins cfg)"
  have "kept (cors_headers ?co e) (snd (fst (?next (cors_headers ?co e) d)))"
    by (rule keepsD [OF limited_chain_keeps kept_refl])
  then show ?thesis
    by (cases "rq_Method (ec_req e) = ''OPTIONS''")
      (auto simp: inner_def BodyLimit_def CORS_preflight_eq CORS_passes kept_def)
qed

lemma answer_headers: "ec_headers (answer p err e) = ec_headers e"
  by (simp add: answer_def ErrorHandler_keeps split: option.split)

lemma ServeHTTP_inner:
  assumes "NewEcho (pr_bytes p) cfg = Some mws" and "ServeHTTP p cfg mws w req d = (out, e', d')"
  shows "\<exists>limit err e1. pr_bytes p (cfg_BodyLimit cfg) = Some limit \<and>
    inner p cfg limit w (logged_echo w req) d = ((err, e1), d') \<and>
    out = \<lparr>ob_log = request_log p cfg w req err e1, ob_metrics = request_samples p w req err e1\<rparr> \<and> e' = answer p err e1"
proof -
  obtain limit where l: "pr_bytes p (cfg_BodyLimit cfg) = Some limit" using NewEcho_limit [OF assms(1)] by blast
  obtain err e1 d1 where i: "inner p cfg limit w (logged_echo w req) d = ((err, e1), d1)" by (metis prod.exhaust)
  with ServeHTTP_eq [OF assms(1) l, of w req d] assms(2) l show ?thesis by auto
qed

lemma ServeHTTP_header:
  assumes "NewEcho (pr_bytes p) cfg = Some mws" and "ServeHTTP p cfg mws w req d = (out, e', d')"
    and "k \<notin> cors_header_names" and "k \<notin> handler_headers"
  shows "map_of (ec_headers e') k = map_of (ec_headers (logged_echo w req)) k"
proof -
  obtain limit err e1 where "inner p cfg limit w (logged_echo w req) d = ((err, e1), d')" "e' = answer p err e1"
    using ServeHTTP_inner [OF assms(1,2)] by blast
  with inner_keeps [OF assms(3,4), of p cfg limit w "logged_echo w req" d] show ?thesis by (simp add: answer_headers)
qed

lemma logged_echo_headers:
  "map_of (ec_headers (logged_echo w req)) ''X-Request-Id'' =
     Some (if rq_Header req ''X-Request-Id'' = '''' then dr_rid w else rq_Header req ''X-Request-Id'')"
  "map_of (ec_headers (logged_echo w req)) ''X-Content-Type-Options'' = Some ''nosniff''"
  "map_of (ec_headers (logged_echo w req)) ''X-Frame-Options'' = Some ''SAMEORIGIN''"
  "map_of (ec_headers (logged_echo w req)) ''X-XSS-Protection'' = Some ''1; mode=block''"
  "map_of (ec_headers (logged_echo w req)) ''Content-Security-Policy'' = Some (sc_ContentSecurityPolicy secure_config)"
  "map_of (ec_headers (logged_echo w req)) ''Strict-Transport-Security'' =
     (if rq_Header req ''X-Forwarded-Proto'' = ''https'' then Some (''max-age='' @ Itoa 3600 @ ''; includeSubdomains'') else None)"
  "map_of (ec_headers (logged_echo w req)) ''Access-Control-Allow-Origin'' = None"
  "map_of (ec_headers (logged_echo w req)) ''Access-Control-Allow-Credentials'' = None"
  by (simp_all add: logged_echo_def assign_request_id_def secure_headers_def WithContext_def new_echo_def
      secure_config_def Let_def)

subsection \<open>Cross-origin answers\<close>

lemma logged_echo_fresh: "cors_fresh (logged_echo w req)"
  by (simp add: cors_fresh_def logged_echo_headers)

lemma cors_answer_kept:
  "cors_answer config req hs \<Longrightarrow>
   map_of hs' ''Access-Control-Allow-Origin'' = map_of hs ''Access-Control-Allow-Origin'' \<Longrightarrow>
   map_of hs' ''Access-Control-Allow-Credentials'' = map_of hs ''Access-Control-Allow-Credentials'' \<Longrightarrow>
   cors_answer config req hs'"
  by (simp add: cors_answer_def)

lemma inner_cors:
  assumes "rq_ContentLength req \<le> limit"
  shows "cors_answer (cors_config (cfg_AllowedOrigins cfg)) req
    (ec_headers (snd (fst (inner p cfg limit w (logged_echo w req) d))))"
proof -
  let ?co = "cors_config (cfg_AllowedOrigins cfg)"
  let ?next = "if rl_UseMemory (cfg_RateLimit cfg) then RateLimiter (pr_limiter p) (chain p cfg w) else chain p cfg w"
  have i: "inner p cfg limit w (logged_echo w req) d = CORS_Middleware ?co ?next (logged_echo w req) d"
    using assms by (simp add: inner_def BodyLimit_def)
  show ?thesis
  proof (cases "rq_Method req = ''OPTIONS''")
    case True
    obtain err e' s' where "CORS_Middleware ?co ?next (logged_echo w req) d = ((err, e'), s')" by (metis prod.exhaust)
    with CORS_preflight [OF _ logged_echo_fresh this] True show ?thesis by (simp add: i)
  next
    case False
    have "kept (cors_headers ?co (logged_echo w req)) (snd (fst (?next (cors_headers ?co (logged_echo w req)) d)))"
      by (rule keepsD [OF limited_chain_keeps kept_refl])
    then show ?thesis
      using cors_headers_answer [OF logged_echo_fresh, of ?co w req] False
      by (simp only: i CORS_passes logged_echo_simps not_False_eq_True)
        (rule cors_answer_kept, assumption, simp_all add: kept_def handler_headers_def)
  qed
qed

lemma ServeHTTP_cors:
  assumes "NewEcho (pr_bytes p) cfg = Some mws" and "ServeHTTP p cfg mws w req d = (out, e', d')"
  shows "cors_answer (cors_config (cfg_AllowedOrigins cfg)) req (ec_headers e') \<or>
    map_of (ec_headers e') ''Access-Control-Allow-Origin'' = None \<and>
    map_of (ec_headers e') ''Access-Control-Allow-Credentials'' = None"
proof -
  obtain limit err e1 where i: "inner p cfg limit w (logged_echo w req) d = ((err, e1), d')" and e': "e' = answer p err e1"
    using ServeHTTP_inner [OF assms] by blast
  show ?thesis
  proof (cases "rq_ContentLength req \<le> limit")
    case True
    from inner_cors [OF this, of cfg p w d] i e' show ?thesis by (simp add: answer_headers)
  next
    case False
    with i e' show ?thesis by (auto simp: inner_def BodyLimit_def answer_headers logged_echo_headers)
  qed
qed

subsection \<open>The log of a request\<close>

lemma app_logging_level: "\<exists>lv. globalLogger (app_logging cfg) = Some lv"
  by (auto simp: app_logging_def Initialize_def split: option.split)

lemma app_logging_parse:
  "parse_level (cfg_LoggingLevel cfg) = Some lv \<Longrightarrow> globalLogger (app_logging cfg) = Some lv"
  by (simp add: app_logging_def Initialize_def)

text \<open>The lines one request writes: what its three log calls leave above the threshold.\<close>

definition traced :: "string \<Rightarrow> log_effect \<Rightarrow> bool" where
  "traced rid eff \<longleftrightarrow> eff = Filtered \<or> (\<exists>lv j. eff = Written lv j) \<and> member_text ''trace_id'' eff = Some rid"

lemma log_call_traced:
  assumes "lg_zap l = Some threshold" and "plain_metadata m" and "lg_traceID l = rid" and "rid \<noteq> ''''"
  shows "traced rid (log_call st l v level msg err m)"
    and "member_text ''message'' (log_call st l v level msg err m) = (if threshold \<le> level then Some msg else None)"
  using log_call_written [OF assms(1,2), of level st v msg err] assms(3,4)
  by (auto simp: traced_def split: if_splits)

text \<open>Every line of a request carries its id, and the messages are the expected ones.\<close>

lemma request_log_traced:
  assumes "RequestIDFromContext (Some (ec_ctx e1)) = request_id w req" and "eff \<in> set (request_log p cfg w req err e1)"
  shows "traced (request_id w req) eff"
proof -
  obtain lv where lv: "globalLogger (app_logging cfg) = Some lv" using app_logging_level by blast
  then show ?thesis
    using assms
    by (auto simp: request_log_def ErrorHandler_log_def log_Info_def log_Error_def WithContext_traced Let_def
        plain_metadata_def split: option.splits prod.splits intro!: log_call_traced(1))
qed

lemma request_log_messages:
  assumes "globalLogger (app_logging cfg) = Some lv"
  shows "List.map_filter (member_text ''message'') (request_log p cfg w req err e1) =
    (if lv \<le> InfoLevel then [''Incoming request''] else []) @
    (case err of None \<Rightarrow> if lv \<le> InfoLevel then [''Request completed''] else []
     | Some er \<Rightarrow> if lv \<le> ErrorLevel then [''Request failed'', ''Request error''] else [])"
  using assms
  by (simp add: request_log_def ErrorHandler_log_def log_Info_def log_Error_def Let_def logging_WithContext_def
      plain_metadata_def log_call_traced(2) [where threshold = lv and rid = x for x] case_prod_beta
      List.map_filter_simps split: option.split)

subsection \<open>Every request is answered\<close>

text \<open>
  A handler that starts with nothing written either writes a response with one of its
  statuses and reports no error, or reports an error and writes nothing, so that
  \<open>ErrorHandler\<close> can. Templates are assumed to execute.
\<close>

definition unwritten :: "echo \<Rightarrow> bool" where
  "unwritten e \<longleftrightarrow> \<not> ec_committed e \<and> ec_status e = 200"

definition handler_statuses :: "int set" where
  "handler_statuses = {200, 201, 202, 204, 206, 301, 303, 304, 401, 403, 412, 416, 422, 503}"

definition outcome_ok :: "goerr option \<times> echo \<Rightarrow> bool" where
  "outcome_ok re \<longleftrightarrow>
     (case fst re of
        None \<Rightarrow> ec_committed (snd re) \<and> ec_status (snd re) \<in> handler_statuses
      | Some _ \<Rightarrow> unwritten (snd re))"

definition settles :: "'s HandlerFunc \<Rightarrow> bool" where
  "settles h \<longleftrightarrow> (\<forall>e s. unwritten e \<longrightarrow> outcome_ok (fst (h e s)))"

lemma settlesI: "(\<And>e s. unwritten e \<Longrightarrow> outcome_ok (fst (h e s))) \<Longrightarrow> settles h"
  by (simp add: settles_def)

lemma settlesD: "settles h \<Longrightarrow> unwritten e \<Longrightarrow> outcome_ok (fst (h e s))"
  by (simp add: settles_def)

lemma outcome_Some [simp]: "outcome_ok (Some err, e) \<longleftrightarrow> unwritten e"
  by (simp add: outcome_ok_def)

lemma unwritten_basic [simp]:
  "unwritten (SetCookie ck e) \<longleftrightarrow> unwritten e" "unwritten (SetHeader k v e) \<longleftrightarrow> unwritten e"
  "unwritten (AddHeader k v e) \<longleftrightarrow> unwritten e"
  "unwritten (e\<lparr>ec_flash := fs\<rparr>) \<longleftrightarrow> unwritten e" "unwritten (WithContext c e) \<longleftrightarrow> unwritten e"
  by (simp_all add: unwritten_def WithContext_def)

lemma unwritten_frame [simp]:
  "unwritten (snd (PeekFlash k e)) \<longleftrightarrow> unwritten e" "unwritten (SetFlash k fs e) \<longleftrightarrow> unwritten e"
  "unwritten (clearFlash e) \<longleftrightarrow> unwritten e" "unwritten (snd (ConsumeFlash k e)) \<longleftrightarrow> unwritten e"
  "unwritten (snd (web_csrf ac random e)) \<longleftrightarrow> unwritten e" "unwritten (ensureCSRFCookie ac random e) \<longleftrightarrow> unwritten e"
proof -
  show peek: "unwritten (snd (PeekFlash k e)) \<longleftrightarrow> unwritten e" for k e
    by (simp add: PeekFlash_def split: option.split)
  show "unwritten (SetFlash k fs e) \<longleftrightarrow> unwritten e"
    using peek [of k e] by (simp add: SetFlash_def Let_def case_prod_beta split: option.split)
  show clear: "unwritten (clearFlash e) \<longleftrightarrow> unwritten e" for e by (simp add: clearFlash_def)
  show "unwritten (snd (ConsumeFlash k e)) \<longleftrightarrow> unwritten e"
    using peek [of k e] clear by (simp add: ConsumeFlash_def case_prod_beta)
qed (simp_all add: web_csrf_def ensureCSRFCookie_def Let_def split: option.split)

lemma unwritten_page [simp]:
  "unwritten (snd (web_shell k ac random title nav e)) \<longleftrightarrow> unwritten e"
  "unwritten (snd (todo_page k ac random items form errs e)) \<longleftrightarrow> unwritten e"
  by (simp_all add: web_shell_def todo_page_def case_prod_beta)

lemma outcome_written:
  "unwritten e \<Longrightarrow> st \<in> handler_statuses \<Longrightarrow> outcome_ok (JSON st p e)"
  "unwritten e \<Longrightarrow> st \<in> handler_statuses \<Longrightarrow> outcome_ok (NoContent st e)"
  "unwritten e \<Longrightarrow> outcome_ok (Redirect 303 url e)"
  by (simp_all add: outcome_ok_def unwritten_def JSON_def NoContent_def Redirect_def handler_statuses_def)

lemma outcome_rendered:
  assumes "rdr = (\<lambda>_ _. None)" and "unwritten e"
  shows "outcome_ok (RenderApp rdr page pd e)" "outcome_ok (RenderAuth rdr page pd e)"
    "outcome_ok (RenderFragment rdr page pd e)"
    "st \<in> handler_statuses \<Longrightarrow> outcome_ok (RenderAppStatus rdr st page pd e)"
    "st \<in> handler_statuses \<Longrightarrow> outcome_ok (RenderAuthStatus rdr st page pd e)"
    "st \<in> handler_statuses \<Longrightarrow> outcome_ok (RenderFragmentStatus rdr st page pd e)"
  using assms by (simp_all add: outcome_ok_def unwritten_def render_defs handler_statuses_def)

lemma status_members [simp]:
  "200 \<in> handler_statuses" "201 \<in> handler_statuses" "202 \<in> handler_statuses" "204 \<in> handler_statuses"
  "401 \<in> handler_statuses" "403 \<in> handler_statuses" "422 \<in> handler_statuses" "503 \<in> handler_statuses"
  by (simp_all add: handler_statuses_def)

lemma api_handlers_settle:
  "settles (todoapi_Create tsvc now i)" "settles (todoapi_List tsvc)" "settles (todoapi_Get tsvc)"
  "settles (todoapi_Update tsvc now)" "settles (todoapi_Delete tsvc)" "settles (todoapi_GetLegacy tsvc)"
  "settles (todoapi_UpdateLegacy tsvc now)" "settles (todoapi_DeleteLegacy tsvc)"
  "settles (reportapi_Create rsvc now i env)" "settles (reportapi_List rsvc)" "settles (reportapi_Get rsvc)"
  "settles (authapi_Register bc asvc salt i now)" "settles (authapi_Login bc asvc ac i now now')"
  "settles (authapi_Logout asvc ac)" "settles (authapi_CreateToken bc asvc i now now' rb i' l l')"
  by (intro settlesI; simp add: todoapi_defs todoapi_Create_def todoapi_List_def reportapi_Create_def reportapi_List_def
      reportapi_Get_def authapi_Register_def authapi_Login_def authapi_Logout_def authapi_CreateToken_def
      outcome_written Let_def case_prod_beta split: sum.split option.split)+

lemma page_handlers_settle:
  assumes rdr: "rdr = (\<lambda>_ _. None)"
  shows "settles (todoweb_List k rdr ac random tsvc)" "settles (reportweb_List k rdr ac random rsvc)"
    "settles (reportweb_Show k rdr ac random rsvc)" "settles (reportweb_StatusFragment rdr rsvc)"
    "settles (authweb_LoginForm k rdr ac random)" "settles (authweb_Login bc k rdr asvc ac random i now now')"
  by (intro settlesI; simp add: todoweb_List_def reportweb_List_def reportweb_Show_def reportweb_StatusFragment_def
      authweb_LoginForm_def authweb_Login_def FlashSuccess_def outcome_written outcome_rendered [OF rdr] Let_def
      case_prod_beta split: sum.split option.split)+

lemma form_handlers_settle:
  assumes rdr: "rdr = (\<lambda>_ _. None)"
  shows "settles (todoweb_Create k rdr ac random tsvc now i)" "settles (todoweb_Delete k rdr ac random tsvc)"
    "settles (reportweb_Create k rdr ac random rsvc now i env)"
  by (intro settlesI; simp add: todoweb_Create_def todoweb_Delete_def reportweb_Create_def FlashSuccess_def FlashInfo_def
      settlesD [OF page_handlers_settle(1) [OF rdr]] settlesD [OF page_handlers_settle(2) [OF rdr]]
      outcome_written outcome_rendered [OF rdr] Let_def case_prod_beta split: sum.split option.split)+

lemma ops_handlers_settle:
  "settles healthz" "settles health_legacy" "settles (readyz ready checks)" "settles (metrics_endpoint mc)"
  "settles unmatched" "settles (StaticDirectoryHandler srv)"
proof -
  have s: "outcome_ok (None, ServeContent srv content e)" if "unwritten e" for srv content e
    using that file_answer_status [of content "fl_decide srv (ec_req e) content"]
    by (auto simp: outcome_ok_def unwritten_def ServeContent_def handler_statuses_def case_prod_beta)
  have r: "outcome_ok (None, respond 301 NoBody (SetHeader k v e))" if "unwritten e" for k v e
    using that by (simp add: outcome_ok_def unwritten_def handler_statuses_def)
  have k: "outcome_ok re" if "static_outcome srv e re" "unwritten e" for srv e re
  proof (cases re)
    case (Pair err e1)
    with that s [OF that(2)] r [OF that(2)] show ?thesis
      by (cases err) (auto simp: static_outcome_def simp del: unwritten_basic)
  qed
  show "settles (StaticDirectoryHandler srv)"
    by (rule settlesI) (rule k [OF conjunct1 [OF static_handler_outcome]])
next
  have "outcome_ok (None, respond 200 MetricsBody e)" if "unwritten e" for e
    using that by (simp add: outcome_ok_def unwritten_def)
  then show "settles (metrics_endpoint mc)"
    by (intro settlesI) (simp add: metrics_endpoint_def outcome_written split: option.split prod.split)
qed (intro settlesI; simp add: healthz_def health_legacy_def readyz_def unmatched_def outcome_written Let_def case_prod_beta
    split: option.split bool.split)+

lemmas handlers_settle = api_handlers_settle page_handlers_settle form_handlers_settle ops_handlers_settle

lemma map_of_settles: "map_of xs key = Some h \<Longrightarrow> \<forall>x \<in> set xs. settles (snd x) \<Longrightarrow> settles h"
  by (drule map_of_SomeD) fastforce

lemma routes_settle:
  assumes rdr: "pr_rdr p = (\<lambda>_ _. None)"
  shows "static_routes p m r = Some h' \<Longrightarrow> settles h'"
    "ops_routes cfg m r = Some h \<Longrightarrow> settles h"
    "todo_routes p cfg w m r = Some h \<Longrightarrow> settles h"
    "auth_routes p cfg w m r = Some h \<Longrightarrow> settles h"
    "report_routes p cfg w m r = Some h \<Longrightarrow> settles h"
  unfolding todo_routes_def auth_routes_def report_routes_def Let_def
  by (auto simp: static_routes_def ops_routes_def handlers_settle split: if_splits)
    (erule map_of_settles, simp add: todoapi_Register_def todoweb_Register_def reportapi_Register_def
      reportweb_Register_def authapi_Register_routes_def authweb_Register_routes_def handlers_settle rdr)+

lemma dispatch_settles:
  assumes "pr_rdr p = (\<lambda>_ _. None)"
  shows "settles (dispatch p cfg w)"
proof (rule settlesI)
  fix e s assume "unwritten e"
  then show "outcome_ok (fst (dispatch p cfg w e s))"
    using ops_handlers_settle(5)
    by (auto simp: dispatch_def Let_def settles_def split: option.split
        dest!: routes_settle [OF assms, unfolded settles_def])
qed

lemma chain_settles: "pr_rdr p = (\<lambda>_ _. None) \<Longrightarrow> settles (chain p cfg w)"
  by (intro settlesI) (simp add: chain_def auth_Middleware_def CSRFMiddleware_def settlesD [OF dispatch_settles]
      outcome_written Let_def case_prod_beta)

lemma unwritten_cors [simp]: "unwritten (cors_headers config e) \<longleftrightarrow> unwritten e"
  by (simp add: unwritten_def)

lemma inner_settles:
  assumes "pr_rdr p = (\<lambda>_ _. None)"
  shows "settles (inner p cfg limit w)"
proof (rule settlesI)
  fix e d assume e: "unwritten e"
  then have pre: "outcome_ok (None, respond 204 NoBody (preflight_echo config e))" for config
    by (simp add: outcome_ok_def unwritten_def)
  from e show "outcome_ok (fst (inner p cfg limit w e d))"
    by (cases "rq_Method (ec_req e) = ''OPTIONS''")
      (simp_all add: inner_def BodyLimit_def CORS_preflight_eq CORS_passes RateLimiter_def pre
        settlesD [OF chain_settles [OF assms]] split: option.split)
qed

lemma ErrorHandler_answers:
  assumes "unwritten e" and "pr_rdr p = (\<lambda>_ _. None)"
  shows "ec_committed (answer p (Some err) e) \<and>
    ec_status (answer p (Some err) e) = fst (classify (pr_statusText p) err)"
  using assms by (simp add: answer_def ErrorHandler_def unwritten_def JSON_def render_defs Let_def case_prod_beta)

lemma classify_status:
  assumes "\<And>c m i. err \<noteq> HTTPError c m i \<or> c \<in> S"
  shows "fst (classify st err) \<in> {400, 401, 403, 404, 409, 422, 500} \<union> S"
  using assms
  by (auto simp: classify_def MapError_def Let_def split: option.splits goerr.splits if_splits)

text \<open>A path that matches no route.\<close>

lemma dispatch_unmatched:
  assumes "rq_Route (ec_req e) = ''''"
  shows "dispatch p cfg w e d = unmatched e d"
proof -
  have k: "(m, '''') \<notin> todo_keys" "(m, '''') \<notin> report_keys" "(m, '''') \<notin> other_keys" for m
    by (simp_all add: todo_keys_def report_keys_def other_keys_def)
  have "todo_routes p cfg w m '''' = None" "report_routes p cfg w m '''' = None" "auth_routes p cfg w m '''' = None"
    "ops_routes cfg m '''' = None" for m
    using todo_routes_key report_routes_key auth_routes_key ops_routes_key k by (meson not_None_eq)+
  with assms show ?thesis by (simp add: dispatch_def static_routes_def Let_def)
qed

subsection \<open>Static files\<close>

lemma entry_echo_Location: "map_of (ec_headers (entry_echo cfg w req)) ''Location'' = None"
proof -
  have "map_of (ec_headers (logged_echo w req)) ''Location'' = None"
    by (simp add: logged_echo_def secure_headers_def assign_request_id_def secure_config_def WithContext_def new_echo_def Let_def)
  then show ?thesis by (simp add: entry_echo_def cors_headers_other cors_header_names_def)
qed

lemma ErrorHandler_no_file: "ec_body e = NoBody \<Longrightarrow> ec_body (ErrorHandler st rdr err e) \<noteq> FileBody b"
  by (simp add: ErrorHandler_def respond_def JSON_def render_defs Let_def case_prod_beta split: option.split)

lemma dispatch_static:
  assumes "rq_Method (ec_req e) = ''GET''" and "rq_Route (ec_req e) = ''/static*''"
  shows "dispatch p cfg w e d = StaticDirectoryHandler (pr_static p) e d"
  using assms by (simp add: dispatch_def static_routes_def Let_def)

text \<open>A request for a static file reaches its handler with nothing written.\<close>

lemma ServeHTTP_static:
  assumes "NewEcho (pr_bytes p) cfg = Some mws" and "admitted p cfg req"
    and "rq_Method req = ''GET''" and "rq_Route req = ''/static*''" and "\<not> HasPrefix (rq_URLPath req) ''/app''"
    and "ServeHTTP p cfg mws w req d = (out, e', d')"
  shows "\<exists>e0 re. ec_req e0 = req \<and> unwritten e0 \<and> ec_body e0 = NoBody \<and>
    map_of (ec_headers e0) ''Location'' = None \<and>
    re = fst (StaticDirectoryHandler (pr_static p) e0 d') \<and> static_outcome (pr_static p) e0 re \<and>
    e' = answer p (fst re) (snd re)"
proof -
  let ?e = "entry_echo cfg w req"
  from chain_outside_app [of ?e p cfg w d] assms(5) obtain c d1
    where ch: "chain p cfg w ?e d = dispatch p cfg w (WithContext c ?e) d1" by auto
  let ?f = "WithContext c ?e"
  let ?h = "StaticDirectoryHandler (pr_static p) ?f"
  have e0: "ec_req ?f = req" "unwritten ?f" "ec_body ?f = NoBody" "map_of (ec_headers ?f) ''Location'' = None"
    using entry_echo_Location [of cfg w req] by (simp_all add: WithContext_def unwritten_def)
  have h: "static_outcome (pr_static p) ?f (fst (?h d1)) \<and> snd (?h d1) = d1" by (rule static_handler_outcome)
  have same: "fst (?h d1) = fst (?h d2)" for d2
    by (simp add: StaticDirectoryHandler_def Let_def split: sum.split option.split)
  have "chain p cfg w ?e d = ?h d1" using ch dispatch_static [of ?f] e0(1) assms(3,4) by simp
  also have "\<dots> = ((fst (fst (?h d1)), snd (fst (?h d1))), d1)" using h by (metis prod.collapse)
  finally have "e' = answer p (fst (fst (?h d1))) (snd (fst (?h d1)))"
    using ServeHTTP_admitted [OF assms(1,2)] assms(6) by fastforce
  with e0 h same [of d'] show ?thesis by metis
qed

end
