(* ===== verification/Reports_Lifecycle.thy ===== *)
theory Reports_Lifecycle
  imports App
begin

text \<open>
  The report lifecycle under concurrent workers. Every store call of \<open>Generate\<close> is one SQL
  statement, so workers interleave between calls: the step relation \<open>gstep\<close> moves one
  worker by one call, on the shared table of reports, for every way a statement can end
  (served, refused, or executed with its reply lost). \<open>gen_run\<close> shows that each run of the
  code's \<open>Generate\<close> is such a sequence of steps, so what the relation keeps, the code
  keeps. The invariants are by rule induction over the reachable states.
\<close>

subsection \<open>Well-formed reports\<close>

definition report_wf :: "Report \<Rightarrow> bool" where
  "report_wf r \<longleftrightarrow>
     (rp_Status r = StatusPending \<and> rp_ProcessingStartedAt r = None \<and> rp_CompletedAt r = None \<and>
        rp_Result r = '''' \<and> rp_FailureCode r = '''' \<and> rp_FailureReason r = '''') \<or>
     (rp_Status r = StatusProcessing \<and> rp_ProcessingStartedAt r \<noteq> None \<and> rp_StartedAt r \<noteq> None \<and>
        rp_CompletedAt r = None \<and> rp_Result r = '''' \<and> rp_FailureCode r = '''' \<and> rp_FailureReason r = '''') \<or>
     (rp_Status r = StatusCompleted \<and> rp_ProcessingStartedAt r = None \<and> rp_StartedAt r \<noteq> None \<and>
        rp_CompletedAt r \<noteq> None \<and> rp_Result r \<noteq> '''' \<and> rp_FailureCode r = '''' \<and> rp_FailureReason r = '''') \<or>
     (rp_Status r = StatusFailed \<and> rp_ProcessingStartedAt r = None \<and> rp_StartedAt r \<noteq> None \<and>
        rp_CompletedAt r \<noteq> None \<and> rp_Result r = '''' \<and> rp_FailureCode r \<noteq> '''' \<and> rp_FailureReason r \<noteq> '''')"

definition terminal :: "Report \<Rightarrow> bool" where
  "terminal r \<longleftrightarrow> rp_Status r = StatusCompleted \<or> rp_Status r = StatusFailed"

lemma wf_new: "report_wf (new_report i p req now)"
  by (simp add: report_wf_def new_report_def)

lemma wf_claimed: "report_wf r \<Longrightarrow> claimable stale r \<Longrightarrow> report_wf (claimed now r)"
  by (auto simp: report_wf_def claimed_def claimable_def)

lemma wf_settled:
  assumes "report_wf r" and "processing r"
  shows "report_wf (retried at r)" and "res \<noteq> '''' \<Longrightarrow> report_wf (completed res at r)"
    and "code \<noteq> '''' \<Longrightarrow> reason \<noteq> '''' \<Longrightarrow> report_wf (failed code reason at r)"
  using assms by (auto simp: report_wf_def processing_def edge_defs)

lemma result_text_not_Nil [simp]: "result_text sm \<noteq> []"
  by (simp add: result_text_def)

subsection \<open>Workers\<close>

text \<open>
  Where a worker is in \<open>Generate\<close>: before the first read, before the claim, after the
  claim (with its time) and with the decision of the final write made, or out.
\<close>

datatype decision = DRetry | DComplete string | DFail string

datatype pc =
    Out
  | Fetch uuid
  | Claim uuid string
  | Work uuid string time
  | Settle uuid time decision

fun settled :: "decision \<Rightarrow> time \<Rightarrow> Report \<Rightarrow> Report" where
  "settled DRetry at r = retried at r"
| "settled (DComplete res) at r = completed res at r"
| "settled (DFail code) at r = failed code (SafeFailureMessage code '''') at r"

type_synonym table = "uuid \<Rightarrow> Report option"

inductive gstep :: "duration \<Rightarrow> time \<Rightarrow> table \<times> pc \<Rightarrow> table \<times> pc \<Rightarrow> bool" for lease :: duration where
  deliver: "gstep lease now (T, Out) (T, Fetch i)"
| fetch: "T i = Some r \<Longrightarrow> rp_Status r = StatusPending \<or> rp_Status r = StatusProcessing \<Longrightarrow>
    gstep lease now (T, Fetch i) (T, Claim i (rp_Type r))"
| fetch_stop: "gstep lease now (T, Fetch i) (T, Out)"
| claim: "T i = Some r \<Longrightarrow> claimable (now - lease) r \<Longrightarrow>
    gstep lease now (T, Claim i ty) (T(i \<mapsto> claimed now r), Work i ty now)"
| claim_unacked: "T i = Some r \<Longrightarrow> claimable (now - lease) r \<Longrightarrow>
    gstep lease now (T, Claim i ty) (T(i \<mapsto> claimed now r), Out)"
| claim_stop: "gstep lease now (T, Claim i ty) (T, Out)"
| unsupported: "\<not> supportedType ty \<Longrightarrow>
    gstep lease now (T, Work i ty tc) (T, Settle i tc (DFail FailureUnsupportedType))"
| summarised: "supportedType ty \<Longrightarrow>
    gstep lease now (T, Work i ty tc) (T, Settle i tc (DComplete (result_text sm)))"
| retry: "supportedType ty \<Longrightarrow> gstep lease now (T, Work i ty tc) (T, Settle i tc DRetry)"
| exhausted: "supportedType ty \<Longrightarrow>
    gstep lease now (T, Work i ty tc) (T, Settle i tc (DFail FailureRetryExhausted))"
| settle: "T i = Some r \<Longrightarrow> processing r \<Longrightarrow>
    gstep lease now (T, Settle i tc dec) (T(i \<mapsto> settled dec now r), Out)"
| settle_stop: "gstep lease now (T, Settle i tc dec) (T, Out)"
| crash: "gstep lease now (T, p) (T, Out)"

inductive_cases gstepE: "gstep lease now (T, p) (T', p')"

text \<open>The decisions \<open>Generate\<close> makes are writable.\<close>

definition pc_ok :: "pc \<Rightarrow> bool" where
  "pc_ok p \<longleftrightarrow> (case p of
     Settle i tc (DComplete res) \<Rightarrow> res \<noteq> ''''
   | Settle i tc (DFail code) \<Rightarrow> code \<noteq> ''''
   | _ \<Rightarrow> True)"

lemma gstep_pc_ok: "gstep lease now (T, p) (T', p') \<Longrightarrow> pc_ok p'"
  by (erule gstepE) (auto simp: pc_ok_def failure_defs)

text \<open>One step on the table: nothing, or one report along an edge of the lifecycle.\<close>

lemma gstep_table:
  assumes "gstep lease now (T, p) (T', p')"
  shows "T' = T \<or> (\<exists>i r. T i = Some r \<and> claimable (now - lease) r \<and> T' = T(i \<mapsto> claimed now r)) \<or>
    (\<exists>i r tc dec. p = Settle i tc dec \<and> T i = Some r \<and> processing r \<and> T' = T(i \<mapsto> settled dec now r))"
  using assms by (elim gstepE) auto

lemma settled_sel [simp]:
  "rp_ReportID (settled dec at r) = rp_ReportID r" "rp_OwnerUserID (settled dec at r) = rp_OwnerUserID r"
  "rp_Type (settled dec at r) = rp_Type r" "rp_CreatedAt (settled dec at r) = rp_CreatedAt r"
  "\<not> processing (settled dec at r)"
  by (cases dec; simp add: edge_defs processing_def)+

lemma claimed_sel [simp]:
  "rp_CreatedAt (claimed now r) = rp_CreatedAt r" "rp_ProcessingStartedAt (claimed now r) = Some now"
  by (simp_all add: claimed_def)

lemma wf_settled_dec:
  "report_wf r \<Longrightarrow> processing r \<Longrightarrow> pc_ok (Settle i tc dec) \<Longrightarrow> report_wf (settled dec at r)"
  by (cases dec) (auto simp: pc_ok_def wf_settled)

subsection \<open>The system\<close>

text \<open>
  Any number of workers over one table, with the clock all of them read; new reports may
  appear at any time, and time may pass.
\<close>

record sys =
  sy_table :: table
  sy_worker :: "nat \<Rightarrow> pc"
  sy_clock :: time

inductive sys_step :: "duration \<Rightarrow> sys \<Rightarrow> sys \<Rightarrow> bool" for lease :: duration where
  work: "gstep lease now (sy_table s, sy_worker s n) (T', p') \<Longrightarrow> sy_clock s \<le> now \<Longrightarrow>
    sys_step lease s (s\<lparr>sy_table := T', sy_worker := (sy_worker s)(n := p'), sy_clock := now\<rparr>)"
| create: "sy_table s i = None \<Longrightarrow> sy_clock s \<le> now \<Longrightarrow>
    sys_step lease s (s\<lparr>sy_table := (sy_table s)(i \<mapsto> new_report i p req now), sy_clock := now\<rparr>)"
| tick: "sy_clock s \<le> now \<Longrightarrow> sys_step lease s (s\<lparr>sy_clock := now\<rparr>)"

abbreviation sys_steps :: "duration \<Rightarrow> sys \<Rightarrow> sys \<Rightarrow> bool" where
  "sys_steps lease \<equiv> (sys_step lease)\<^sup>*\<^sup>*"

definition table_ok :: "table \<Rightarrow> bool" where
  "table_ok T \<longleftrightarrow> (\<forall>i r. T i = Some r \<longrightarrow> report_wf r \<and> rp_ReportID r = i)"

definition sys_ok :: "sys \<Rightarrow> bool" where
  "sys_ok s \<longleftrightarrow> table_ok (sy_table s) \<and> (\<forall>n. pc_ok (sy_worker s n))"

lemma table_ok_update: "table_ok T \<Longrightarrow> report_wf r \<Longrightarrow> rp_ReportID r = i \<Longrightarrow> table_ok (T(i \<mapsto> r))"
  by (simp add: table_ok_def)

lemma gstep_table_ok:
  assumes "gstep lease now (T, p) (T', p')" and ok: "table_ok T" and "pc_ok p"
  shows "table_ok T'"
proof -
  have wf: "report_wf r" "rp_ReportID r = i" if "T i = Some r" for i r
    using ok that by (simp_all add: table_ok_def)
  from gstep_table [OF assms(1)] show ?thesis
  proof (elim disjE exE conjE)
    fix i r assume r: "T i = Some r" and "claimable (now - lease) r" and "T' = T(i \<mapsto> claimed now r)"
    then show ?thesis using table_ok_update [OF ok wf_claimed [OF wf(1) [OF r]], of "now - lease" now i] wf(2) [OF r]
      by simp
  next
    fix i r tc dec
    assume r: "T i = Some r" and "p = Settle i tc dec" "processing r" "T' = T(i \<mapsto> settled dec now r)"
    then show ?thesis
      using table_ok_update [OF ok wf_settled_dec [OF wf(1) [OF r]], of i tc dec now i] wf(2) [OF r] assms(3)
      by simp
  qed (simp add: ok)
qed

lemma sys_step_ok:
  assumes "sys_step lease s s'" and "sys_ok s"
  shows "sys_ok s'"
  using assms(1)
proof cases
  case (work now n T' p')
  have "pc_ok p'" using gstep_pc_ok [OF work(2)] .
  moreover have "table_ok T'" using gstep_table_ok [OF work(2)] assms(2) by (simp add: sys_ok_def)
  ultimately show ?thesis using assms(2) work(1) by (auto simp: sys_ok_def)
next
  case (create i now p req)
  have "rp_ReportID (new_report i p req now) = i" by (simp add: new_report_def)
  then have "table_ok ((sy_table s)(i \<mapsto> new_report i p req now))"
    using assms(2) by (intro table_ok_update wf_new) (simp_all add: sys_ok_def)
  with assms(2) create(1) show ?thesis by (simp add: sys_ok_def)
next
  case (tick now)
  with assms(2) show ?thesis by (simp add: sys_ok_def)
qed

lemma sys_steps_ok: "sys_steps lease s s' \<Longrightarrow> sys_ok s \<Longrightarrow> sys_ok s'"
  by (induction rule: rtranclp_induct) (auto dest: sys_step_ok)

text \<open>A report that reached an end stays as it is; every report keeps its identity.\<close>

definition advances :: "Report \<Rightarrow> Report \<Rightarrow> bool" where
  "advances r r' \<longleftrightarrow>
     rp_OwnerUserID r' = rp_OwnerUserID r \<and> rp_Type r' = rp_Type r \<and> rp_CreatedAt r' = rp_CreatedAt r \<and>
     (terminal r \<longrightarrow> r' = r)"

definition keeps :: "table \<Rightarrow> table \<Rightarrow> bool" where
  "keeps T T' \<longleftrightarrow> (\<forall>i r. T i = Some r \<longrightarrow> (\<exists>r'. T' i = Some r' \<and> advances r r'))"

lemma advances_refl [simp]: "advances r r"
  by (simp add: advances_def)

lemma advances_trans: "advances r r' \<Longrightarrow> advances r' r'' \<Longrightarrow> advances r r''"
  by (auto simp: advances_def)

lemma terminal_no_edge [simp]:
  "terminal r \<Longrightarrow> \<not> claimable stale r" "terminal r \<Longrightarrow> \<not> processing r"
  by (auto simp: terminal_def claimable_def processing_def)

lemma keeps_refl [simp]: "keeps T T"
  by (simp add: keeps_def)

lemma keeps_trans: "keeps T T' \<Longrightarrow> keeps T' T'' \<Longrightarrow> keeps T T''"
  unfolding keeps_def by (blast intro: advances_trans)

lemma keeps_update:
  "T i = Some r \<Longrightarrow> \<not> terminal r \<Longrightarrow> rp_OwnerUserID r' = rp_OwnerUserID r \<Longrightarrow>
   rp_Type r' = rp_Type r \<Longrightarrow> rp_CreatedAt r' = rp_CreatedAt r \<Longrightarrow> keeps T (T(i \<mapsto> r'))"
  by (auto simp: keeps_def advances_def)

lemma gstep_keeps:
  assumes "gstep lease now (T, p) (T', p')"
  shows "keeps T T'"
  using gstep_table [OF assms] by (auto intro!: keeps_update)

lemma sys_step_keeps:
  assumes "sys_step lease s s'"
  shows "keeps (sy_table s) (sy_table s')"
  using assms
proof cases
  case (work now n T' p')
  then show ?thesis using gstep_keeps [OF work(2)] by simp
next
  case (create i now p req)
  then show ?thesis by (auto simp: keeps_def)
qed simp

lemma sys_steps_keeps: "sys_steps lease s s' \<Longrightarrow> keeps (sy_table s) (sy_table s')"
  by (induction rule: rtranclp_induct) (auto intro: keeps_trans sys_step_keeps)

subsection \<open>The code's runs are runs of the relation\<close>

abbreviation gsteps :: "duration \<Rightarrow> table \<times> pc \<Rightarrow> table \<times> pc \<Rightarrow> bool" where
  "gsteps lease \<equiv> (\<lambda>x y. \<exists>now. gstep lease now x y)\<^sup>*\<^sup>*"

lemma gsteps_claim:
  assumes "T i = Some r0" and "claimable (now - lease) r0"
  shows "gsteps lease (T, Fetch i) (T(i \<mapsto> claimed now r0), Work i (rp_Type r0) now)"
    and "gsteps lease (T, Fetch i) (T(i \<mapsto> claimed now r0), Out)"
proof -
  have f: "gstep lease now (T, Fetch i) (T, Claim i (rp_Type r0))"
    by (rule gstep.fetch [where T = T and i = i, OF assms(1) claimable_status [OF assms(2)]])
  show "gsteps lease (T, Fetch i) (T(i \<mapsto> claimed now r0), Work i (rp_Type r0) now)"
    and "gsteps lease (T, Fetch i) (T(i \<mapsto> claimed now r0), Out)"
    using f gstep.claim [of T i r0 now lease "rp_Type r0"] gstep.claim_unacked [of T i r0 now lease "rp_Type r0"] assms
    by (blast intro: rtranclp.intros converse_rtranclp_into_rtranclp)+
qed

lemma gsteps_settle:
  assumes "gstep lease t (T(i \<mapsto> claimed now r0), Work i ty tc) (T(i \<mapsto> claimed now r0), Settle i tc dec)"
  shows "gsteps lease (T(i \<mapsto> claimed now r0), Work i ty tc) (T(i \<mapsto> settled dec now' (claimed now r0)), Out)"
proof -
  have "gstep lease now' (T(i \<mapsto> claimed now r0), Settle i tc dec) (T(i \<mapsto> settled dec now' (claimed now r0)), Out)"
    using gstep.settle [of "T(i \<mapsto> claimed now r0)" i "claimed now r0" lease now' tc dec] by simp
  with assms show ?thesis by (blast intro: rtranclp.intros converse_rtranclp_into_rtranclp)
qed

lemma gen_outcome_gsteps:
  assumes "T i = Some r0" and "claimable (now - lease) r0" and "gen_outcome now now' r0 r'"
  shows "gsteps lease (T, Fetch i) (T(i \<mapsto> r'), Out)"
proof -
  note claim = gsteps_claim [where T = T and i = i, OF assms(1,2)]
  let ?ty = "rp_Type r0"
  have dec: "gsteps lease (T, Fetch i) (T(i \<mapsto> settled dec now' (claimed now r0)), Out)"
    if "gstep lease now (T(i \<mapsto> claimed now r0), Work i ?ty now) (T(i \<mapsto> claimed now r0), Settle i now dec)" for dec
    using claim(1) gsteps_settle [OF that, of now'] by (rule rtranclp_trans)
  from assms(3) show ?thesis
    using claim(2) dec [of "DFail FailureUnsupportedType"] dec [of "DFail FailureRetryExhausted"]
      dec [of DRetry] dec [of "DComplete (result_text _)"]
      gstep.unsupported [of ?ty lease now _ i now] gstep.exhausted [of ?ty lease now _ i now]
      gstep.retry [of ?ty lease now _ i now] gstep.summarised [of ?ty lease now _ i now]
    by (auto simp: gen_outcome_def split: if_splits)
qed

text \<open>\<open>Generate\<close> of the service on Postgres, whatever happens to its statements.\<close>

lemma gen_run:
  assumes "pg_reports_ok d" and "Generate (app_reports cfg) c i now now' d = (e, d')"
  shows "gsteps (rsv_processingLease (app_reports cfg)) (pg_reports_view d, Fetch i) (pg_reports_view d', Out)"
proof -
  from app_reports.generate_effect [OF assms] show ?thesis
  proof (elim conjE disjE exE)
    assume "pg_reports_view d' = pg_reports_view d"
    then show ?thesis using gstep.fetch_stop by (metis r_into_rtranclp)
  next
    fix r0 r' assume "pg_reports_view d i = Some r0"
      and "claimable (now - rsv_processingLease (app_reports cfg)) r0" and "gen_outcome now now' r0 r'"
      and "pg_reports_view d' = (pg_reports_view d)(i \<mapsto> r')"
    then show ?thesis using gen_outcome_gsteps by simp
  qed
qed

lemma gsteps_table_ok:
  assumes "gsteps lease (T, p) (T', p')" and "table_ok T" and "pc_ok p"
  shows "table_ok T' \<and> pc_ok p' \<and> keeps T T'"
  using assms
proof (induction "(T', p')" arbitrary: T' p' rule: rtranclp_induct)
  case (step y)
  obtain T1 p1 where y: "y = (T1, p1)" by force
  with step obtain now where g: "gstep lease now (T1, p1) (T', p')" by auto
  from step y have "table_ok T1" "pc_ok p1" "keeps T T1" by auto
  with gstep_table_ok [OF g] gstep_pc_ok [OF g] gstep_keeps [OF g] show ?case by (blast intro: keeps_trans)
qed simp

subsection \<open>Leases exclude each other\<close>

text \<open>
  A worker holds report \<open>i\<close> from its claim at \<open>tc\<close> until its final write. \<open>timely\<close> says
  that final writes come before the lease ends: a worker that is later than that is gone.
\<close>

fun holds :: "pc \<Rightarrow> uuid \<Rightarrow> time \<Rightarrow> bool" where
  "holds (Work j ty tc) i t \<longleftrightarrow> j = i \<and> tc = t"
| "holds (Settle j tc dec) i t \<longleftrightarrow> j = i \<and> tc = t"
| "holds _ i t \<longleftrightarrow> False"

definition live :: "duration \<Rightarrow> sys \<Rightarrow> nat \<Rightarrow> uuid \<Rightarrow> time \<Rightarrow> bool" where
  "live lease s n i t \<longleftrightarrow> holds (sy_worker s n) i t \<and> sy_clock s \<le> t + lease"

inductive timely_step :: "duration \<Rightarrow> sys \<Rightarrow> sys \<Rightarrow> bool" for lease :: duration where
  step: "sys_step lease s s' \<Longrightarrow>
    (\<And>n i tc dec. sy_worker s n = Settle i tc dec \<Longrightarrow> sy_worker s' n = Out \<Longrightarrow>
       sy_table s' \<noteq> sy_table s \<Longrightarrow> sy_clock s' \<le> tc + lease) \<Longrightarrow>
    timely_step lease s s'"

text \<open>The invariant: a live holder's claim is what the table shows, and it is the only one.\<close>

definition leased :: "duration \<Rightarrow> sys \<Rightarrow> bool" where
  "leased lease s \<longleftrightarrow>
     (\<forall>n i t. live lease s n i t \<longrightarrow>
        (\<exists>r. sy_table s i = Some r \<and> processing r \<and> rp_ProcessingStartedAt r = Some t)) \<and>
     (\<forall>n m i t u. live lease s n i t \<longrightarrow> live lease s m i u \<longrightarrow> n = m)"

lemma not_claimable_leased:
  "processing r \<Longrightarrow> rp_ProcessingStartedAt r = Some t \<Longrightarrow> now \<le> t + lease \<Longrightarrow> \<not> claimable (now - lease) r"
  by (simp add: claimable_def processing_def)

lemma leasedD:
  assumes "leased lease s" and "live lease s n i t"
  shows "\<exists>r. sy_table s i = Some r \<and> processing r \<and> rp_ProcessingStartedAt r = Some t"
    and "live lease s m i u \<Longrightarrow> m = n"
  using assms unfolding leased_def by blast+

text \<open>Who is live after a step was live before it, or has just claimed.\<close>

lemma live_before:
  assumes g: "gstep lease now (sy_table s, sy_worker s n) (T', p')" and c: "sy_clock s \<le> now"
    and l: "live lease (s\<lparr>sy_table := T', sy_worker := (sy_worker s)(n := p'), sy_clock := now\<rparr>) m i t"
  shows "live lease s m i t \<or>
    (m = n \<and> t = now \<and> (\<exists>r. sy_table s i = Some r \<and> claimable (now - lease) r \<and>
       T' = (sy_table s)(i \<mapsto> claimed now r)))"
proof (cases "m = n")
  case False
  with l c show ?thesis by (auto simp: live_def)
next
  case True
  with l have "holds p' i t" "now \<le> t + lease" by (simp_all add: live_def)
  with g c True show ?thesis by (elim gstepE) (auto simp: live_def)
qed

text \<open>A table entry under a live claim is changed by its holder's final write only.\<close>

lemma gstep_entry:
  assumes "gstep lease now (T, p) (T', p')" and "T i = Some r" and "\<not> claimable (now - lease) r"
  shows "T' i = T i \<or> (\<exists>tc dec. p = Settle i tc dec \<and> p' = Out \<and> T' \<noteq> T)"
proof -
  have neq: "settled dec now x \<noteq> x" if "processing x" for dec x
    using that settled_sel(5) [of dec now x] by metis
  show ?thesis using assms
  proof (elim gstepE, goal_cases)
    case (11 j x tc dec)
    then show ?case using neq [of x dec] by (cases "j = i") (auto simp: fun_upd_idem_iff)
  qed auto
qed

lemma leased_work:
  assumes inv: "leased lease s" and g: "gstep lease now (sy_table s, sy_worker s n) (T', p')"
    and c: "sy_clock s \<le> now"
    and timely: "\<And>i tc dec. sy_worker s n = Settle i tc dec \<Longrightarrow> p' = Out \<Longrightarrow> T' \<noteq> sy_table s \<Longrightarrow> now \<le> tc + lease"
  shows "leased lease (s\<lparr>sy_table := T', sy_worker := (sy_worker s)(n := p'), sy_clock := now\<rparr>)"
    (is "leased lease ?s'")
proof -
  have clash: False if "live lease s m i t" "live lease ?s' m' i u" "sy_table s i = Some r"
    "claimable (now - lease) r" "live lease ?s' m i t" for m m' i t u r
  proof -
    from leasedD(1) [OF inv that(1)] that(3) have "processing r" "rp_ProcessingStartedAt r = Some t" by auto
    moreover from that(5) have "now \<le> t + lease" by (simp add: live_def)
    ultimately show False using not_claimable_leased that(4) by blast
  qed
  have entry: "\<exists>r. T' i = Some r \<and> processing r \<and> rp_ProcessingStartedAt r = Some t"
    if l: "live lease ?s' m i t" for m i t
  proof (cases "live lease s m i t")
    case False
    with live_before [OF g c l] show ?thesis by auto
  next
    case True
    from leasedD(1) [OF inv True] obtain r where r: "sy_table s i = Some r" "processing r"
      "rp_ProcessingStartedAt r = Some t" by blast
    have "now \<le> t + lease" using l by (simp add: live_def)
    with r have "\<not> claimable (now - lease) r" by (intro not_claimable_leased)
    from gstep_entry [OF g r(1) this] r show ?thesis
    proof (elim disjE exE conjE)
      fix tc dec assume p: "sy_worker s n = Settle i tc dec" "p' = Out" "T' \<noteq> sy_table s"
      have "live lease s n i tc" using p(1) timely [OF p] c by (simp add: live_def)
      then have "m = n" using leasedD(2) [OF inv _ True] by blast
      with l p(2) show ?thesis by (simp add: live_def)
    qed simp
  qed
  have unique: "m = m'" if l: "live lease ?s' m i t" and l': "live lease ?s' m' i u" for m m' i t u
  proof (cases "live lease s m i t"; cases "live lease s m' i u")
    assume "live lease s m i t" "live lease s m' i u"
    then show ?thesis using leasedD(2) [OF inv] by blast
  next
    assume "live lease s m i t" "\<not> live lease s m' i u"
    with live_before [OF g c l'] clash [OF _ l'] l show ?thesis by blast
  next
    assume "\<not> live lease s m i t" "live lease s m' i u"
    with live_before [OF g c l] clash [OF _ l] l' show ?thesis by blast
  next
    assume "\<not> live lease s m i t" "\<not> live lease s m' i u"
    with live_before [OF g c l] live_before [OF g c l'] show ?thesis by blast
  qed
  from entry unique show ?thesis unfolding leased_def by simp
qed

lemma leased_frame:
  assumes inv: "leased lease s"
    and same: "\<And>n j t. live lease s' n j t \<Longrightarrow> live lease s n j t \<and> sy_table s' j = sy_table s j"
  shows "leased lease s'"
  unfolding leased_def
proof (intro conjI allI impI)
  fix n i t assume "live lease s' n i t"
  from same [OF this] leasedD(1) [OF inv, of n i t]
  show "\<exists>r. sy_table s' i = Some r \<and> processing r \<and> rp_ProcessingStartedAt r = Some t" by simp
next
  fix n m i t u assume "live lease s' n i t" and "live lease s' m i u"
  with same leasedD(2) [OF inv] show "n = m" by blast
qed

lemma timely_step_leased:
  assumes "timely_step lease s s'" and inv: "leased lease s"
  shows "leased lease s'"
  using assms(1)
proof cases
  case step
  note timely = step(2)
  from step(1) show ?thesis
  proof cases
    case (work now n T' p')
    have "leased lease (s\<lparr>sy_table := T', sy_worker := (sy_worker s)(n := p'), sy_clock := now\<rparr>)"
      by (rule leased_work [OF inv work(2,3)]) (use timely work(1) in simp)
    then show ?thesis using work(1) by simp
  next
    case (create i now p req)
    have earlier: "live lease s n j t" if "live lease s' n j t" for n j t
      using that create(1,3) by (auto simp: live_def)
    have other: "j \<noteq> i" if "live lease s' n j t" for n j t
      using leasedD(1) [OF inv earlier [OF that]] create(2) by auto
    show ?thesis by (rule leased_frame [OF inv]) (use earlier other create(1) in auto)
  next
    case (tick now)
    then show ?thesis by (intro leased_frame [OF inv]) (auto simp: live_def)
  qed
qed

lemma timely_steps_leased:
  "(timely_step lease)\<^sup>*\<^sup>* s s' \<Longrightarrow> leased lease s \<Longrightarrow> leased lease s'"
  by (induction rule: rtranclp_induct) (auto dest: timely_step_leased)

lemma leased_start: "(\<And>n. sy_worker s n = Out) \<Longrightarrow> leased lease s"
  by (simp add: leased_def live_def)

end
