(* ===== verification/Claims.thy ===== *)
theory Claims
  imports Jobs
begin

text \<open>
  Many workers over one job table, at the grain of single statements:
  \<open>processOne\<close> of \<open>platform/jobs/jobs.go\<close> as a program of steps. A worker begins its
  transaction, selects a due row that no open transaction has locked
  (\<open>FOR UPDATE SKIP LOCKED\<close>) and locks it, updates its copy, commits, runs the handler and
  settles the job by its id. Steps of different workers interleave in any order; a
  transaction may be rolled back at any point, a commit may be executed without its
  acknowledgement arriving, and a worker may be lost between any two steps. \<open>NOW()\<close> in a
  transaction is the time it began. The theory justifies \<open>claim_tx\<close>, which runs the whole
  transaction in one go: every commit is the claim of a job that is due at that moment, and
  a transaction alone does what \<open>claim_tx\<close> does.
\<close>

subsection \<open>Workers and their steps\<close>

datatype worker =
    Resting
  | Begun time
  | Holding time Job
  | Written time Job
  | Running time Job

fun locked_row :: "worker \<Rightarrow> uuid option" where
  "locked_row (Holding t j) = Some (job_id j)"
| "locked_row (Written t j) = Some (job_id j)"
| "locked_row _ = None"

fun in_transaction :: "worker \<Rightarrow> bool" where
  "in_transaction Resting = False"
| "in_transaction (Running t j) = False"
| "in_transaction _ = True"

definition locked_rows :: "worker list \<Rightarrow> uuid list" where
  "locked_rows ws = List.map_filter locked_row ws"

text \<open>
  \<open>cl_delivered\<close> lists the deliveries to handlers, the latest first: the job, and the
  time of the claim.
\<close>

record claims =
  cl_jobs :: "Job list"
  cl_workers :: "worker list"
  cl_clock :: time
  cl_delivered :: "(uuid \<times> time) list"

text \<open>The \<open>SELECT\<close> of a transaction that began at \<open>t\<close>.\<close>

definition select_unlocked :: "time \<Rightarrow> claims \<Rightarrow> Job option" where
  "select_unlocked t s = next_job t (filter (\<lambda>j. job_id j \<notin> set (locked_rows (cl_workers s))) (cl_jobs s))"

text \<open>The final updates: no handler, an error of the handler, success.\<close>

datatype settlement = Unhandled string | Failed string | Done

fun settle_job :: "settlement \<Rightarrow> time \<Rightarrow> Job \<Rightarrow> Job" where
  "settle_job (Unhandled e) t = unknown_job t e"
| "settle_job (Failed e) t = retry_job t e"
| "settle_job Done t = finish_job t"

text \<open>
  \<open>timely\<close> restricts the histories to those in which a worker whose claim has expired
  does not settle any more. The final update waits for the row's lock.
\<close>

inductive claim_step :: "bool \<Rightarrow> claims \<Rightarrow> claims \<Rightarrow> bool" for timely :: bool where
  clock: "cl_clock s \<le> now \<Longrightarrow> claim_step timely s (s\<lparr>cl_clock := now\<rparr>)"
| enqueue: "job_id j \<notin> job_id ` set (cl_jobs s) \<Longrightarrow> job_attempts j = 0 \<Longrightarrow> job_inv j \<Longrightarrow>
    claim_step timely s (s\<lparr>cl_jobs := insert_row j (cl_jobs s)\<rparr>)"
| begins: "w < length (cl_workers s) \<Longrightarrow> cl_workers s ! w = Resting \<Longrightarrow>
    claim_step timely s (s\<lparr>cl_workers := (cl_workers s)[w := Begun (cl_clock s)]\<rparr>)"
| select: "w < length (cl_workers s) \<Longrightarrow> cl_workers s ! w = Begun t \<Longrightarrow> select_unlocked t s = Some j \<Longrightarrow>
    claim_step timely s (s\<lparr>cl_workers := (cl_workers s)[w := Holding t j]\<rparr>)"
| no_rows: "w < length (cl_workers s) \<Longrightarrow> cl_workers s ! w = Begun t \<Longrightarrow> select_unlocked t s = None \<Longrightarrow>
    claim_step timely s (s\<lparr>cl_workers := (cl_workers s)[w := Resting]\<rparr>)"
| update: "w < length (cl_workers s) \<Longrightarrow> cl_workers s ! w = Holding t j \<Longrightarrow>
    claim_step timely s (s\<lparr>cl_workers := (cl_workers s)[w := Written t j]\<rparr>)"
| rollback: "w < length (cl_workers s) \<Longrightarrow> in_transaction (cl_workers s ! w) \<Longrightarrow>
    claim_step timely s (s\<lparr>cl_workers := (cl_workers s)[w := Resting]\<rparr>)"
| commit: "w < length (cl_workers s) \<Longrightarrow> cl_workers s ! w = Written t j \<Longrightarrow>
    claim_step timely s (s\<lparr>cl_jobs := move_job j (lock_job t) (cl_jobs s),
      cl_workers := (cl_workers s)[w := Running t j], cl_delivered := (job_id j, t) # cl_delivered s\<rparr>)"
| commit_unacked: "w < length (cl_workers s) \<Longrightarrow> cl_workers s ! w = Written t j \<Longrightarrow>
    claim_step timely s (s\<lparr>cl_jobs := move_job j (lock_job t) (cl_jobs s), cl_workers := (cl_workers s)[w := Resting]\<rparr>)"
| settle: "w < length (cl_workers s) \<Longrightarrow> cl_workers s ! w = Running t j \<Longrightarrow>
    job_id j \<notin> set (locked_rows (cl_workers s)) \<Longrightarrow> (timely \<Longrightarrow> cl_clock s \<le> t + 5 * Minute) \<Longrightarrow>
    claim_step timely s (s\<lparr>cl_jobs := move_job j (settle_job how (cl_clock s)) (cl_jobs s),
      cl_workers := (cl_workers s)[w := Resting]\<rparr>)"
| lost: "w < length (cl_workers s) \<Longrightarrow> cl_workers s ! w = Running t j \<Longrightarrow>
    claim_step timely s (s\<lparr>cl_workers := (cl_workers s)[w := Resting]\<rparr>)"

abbreviation claim_steps :: "bool \<Rightarrow> claims \<Rightarrow> claims \<Rightarrow> bool" where
  "claim_steps timely \<equiv> (claim_step timely)\<^sup>*\<^sup>*"

text \<open>The start: \<open>n\<close> workers at rest over a well-formed table.\<close>

definition claims_start :: "Job list \<Rightarrow> nat \<Rightarrow> time \<Rightarrow> claims" where
  "claims_start js n t = \<lparr>cl_jobs = js, cl_workers = replicate n Resting, cl_clock = t, cl_delivered = []\<rparr>"

subsection \<open>The invariant\<close>

lemma locked_rows_iff:
  "i \<in> set (locked_rows ws) \<longleftrightarrow> (\<exists>w < length ws. locked_row (ws ! w) = Some i)"
  by (auto simp: locked_rows_def map_filter_def in_set_conv_nth image_iff)

text \<open>A worker whose claim of job \<open>i\<close> has not expired.\<close>

fun unexpired :: "time \<Rightarrow> worker \<Rightarrow> uuid option" where
  "unexpired now (Running t j) = (if now \<le> t + 5 * Minute then Some (job_id j) else None)"
| "unexpired now _ = None"

text \<open>What each worker relies on, and what holds of any two.\<close>

fun worker_ok :: "bool \<Rightarrow> claims \<Rightarrow> worker \<Rightarrow> bool" where
  "worker_ok timely s Resting = True"
| "worker_ok timely s (Begun t) = (t \<le> cl_clock s)"
| "worker_ok timely s (Holding t j) = (t \<le> cl_clock s \<and> j \<in> set (cl_jobs s) \<and> job_due t j)"
| "worker_ok timely s (Written t j) = (t \<le> cl_clock s \<and> j \<in> set (cl_jobs s) \<and> job_due t j)"
| "worker_ok timely s (Running t j) = (timely \<longrightarrow> cl_clock s \<le> t + 5 * Minute \<longrightarrow>
     (\<exists>r \<in> set (cl_jobs s). job_id r = job_id j \<and> job_locked_until r = Some (t + 5 * Minute)))"

definition apart :: "bool \<Rightarrow> time \<Rightarrow> worker \<Rightarrow> worker \<Rightarrow> bool" where
  "apart timely now p p' \<longleftrightarrow> (\<forall>i. locked_row p = Some i \<longrightarrow> locked_row p' \<noteq> Some i) \<and>
     (timely \<longrightarrow> (\<forall>i. unexpired now p = Some i \<longrightarrow> unexpired now p' \<noteq> Some i))"

definition deliveries_of :: "claims \<Rightarrow> uuid \<Rightarrow> nat" where
  "deliveries_of s i = count_list (map fst (cl_delivered s)) i"

definition claims_ok :: "bool \<Rightarrow> claims \<Rightarrow> bool" where
  "claims_ok timely s \<longleftrightarrow> keyed job_id (cl_jobs s) \<and> list_all job_inv (cl_jobs s) \<and>
     (\<forall>j \<in> set (cl_jobs s). int (deliveries_of s (job_id j)) \<le> job_attempts j) \<and>
     fst ` set (cl_delivered s) \<subseteq> job_id ` set (cl_jobs s) \<and>
     list_all (worker_ok timely s) (cl_workers s) \<and>
     (\<forall>w v. w < length (cl_workers s) \<longrightarrow> v < length (cl_workers s) \<longrightarrow> w \<noteq> v \<longrightarrow>
        apart timely (cl_clock s) (cl_workers s ! w) (cl_workers s ! v))"

lemma unexpired_iff: "unexpired now p = Some i \<longleftrightarrow> (\<exists>t j. p = Running t j \<and> now \<le> t + 5 * Minute \<and> job_id j = i)"
  by (cases p) auto

lemma unexpired_later: "unexpired now' p = Some i \<Longrightarrow> now \<le> now' \<Longrightarrow> unexpired now p = Some i"
  by (auto simp: unexpired_iff)

lemma apart_sym: "apart timely now p p' \<longleftrightarrow> apart timely now p' p"
  unfolding apart_def by metis

lemma claims_okD:
  assumes "claims_ok timely s"
  shows "keyed job_id (cl_jobs s)" and "j \<in> set (cl_jobs s) \<Longrightarrow> job_inv j"
    and "j \<in> set (cl_jobs s) \<Longrightarrow> int (deliveries_of s (job_id j)) \<le> job_attempts j"
    and "fst ` set (cl_delivered s) \<subseteq> job_id ` set (cl_jobs s)"
    and "w < length (cl_workers s) \<Longrightarrow> worker_ok timely s (cl_workers s ! w)"
    and "w < length (cl_workers s) \<Longrightarrow> v < length (cl_workers s) \<Longrightarrow> w \<noteq> v \<Longrightarrow>
      apart timely (cl_clock s) (cl_workers s ! w) (cl_workers s ! v)"
  using assms by (auto simp: claims_ok_def list_all_iff)

text \<open>
  A step of worker \<open>w\<close> keeps the invariant if the new table keeps its rules, the worker's
  new state is backed and apart from the others, and what the others rely on stays.
\<close>

lemma claims_ok_worker:
  assumes ok: "claims_ok timely s" and w: "w < length (cl_workers s)"
    and s': "cl_workers s' = (cl_workers s)[w := p]" "cl_clock s' = cl_clock s"
    and jobs: "keyed job_id (cl_jobs s')" "\<And>j. j \<in> set (cl_jobs s') \<Longrightarrow> job_inv j"
      "\<And>j. j \<in> set (cl_jobs s') \<Longrightarrow> int (deliveries_of s' (job_id j)) \<le> job_attempts j"
      "fst ` set (cl_delivered s') \<subseteq> job_id ` set (cl_jobs s')"
    and p: "worker_ok timely s' p"
      "\<And>v. v < length (cl_workers s) \<Longrightarrow> v \<noteq> w \<Longrightarrow> apart timely (cl_clock s) p (cl_workers s ! v)"
    and others: "\<And>v. v < length (cl_workers s) \<Longrightarrow> v \<noteq> w \<Longrightarrow> worker_ok timely s (cl_workers s ! v) \<Longrightarrow>
      worker_ok timely s' (cl_workers s ! v)"
  shows "claims_ok timely s'"
proof -
  have "worker_ok timely s' ((cl_workers s)[w := p] ! v)" if "v < length (cl_workers s)" for v
    using that p(1) others [OF that] claims_okD(5) [OF ok that] by (cases "v = w") auto
  moreover have "apart timely (cl_clock s) ((cl_workers s)[w := p] ! u) ((cl_workers s)[w := p] ! v)"
    if "u < length (cl_workers s)" "v < length (cl_workers s)" "u \<noteq> v" for u v
    using p(2) [OF that(1)] p(2) [OF that(2)] claims_okD(6) [OF ok that] that apart_sym
    by (cases "u = w"; cases "v = w") auto
  ultimately show ?thesis
    using jobs by (auto simp: claims_ok_def s' list_all_iff [of job_inv] list_all_length)
qed

text \<open>A step that touches neither the table nor the deliveries.\<close>

lemma claims_ok_quiet:
  assumes "claims_ok timely s" and "w < length (cl_workers s)" and "worker_ok timely s p"
    and "\<And>v. v < length (cl_workers s) \<Longrightarrow> v \<noteq> w \<Longrightarrow> apart timely (cl_clock s) p (cl_workers s ! v)"
  shows "claims_ok timely (s\<lparr>cl_workers := (cl_workers s)[w := p]\<rparr>)"
proof (rule claims_ok_worker [OF assms(1,2)])
  have same: "worker_ok timely (s\<lparr>cl_workers := ws\<rparr>) q = worker_ok timely s q" for ws q by (cases q) auto
  show "worker_ok timely (s\<lparr>cl_workers := (cl_workers s)[w := p]\<rparr>) p" by (simp add: same assms(3))
  show "worker_ok timely (s\<lparr>cl_workers := (cl_workers s)[w := p]\<rparr>) q" if "worker_ok timely s q" for q
    by (simp add: same that)
qed (use assms(4) claims_okD [OF assms(1)] in \<open>simp_all add: deliveries_of_def\<close>)

lemma apart_resting [simp]: "apart timely now Resting p" "apart timely now (Begun t) p"
  by (simp_all add: apart_def)

lemma set_move_job:
  "x \<in> set (move_job j f js) \<longleftrightarrow> (\<exists>y \<in> set js. x = (if job_id y = job_id j then f y else y))"
  by (auto simp: update_rows_def)

lemma moved_other: "r \<in> set js \<Longrightarrow> job_id r \<noteq> job_id j \<Longrightarrow> r \<in> set (move_job j f js)"
  unfolding set_move_job by force

lemma moved_ids: "(\<And>y. job_id (f y) = job_id y) \<Longrightarrow> job_id ` set (move_job j f js) = job_id ` set js"
proof -
  assume "\<And>y. job_id (f y) = job_id y"
  then have "map job_id (move_job j f js) = map job_id js" by (simp add: update_rows_def)
  then show ?thesis by (metis set_map)
qed

text \<open>A commit finds the row it selected as it was: the row was locked all the time.\<close>

lemma claims_ok_commit:
  assumes ok: "claims_ok timely s" and w: "w < length (cl_workers s)" and p: "cl_workers s ! w = Written t j"
    and s': "s' = s\<lparr>cl_jobs := move_job j (lock_job t) (cl_jobs s), cl_workers := (cl_workers s)[w := q],
      cl_delivered := dl\<rparr>"
    and new: "q = Resting \<and> dl = cl_delivered s \<or> q = Running t j \<and> dl = (job_id j, t) # cl_delivered s"
  shows "claims_ok timely s'"
proof -
  note inv = claims_okD [OF ok]
  from inv(5) [OF w] p have t: "t \<le> cl_clock s" and j: "j \<in> set (cl_jobs s)" and due: "job_due t j" by auto
  have row: "y = j" if "y \<in> set (cl_jobs s)" "job_id y = job_id j" for y
    using keyed_row [OF inv(1) that(1) j that(2)] .
  have other: "locked_row (cl_workers s ! v) \<noteq> Some (job_id j)" if "v < length (cl_workers s)" "v \<noteq> w" for v
    using inv(6) [OF w that(1)] that(2) p by (auto simp: apart_def)
  have expired: "unexpired (cl_clock s) (cl_workers s ! v) \<noteq> Some (job_id j)"
    if v: "v < length (cl_workers s)" and tm: timely for v
  proof
    assume "unexpired (cl_clock s) (cl_workers s ! v) = Some (job_id j)"
    then obtain u k where k: "cl_workers s ! v = Running u k" "cl_clock s \<le> u + 5 * Minute" "job_id k = job_id j"
      by (auto simp: unexpired_iff)
    with inv(5) [OF v] tm obtain r where "r \<in> set (cl_jobs s)" "job_id r = job_id j"
      "job_locked_until r = Some (u + 5 * Minute)" by auto
    with row have "job_locked_until j = Some (u + 5 * Minute)" by blast
    with due t k(2) show False by (simp add: job_due_def)
  qed
  have jobs: "cl_jobs s' = move_job j (lock_job t) (cl_jobs s)" by (simp add: s')
  show ?thesis
  proof (rule claims_ok_worker [OF ok w, where p = q])
    show "keyed job_id (cl_jobs s')" using inv(1) by (simp add: jobs)
    show "job_inv x" if "x \<in> set (cl_jobs s')" for x
      using that inv(2) row due job_inv_steps(1) by (auto simp: jobs set_move_job split: if_splits)
    show "int (deliveries_of s' (job_id x)) \<le> job_attempts x" if "x \<in> set (cl_jobs s')" for x
    proof -
      have d: "deliveries_of s' i \<le> deliveries_of s i + (if i = job_id j then 1 else 0)" for i
        using new by (auto simp: s' deliveries_of_def)
      from that obtain y where y: "y \<in> set (cl_jobs s)" "x = (if job_id y = job_id j then lock_job t y else y)"
        by (auto simp: jobs set_move_job)
      then show ?thesis using d [of "job_id y"] inv(3) [OF y(1)] by (auto split: if_splits)
    qed
    show "fst ` set (cl_delivered s') \<subseteq> job_id ` set (cl_jobs s')"
      using new inv(4) imageI [OF j, of job_id] unfolding jobs by (subst moved_ids) (elim disjE; simp add: s')+
    have "\<exists>r \<in> set (cl_jobs s'). job_id r = job_id j \<and> job_locked_until r = Some (t + 5 * Minute)"
    proof (rule bexI)
      show "lock_job t j \<in> set (cl_jobs s')" unfolding jobs set_move_job using j by (rule bexI [rotated]) simp
    qed (simp add: lock_job_def)
    then show "worker_ok timely s' q" using new by auto
    show "apart timely (cl_clock s) q (cl_workers s ! v)" if "v < length (cl_workers s)" "v \<noteq> w" for v
      using new expired [OF that(1)] by (auto simp: apart_def split: if_splits)
    show "worker_ok timely s' (cl_workers s ! v)"
      if "v < length (cl_workers s)" "v \<noteq> w" "worker_ok timely s (cl_workers s ! v)" for v
    proof (cases "cl_workers s ! v")
      case (Running u k)
      show ?thesis unfolding Running worker_ok.simps
      proof (intro impI)
        assume tm: timely and l: "cl_clock s' \<le> u + 5 * Minute"
        with that(3) obtain r where r: "r \<in> set (cl_jobs s)" "job_id r = job_id k"
          "job_locked_until r = Some (u + 5 * Minute)" by (auto simp: Running s')
        have "job_id k \<noteq> job_id j" using expired [OF that(1) tm] l by (auto simp: Running s')
        with r show "\<exists>r \<in> set (cl_jobs s'). job_id r = job_id k \<and> job_locked_until r = Some (u + 5 * Minute)"
          unfolding jobs using moved_other [of r] by metis
      qed
    qed (use that(3) other [OF that(1,2)] in \<open>auto simp: s' set_move_job\<close>)
  qed (simp_all add: s')
qed

lemma settled_row [simp]:
  "job_id (settle_job how t j) = job_id j" "job_attempts (settle_job how t j) = job_attempts j"
  "job_max_attempts (settle_job how t j) = job_max_attempts j"
  by (cases how; simp)+

lemma settled_inv: "job_inv j \<Longrightarrow> job_inv (settle_job how t j)"
  by (cases how) (auto simp: job_inv_def unknown_job_def retry_job_def finish_job_def)

text \<open>A final update moves a row no transaction has locked and, in time, no one else runs.\<close>

lemma claims_ok_settle:
  assumes ok: "claims_ok timely s" and w: "w < length (cl_workers s)" and p: "cl_workers s ! w = Running t j"
    and free: "job_id j \<notin> set (locked_rows (cl_workers s))" and tm: "timely \<Longrightarrow> cl_clock s \<le> t + 5 * Minute"
    and s': "s' = s\<lparr>cl_jobs := move_job j (settle_job how (cl_clock s)) (cl_jobs s),
      cl_workers := (cl_workers s)[w := Resting]\<rparr>"
  shows "claims_ok timely s'"
proof -
  note inv = claims_okD [OF ok]
  have jobs: "cl_jobs s' = move_job j (settle_job how (cl_clock s)) (cl_jobs s)" by (simp add: s')
  have d: "deliveries_of s' = deliveries_of s" by (simp add: s' deliveries_of_def fun_eq_iff)
  show ?thesis
  proof (rule claims_ok_worker [OF ok w, where p = Resting])
    show "keyed job_id (cl_jobs s')" using inv(1) by (simp add: jobs)
    show "job_inv x" if "x \<in> set (cl_jobs s')" for x
      using that inv(2) settled_inv by (auto simp: jobs set_move_job split: if_splits)
    show "int (deliveries_of s' (job_id x)) \<le> job_attempts x" if "x \<in> set (cl_jobs s')" for x
    proof -
      from that obtain y where "y \<in> set (cl_jobs s)"
        and "x = (if job_id y = job_id j then settle_job how (cl_clock s) y else y)"
        by (auto simp: jobs set_move_job)
      then show ?thesis using inv(3) [of y] by (auto simp: d split: if_splits)
    qed
    show "fst ` set (cl_delivered s') \<subseteq> job_id ` set (cl_jobs s')"
      using inv(4) unfolding jobs by (subst moved_ids) (auto simp: s')
    show "worker_ok timely s' (cl_workers s ! v)"
      if v: "v < length (cl_workers s)" "v \<noteq> w" "worker_ok timely s (cl_workers s ! v)" for v
    proof (cases "cl_workers s ! v")
      case (Running u k)
      show ?thesis unfolding Running worker_ok.simps
      proof (intro impI)
        assume T: timely and l: "cl_clock s' \<le> u + 5 * Minute"
        with v(3) obtain r where r: "r \<in> set (cl_jobs s)" "job_id r = job_id k"
          "job_locked_until r = Some (u + 5 * Minute)" by (auto simp: Running s')
        have "job_id k \<noteq> job_id j"
          using inv(6) [OF w v(1)] v(2) T tm [OF T] l by (auto simp: apart_def p Running s')
        with r show "\<exists>r \<in> set (cl_jobs s'). job_id r = job_id k \<and> job_locked_until r = Some (u + 5 * Minute)"
          unfolding jobs using moved_other [of r] by metis
      qed
    next
      case (Holding u k)
      then have "job_id k \<noteq> job_id j" using free v(1) by (force simp: locked_rows_iff)
      with v(3) show ?thesis by (auto simp: Holding s' set_move_job)
    next
      case (Written u k)
      then have "job_id k \<noteq> job_id j" using free v(1) by (force simp: locked_rows_iff)
      with v(3) show ?thesis by (auto simp: Written s' set_move_job)
    qed (use v(3) in \<open>simp_all add: s'\<close>)
  qed (simp_all add: s')
qed

lemma claims_ok_clock:
  assumes ok: "claims_ok timely s" and "cl_clock s \<le> now"
  shows "claims_ok timely (s\<lparr>cl_clock := now\<rparr>)"
proof -
  have "worker_ok timely s p \<Longrightarrow> worker_ok timely (s\<lparr>cl_clock := now\<rparr>) p" for p
    using assms(2) by (cases p) auto
  moreover have "apart timely (cl_clock s) p p' \<Longrightarrow> apart timely now p p'" for p p'
    using unexpired_later [OF _ assms(2)] unfolding apart_def by blast
  ultimately show ?thesis using ok by (auto simp: claims_ok_def list_all_iff deliveries_of_def)
qed

lemma claims_ok_enqueue:
  assumes ok: "claims_ok timely s" and new: "job_id j \<notin> job_id ` set (cl_jobs s)" "job_attempts j = 0" "job_inv j"
  shows "claims_ok timely (s\<lparr>cl_jobs := insert_row j (cl_jobs s)\<rparr>)"
proof -
  have "worker_ok timely s p \<Longrightarrow> worker_ok timely (s\<lparr>cl_jobs := insert_row j (cl_jobs s)\<rparr>) p" for p
    by (cases p) auto
  moreover have "count_list (map fst (cl_delivered s)) (job_id j) = 0"
    using claims_okD(4) [OF ok] new(1) by (auto simp: count_list_0_iff)
  ultimately show ?thesis using ok new by (auto simp: claims_ok_def list_all_iff deliveries_of_def)
qed

lemma claim_step_ok:
  assumes "claim_step timely s s'" and ok: "claims_ok timely s"
  shows "claims_ok timely s'"
  using assms(1)
proof cases
  case (clock now)
  then show ?thesis using claims_ok_clock [OF ok] by simp
next
  case (enqueue j)
  then show ?thesis using claims_ok_enqueue [OF ok] by simp
next
  case (select w t j)
  from select(4) have j: "j \<in> set (cl_jobs s)" "job_due t j" "job_id j \<notin> set (locked_rows (cl_workers s))"
    unfolding select_unlocked_def using next_job_Some(1,2) by fastforce+
  show ?thesis unfolding select(1)
    by (rule claims_ok_quiet [OF ok select(2)])
      (use claims_okD(5) [OF ok select(2)] select(3) j in \<open>auto simp: apart_def locked_rows_iff\<close>)
next
  case (update w t j)
  show ?thesis unfolding update(1)
    by (rule claims_ok_quiet [OF ok update(2)])
      (use claims_okD(5,6) [OF ok update(2)] update(3) in \<open>auto simp: apart_def\<close>)
next
  case (commit w t j)
  show ?thesis by (rule claims_ok_commit [OF ok commit(2,3) commit(1)]) simp
next
  case (commit_unacked w t j)
  show ?thesis by (rule claims_ok_commit [OF ok commit_unacked(2,3), where dl = "cl_delivered s" and q = Resting])
      (simp_all add: commit_unacked(1))
next
  case (settle w t j how)
  show ?thesis by (rule claims_ok_settle [OF ok settle(2,3,4,5) settle(1)])
qed (simp_all add: claims_ok_quiet [OF ok])

lemma claims_start_ok:
  assumes "keyed job_id js" and "list_all job_inv js"
  shows "claims_ok timely (claims_start js n t)"
  using assms by (auto simp: claims_ok_def claims_start_def deliveries_of_def list_all_iff job_inv_def apart_def)

lemma claim_steps_ok: "claim_steps timely s s' \<Longrightarrow> claims_ok timely s \<Longrightarrow> claims_ok timely s'"
  by (induction rule: rtranclp_induct) (simp_all add: claim_step_ok)

subsection \<open>The claim transaction in one go\<close>

text \<open>One atomic change of the table, at the time of the clock.\<close>

inductive atomic_step :: "time \<Rightarrow> Job list \<Rightarrow> Job list \<Rightarrow> bool" for now :: time where
  nothing: "atomic_step now js js"
| insert: "job_id j \<notin> job_id ` set js \<Longrightarrow> job_attempts j = 0 \<Longrightarrow> atomic_step now js (insert_row j js)"
| claim: "j \<in> set js \<Longrightarrow> job_due t j \<Longrightarrow> t \<le> now \<Longrightarrow> atomic_step now js (move_job j (lock_job t) js)"
| settle: "atomic_step now js (move_job j (settle_job how now) js)"

lemma claim_step_atomic:
  assumes "claim_step timely s s'" and ok: "claims_ok timely s"
  shows "atomic_step (cl_clock s') (cl_jobs s) (cl_jobs s')"
  using assms(1)
proof cases
  case (commit w t j)
  with claims_okD(5) [OF ok commit(2)] show ?thesis by (auto intro: atomic_step.claim)
next
  case (commit_unacked w t j)
  with claims_okD(5) [OF ok commit_unacked(2)] show ?thesis by (auto intro: atomic_step.claim)
qed (auto intro: atomic_step.intros)

text \<open>A worker at rest that finds a due, unlocked job may claim it without interruption.\<close>

lemma select_begun:
  assumes "w < length (cl_workers s)" and "cl_workers s ! w = Resting"
  shows "select_unlocked t (s\<lparr>cl_workers := (cl_workers s)[w := Begun u]\<rparr>) = select_unlocked t s"
proof -
  have "set (locked_rows ((cl_workers s)[w := Begun u])) = set (locked_rows (cl_workers s))"
  proof (rule set_eqI)
    fix i
    have "locked_row ((cl_workers s)[w := Begun u] ! v) = locked_row (cl_workers s ! v)" for v
      using assms by (cases "v = w") simp_all
    then show "i \<in> set (locked_rows ((cl_workers s)[w := Begun u])) \<longleftrightarrow> i \<in> set (locked_rows (cl_workers s))"
      by (simp add: locked_rows_iff)
  qed
  then show ?thesis by (simp add: select_unlocked_def)
qed

lemma claim_uninterrupted:
  assumes w: "w < length (cl_workers s)" "cl_workers s ! w = Resting" and t: "t = cl_clock s"
    and j: "select_unlocked t s = Some j"
  shows "claim_steps timely s (s\<lparr>cl_jobs := move_job j (lock_job t) (cl_jobs s),
    cl_workers := (cl_workers s)[w := Running t j], cl_delivered := (job_id j, t) # cl_delivered s\<rparr>)"
proof -
  let ?st = "\<lambda>p. s\<lparr>cl_workers := (cl_workers s)[w := p]\<rparr>"
  have "claim_step timely s (?st (Begun t))" unfolding t by (rule claim_step.begins [OF w])
  then have "claim_steps timely s (?st (Begun t))" by (rule r_into_rtranclp)
  also have "claim_step timely (?st (Begun t)) (?st (Holding t j))"
    using claim_step.select [of w "?st (Begun t)" t j timely] w j by (simp add: select_begun)
  also have "claim_step timely (?st (Holding t j)) (?st (Written t j))"
    using claim_step.update [of w "?st (Holding t j)" t j timely] w by simp
  also have "claim_step timely (?st (Written t j)) (s\<lparr>cl_jobs := move_job j (lock_job t) (cl_jobs s),
      cl_workers := (cl_workers s)[w := Running t j], cl_delivered := (job_id j, t) # cl_delivered s\<rparr>)"
    using claim_step.commit [of w "?st (Written t j)" t j timely] w by simp
  finally show ?thesis .
qed

text \<open>Alone, a transaction does what \<open>claim_tx\<close> does on a working database.\<close>

lemma claim_alone:
  assumes "net d = []" and t: "t = cl_clock s" and js: "cl_jobs s = platform_jobs d" and ws: "cl_workers s = [Resting]"
  shows "\<exists>s'. claim_steps timely s s' \<and> cl_jobs s' = platform_jobs (snd (claim_tx t d)) \<and>
    cl_workers s' = [case fst (claim_tx t d) of Inl e \<Rightarrow> Resting | Inr j \<Rightarrow> Running t j]"
proof -
  have sel: "select_unlocked t s = next_job t (platform_jobs d)"
    by (simp add: select_unlocked_def locked_rows_def map_filter_def js ws)
  show ?thesis
  proof (cases "next_job t (platform_jobs d)")
    case None
    let ?s = "s\<lparr>cl_workers := [Begun t]\<rparr>"
    have "claim_step timely s ?s" using claim_step.begins [of 0 s timely] by (simp add: t ws)
    moreover have "claim_step timely ?s (?s\<lparr>cl_workers := [Resting]\<rparr>)"
      using claim_step.no_rows [of 0 ?s t timely] select_begun [of 0 s t t] None sel by (simp add: ws)
    ultimately have "claim_steps timely s (?s\<lparr>cl_workers := [Resting]\<rparr>)"
      by (meson converse_rtranclp_into_rtranclp r_into_rtranclp)
    then show ?thesis
      by (intro exI conjI) (assumption, simp_all add: claim_tx_served [OF assms(1)] None js)
  next
    case (Some j)
    then have "select_unlocked t s = Some j" by (simp add: sel)
    then have "claim_steps timely s (s\<lparr>cl_jobs := move_job j (lock_job t) (cl_jobs s), cl_workers := [Running t j],
        cl_delivered := (job_id j, t) # cl_delivered s\<rparr>)"
      using claim_uninterrupted [of 0 s t j timely] by (simp add: t ws)
    then show ?thesis
      by (intro exI conjI) (assumption, simp_all add: claim_tx_served [OF assms(1)] Some js)
  qed
qed

text \<open>
  Without the restriction to timely workers two of them may run one job: the second
  claims it when the first claim has expired, the first then fails and, updating by id,
  takes the second's lock away, and the third claims the job.
\<close>

lemma late_settlement_unlocks:
  assumes j: "job_run_at j = 0" "job_attempts j = 0" "job_max_attempts j = 5" "job_locked_until j = None"
    "job_completed_at j = None"
  shows "\<exists>s. claim_steps False (claims_start [j] 3 0) s \<and> unexpired (cl_clock s) (cl_workers s ! 1) = Some (job_id j) \<and>
    unexpired (cl_clock s) (cl_workers s ! 2) = Some (job_id j)"
proof -
  let ?j1 = "lock_job 0 j" let ?j2 = "lock_job (6 * Minute) ?j1"
  let ?j3 = "retry_job (6 * Minute) ''late'' ?j2" let ?j4 = "lock_job (8 * Minute) ?j3"
  have claim: "claim_steps False \<lparr>cl_jobs = [x], cl_workers = ws, cl_clock = t, cl_delivered = dl\<rparr>
      \<lparr>cl_jobs = [lock_job t x], cl_workers = ws[w := Running t x], cl_clock = t, cl_delivered = (job_id x, t) # dl\<rparr>"
    (is "claim_steps _ ?s _")
    if "job_due t x" "w < length ws" "ws ! w = Resting" "locked_rows ws = []" for x ws t dl w
    using claim_uninterrupted [of w ?s t x False] that
    by (simp add: select_unlocked_def next_job_def order_by_asc_def update_rows_def)
  have later: "claim_step False \<lparr>cl_jobs = js, cl_workers = ws, cl_clock = t, cl_delivered = dl\<rparr>
      \<lparr>cl_jobs = js, cl_workers = ws, cl_clock = t', cl_delivered = dl\<rparr>" if "t \<le> t'" for js ws t t' dl
    using claim_step.clock [of "\<lparr>cl_jobs = js, cl_workers = ws, cl_clock = t, cl_delivered = dl\<rparr>" t' False] that by simp
  note defs = job_due_def lock_job_def retry_job_def locked_rows_def map_filter_def j
  let ?i = "job_id j"
  let ?st = "\<lambda>x ws t dl. \<lparr>cl_jobs = [x], cl_workers = ws, cl_clock = t, cl_delivered = map (Pair ?i) dl\<rparr>"
  let ?w1 = "[Running 0 j, Resting, Resting]" and ?w2 = "[Running 0 j, Running (6 * Minute) ?j1, Resting]"
    and ?w3 = "[Resting, Running (6 * Minute) ?j1, Resting]"
    and ?w4 = "[Resting, Running (6 * Minute) ?j1, Running (8 * Minute) ?j3]"
  have s1: "claim_steps False (claims_start [j] 3 0) (?st ?j1 ?w1 0 [0])"
    using claim [of 0 j 0 "[Resting, Resting, Resting]" "[]"] by (simp add: claims_start_def numeral_3_eq_3 defs)
  have s2: "claim_steps False (?st ?j1 ?w1 0 [0]) (?st ?j1 ?w1 (6 * Minute) [0])"
    by (rule r_into_rtranclp, rule later) simp
  have s3: "claim_steps False (?st ?j1 ?w1 (6 * Minute) [0]) (?st ?j2 ?w2 (6 * Minute) [6 * Minute, 0])"
    using claim [of "6 * Minute" ?j1 1 ?w1 "[(?i, 0)]"] by (simp add: defs)
  have s4: "claim_steps False (?st ?j2 ?w2 (6 * Minute) [6 * Minute, 0]) (?st ?j3 ?w3 (6 * Minute) [6 * Minute, 0])"
    using claim_step.settle [of 0 "?st ?j2 ?w2 (6 * Minute) [6 * Minute, 0]" 0 j False "Failed ''late''"]
    by (simp add: update_rows_def locked_rows_def map_filter_def r_into_rtranclp)
  have s5: "claim_steps False (?st ?j3 ?w3 (6 * Minute) [6 * Minute, 0]) (?st ?j3 ?w3 (8 * Minute) [6 * Minute, 0])"
    by (rule r_into_rtranclp, rule later) simp
  have s6: "claim_steps False (?st ?j3 ?w3 (8 * Minute) [6 * Minute, 0]) (?st ?j4 ?w4 (8 * Minute) [8 * Minute, 6 * Minute, 0])"
    using claim [of "8 * Minute" ?j3 2 ?w3 "[(?i, 6 * Minute), (?i, 0)]"] by (simp add: defs)
  note all = s1 [THEN rtranclp_trans, OF s2, THEN rtranclp_trans, OF s3, THEN rtranclp_trans, OF s4,
      THEN rtranclp_trans, OF s5, THEN rtranclp_trans, OF s6]
  show ?thesis by (intro exI conjI, rule all) simp_all
qed

text \<open>
  A tick of the worker, whichever statements fail in it, is a history of this machine: the
  table it leaves is reached by the steps of one worker.
\<close>

lemma move_job_same:
  assumes "keyed job_id js" and "j \<in> set js" and "f j = g j"
  shows "move_job j f js = move_job j g js"
  using keyed_row [OF assms(1) _ assms(2)] assms(3) by (auto simp: update_rows_def)

context job_queue
begin

lemma tick_claims:
  assumes p: "processOne q env c t t' d = (r, d')" and key: "keyed job_id (platform_jobs d)"
    and s: "cl_jobs s = platform_jobs d" "cl_workers s = [Resting]" "cl_clock s = t"
    and t': "t \<le> t'" "timely \<Longrightarrow> t' \<le> t + 5 * Minute"
  shows "\<exists>s'. claim_steps timely s s' \<and> cl_jobs s' = platform_jobs d' \<and> cl_workers s' = [Resting]"
  using p
proof (cases rule: processOne_jobs)
  case idle
  show ?thesis by (intro exI [of _ s]) (simp add: idle s)
next
  case (worked j f)
  note j = next_job_Some(1) [OF worked(1)]
  have sel: "select_unlocked t s = Some j"
    using worked(1) by (simp add: select_unlocked_def locked_rows_def map_filter_def s)
  let ?s1 = "s\<lparr>cl_jobs := move_job j (lock_job t) (cl_jobs s), cl_workers := [Running t j],
    cl_delivered := (job_id j, t) # cl_delivered s\<rparr>"
  let ?s2 = "?s1\<lparr>cl_clock := t'\<rparr>"
  have "claim_steps timely s ?s1" using claim_uninterrupted [of 0 s t j timely] sel s by simp
  also have "claim_step timely ?s1 ?s2" using claim_step.clock [of ?s1 t' timely] t'(1) s(3) by simp
  finally have run: "claim_steps timely s ?s2" .
  have ends: "job_ends q t' (lock_job t j) (f (lock_job t j))" using worked(3) by (simp add: lock_job_def)
  have jobs: "platform_jobs d' = move_job j (\<lambda>x. g (lock_job t x)) (platform_jobs d)"
    if "f (lock_job t j) = g (lock_job t j)" for g
    unfolding worked(4) by (rule move_job_same [OF key j]) (rule that)
  have settled: ?thesis if how: "f (lock_job t j) = settle_job how t' (lock_job t j)" for how
  proof -
    have "claim_step timely ?s2 (?s2\<lparr>cl_jobs := move_job j (settle_job how t') (cl_jobs ?s2), cl_workers := [Resting]\<rparr>)"
      using claim_step.settle [of 0 ?s2 t j timely how] t'(2) by (simp add: locked_rows_def map_filter_def)
    with run have "claim_steps timely s (?s2\<lparr>cl_jobs := move_job j (settle_job how t') (cl_jobs ?s2), cl_workers := [Resting]\<rparr>)"
      by (rule rtranclp.rtrancl_into_rtrancl)
    then show ?thesis
      by (intro exI conjI) (assumption, simp_all add: jobs [of "settle_job how t'", OF how] update_rows_twice s)
  qed
  consider "f (lock_job t j) = lock_job t j" | how where "f (lock_job t j) = settle_job how t' (lock_job t j)"
    using ends settle_job.simps unfolding job_ends_def by metis
  then show ?thesis
  proof cases
    case 1
    have "claim_step timely ?s2 (?s2\<lparr>cl_workers := [Resting]\<rparr>)"
      using claim_step.lost [of 0 ?s2 t j timely] by simp
    with run have "claim_steps timely s (?s2\<lparr>cl_workers := [Resting]\<rparr>)" by (rule rtranclp.rtrancl_into_rtrancl)
    then show ?thesis
      by (intro exI conjI) (assumption, simp_all add: jobs [of "\<lambda>x. x", OF 1] s)
  qed (rule settled)
qed

end

end
