(* ===== verification/Consequences.thy ===== *)
theory Consequences
  imports Answers Reports_Lifecycle Claims
begin

text \<open>
  Facts about single branches of the assembled program: what \<open>Generate\<close>, \<open>GetReport\<close>, the
  worker, the session lookup, the configuration readers and the metrics middleware do in one
  particular situation.
\<close>

text \<open>
  Every error \<open>Generate\<close> returns is retryable: a final outcome is always recorded in
  the report and never signalled through the queue.
\<close>

lemma generate_errors_retryable:
  assumes "Generate (app_reports cfg) c i now now' d = (Some e, d')"
  shows "IsRetryable e"
  using assms by (rule app_reports.generate_error_retryable)

text \<open>
  On a working database \<open>GetReport\<close> decides every case: not found, the caller's own
  report, or permission denied for somebody else's.
\<close>

lemma get_report_cases:
  assumes "pg_reports_ok d" and "net d = []" and "authenticated (ac_Disabled (cfg_Auth cfg)) c"
  shows "GetReport (app_reports cfg) c (uuid_String i) d =
    ((case pg_reports_view d i of
        None \<Rightarrow> Inl (Errorf_w (Sentinel ErrNotFound) ''report not found'')
      | Some r \<Rightarrow> if rp_OwnerUserID r = UserID (fst (FromContext c)) then Inr r
          else Inl (Errorf_w (Sentinel ErrPermissionDenied) ''not your report'')), d)"
  using app_reports.get_report_healthy [OF assms(1), of cfg c i] assms(2,3) by (simp add: db_healthy_def)

text \<open>
  A job of a type nobody registered is completed at once with an explanation, counted
  as \<open>unknown\<close>, and never due again; nothing else changes.
\<close>

lemma unknown_job_completed:
  assumes "net d = []" and "next_job t (platform_jobs d) = Some j"
    and "q_handlers (app_queue cfg) (job_type j) = None"
  shows "\<exists>f. processOne (app_queue cfg) env c t t' d =
      (\<lparr>jr_err = None, jr_counted = Some (job_type j, ''unknown'')\<rparr>,
       d\<lparr>platform_jobs := update_rows job_id (job_id j) f (platform_jobs d)\<rparr>) \<and>
    (\<forall>x u. job_last_error (f x) = Some (''no handler for type '' @ job_type j) \<and>
       job_completed_at (f x) = Some t' \<and> \<not> job_due u (f x))"
  using app_jobs.processOne_unknown [OF assms, of env c t']
  by (intro exI [of _ "\<lambda>x. unknown_job t' (''no handler for type '' @ job_type j) (lock_job t x)"])
    (simp add: finished_not_due unknown_job_def job_due_def)

text \<open>
  A session past its expiry lets nobody in and is deleted on sight; any other answer a
  session gives is the stored user it was opened for.
\<close>

lemma expired_session_deleted:
  assumes "pg_auth_ok d" and "net d = []" and "av_sessions (pg_auth_view d) sid = Some sess"
    and "av_users (pg_auth_view d) (se_UserID sess) = Some u"
  shows "\<exists>d'. PrincipalFromSession (app_auth cfg) sid now d =
      ((if now \<le> se_ExpiresAt sess then Inr (user_principal u ''cookie'')
        else Inl (Errorf_w (Sentinel ErrUnauthorized) ''session expired'')), d') \<and>
    pg_auth_view d' = (if now \<le> se_ExpiresAt sess then pg_auth_view d
      else (pg_auth_view d)\<lparr>av_sessions := (av_sessions (pg_auth_view d))(sid := None)\<rparr>)"
  using pg_auth_svc.session_healthy [OF assms, of "cfg_Auth cfg" now] by (auto simp: app_auth_def)

text \<open>
  Refused requests are counted as successes: the metrics middleware reads the status
  before the error handler has written it, so a stranger's request to the API is counted
  with status 200 although it is answered 400 or 403.
\<close>

lemma refused_requests_counted_ok:
  assumes "\<not> ac_Disabled (cfg_Auth cfg)" and "no_credentials (cfg_Auth cfg) req"
    and "todo_routes p cfg w (rq_Method req) (rq_Route req) = Some h \<or>
      report_routes p cfg w (rq_Method req) (rq_Route req) = Some h"
    and "NewEcho (pr_bytes p) cfg = Some mws" and "admitted p cfg req" and "HasPrefix (rq_Route req) ''/api''"
    and "\<not> HasPrefix (rq_URLPath req) ''/app''"
  shows "\<exists>out e'. ServeHTTP p cfg mws w req d = (out, e', d) \<and> ec_status e' \<in> {400, 403} \<and>
    RequestsTotal (rq_Method req) (rq_Route req) ''200'' \<in> set (ob_metrics out) \<and>
    (\<forall>status. RequestsTotal (rq_Method req) (rq_Route req) status \<in> set (ob_metrics out) \<longrightarrow> status = ''200'')"
proof -
  have "\<exists>r e1. chain p cfg w (entry_echo cfg w req) d = ((r, e1), d) \<and>
      (HasPrefix (rq_Route req) ''/api'' \<longrightarrow> api_refusal req r e1 \<and> (\<not> HasPrefix (rq_URLPath req) ''/app'' \<longrightarrow> r \<noteq> None))"
    by (rule anonymous_chain [OF assms(1-3)]) simp_all
  then obtain r e1 where c: "chain p cfg w (entry_echo cfg w req) d = ((r, e1), d)"
    and ref: "api_refusal req r e1" and r: "r \<noteq> None" using assms(6,7) by blast
  have ok: "ec_status e1 = 200" and ne: "rq_Route req \<noteq> ''''"
    using ref r assms(6) by (auto simp: api_refusal_def HasPrefix_def)
  have n: "Itoa 200 = ''200''" by code_simp
  show ?thesis
    using ServeHTTP_admitted [OF assms(4,5) c] api_refusal_answer [OF ref, of p] ok ne n
    by (auto simp: request_samples_def Let_def)
qed

text \<open>
  Credentials and origins: a loaded configuration allows credentials in cross-origin
  requests unless its only origin is the wildcard, its origins come from the variable when it
  is set, and each is non-empty and trimmed. A wildcard among several origins therefore
  passes together with credentials, which the comment in \<open>NewEcho\<close> means to exclude.
\<close>

lemma cors_credentials:
  assumes "Load pf hundred env = Inr cfg"
  shows "(allowCredentials (cfg_AllowedOrigins cfg) \<longleftrightarrow> cfg_AllowedOrigins cfg \<noteq> [''*'']) \<and>
    (env ''ALLOWED_ORIGINS'' = '''' \<longrightarrow> \<not> allowCredentials (cfg_AllowedOrigins cfg)) \<and>
    (\<forall>x \<in> set (cfg_AllowedOrigins cfg). x \<noteq> '''' \<and> TrimSpace x = x)"
proof (intro conjI impI ballI)
  show "allowCredentials (cfg_AllowedOrigins cfg) \<longleftrightarrow> cfg_AllowedOrigins cfg \<noteq> [''*'']"
    by (cases "cfg_AllowedOrigins cfg") (auto simp: allowCredentials_def)
  show "\<not> allowCredentials (cfg_AllowedOrigins cfg)" if "env ''ALLOWED_ORIGINS'' = ''''"
    using Load_origins [OF assms] that by (simp add: allowCredentials_def)
  fix x assume x: "x \<in> set (cfg_AllowedOrigins cfg)"
  have star: "TrimSpace ''*'' = ''*''" by (simp add: TrimSpace_def isSpace_def)
  show "x \<noteq> ''''" "TrimSpace x = x"
    using x Load_origins [OF assms] splitCSV_pieces [of x "env ''ALLOWED_ORIGINS''"] star by (auto split: if_splits)
qed

text \<open>
  Numbers and durations survive the environment: the decimal text of an integer that
  fits 64 bits is read back as that integer, and the text of \<open>n\<close> seconds as \<open>n\<close> seconds,
  whatever the default.
\<close>

lemma config_values_round_trip:
  assumes "- (2 ^ 63) \<le> i" and "i < 2 ^ 63" and "n * 1000000000 < 2 ^ 63"
    and "env k = Itoa i" and "env k' = decimal n @ ''s''"
  shows "intEnv env k dflt = i \<and> durationEnv env k' ddflt = int n * Second"
  using intEnv_Itoa [of i env k dflt, OF assms(1,2,4)] ParseDuration_seconds [OF assms(3)] assms(5)
  by (simp add: durationEnv_def read_env_def)

text \<open>
  A generation job read back from the queue names the report it was queued for, and a
  payload that does not parse is dropped without touching the database.
\<close>

lemma job_payload_round_trip:
  "(\<exists>b. marshal_GenerateReportJob job = Inr b \<and> unmarshal_GenerateReportJob b = Inr job) \<and>
   generate_handler cfg env c (JStr s) d = (None, d)"
  using payload_round_trip [of job]
  by (simp add: marshal_GenerateReportJob_def generate_handler_def unmarshal_GenerateReportJob_def)

text \<open>
  The queue invariant (distinct ids, attempts between zero and a maximum that fits the
  column, no lock on a completed job) is kept by enqueueing and by every worker tick, under
  any statement outcomes.
\<close>

lemma queue_invariant:
  assumes "jobs_ok d"
  shows "jobs_ok (snd (Enqueue (app_queue0 cfg) jobType body runAt newID now u d)) \<and>
    jobs_ok (snd (processOne (app_queue cfg) env c t t' d))"
  using Enqueue_jobs_ok [OF assms app_queue0_max_pos surjective_pairing]
    app_jobs.processOne_jobs_ok [OF assms surjective_pairing] by blast

text \<open>
  Parsing the text of a UUID gives the UUID back, also with the \<open>urn:uuid:\<close> prefix and
  in braces; a text of another length than 32, 36, 38 or 45 is refused.
\<close>

lemma uuid_text_round_trip:
  "uuid_Parse (uuid_String u) = Inr u \<and>
   uuid_Parse (''urn:uuid:'' @ uuid_String u) = Inr u \<and>
   uuid_Parse (''{'' @ uuid_String u @ ''}'') = Inr u \<and>
   (\<forall>s. length s \<notin> {32, 36, 38, 45} \<longrightarrow> uuid_Parse s = Inl (InvalidLength (length s)))"
  using uuid_Parse_String [of u] parse_dashed_String [of u] uuid_String_length [of u]
  by (simp add: uuid_Parse_def ToLower_def lowerChar_def parse_dashed_append)

text \<open>
  A completed or failed report is never changed again, by any interleaving of workers,
  redeliveries and reconciliations; and no step changes the owner, type or creation time
  of a report or removes one.
\<close>

lemma terminal_reports_frozen:
  assumes "sys_steps lease s s'" and "sy_table s i = Some r"
  shows "\<exists>r'. sy_table s' i = Some r' \<and> rp_OwnerUserID r' = rp_OwnerUserID r \<and> rp_Type r' = rp_Type r \<and>
    rp_CreatedAt r' = rp_CreatedAt r \<and> (terminal r \<longrightarrow> r' = r)"
  using sys_steps_keeps [OF assms(1)] assms(2) by (auto simp: Reports_Lifecycle.keeps_def advances_def)

text \<open>
  A handler that reports an error sends its job back with a growing pause, until its
  attempts are used up: the job is due again exactly from \<open>attempts\<close> minutes later, if it
  has attempts left, and never otherwise. The error is logged as the tick's result.
\<close>

lemma failed_job_backs_off:
  assumes "q_handlers q (job_type j) = Some h"
    and "h env (ContextWithAttempt c \<lparr>Attempt = job_attempts j + 1, MaxAttempts = job_max_attempts j\<rparr>)
           (job_payload j) d = (Some err, d1)" and "net d1 = []"
  shows "\<exists>d'. run_job q env c j t d = (\<lparr>jr_err = Some err, jr_counted = Some (job_type j, ''error'')\<rparr>, d') \<and>
    platform_jobs d' = update_rows job_id (job_id j) (retry_job t (Error err)) (platform_jobs d1) \<and>
    (\<forall>x u. job_due u (retry_job t (Error err) x) \<longleftrightarrow>
       job_attempts x < job_max_attempts x \<and> t + Minute * job_attempts x \<le> u)"
  using assms by (auto simp: run_job_def update_job_def job_due_def retry_job_def)

text \<open>
  The worker drains the queue: on a working database, once every open job is due, a run
  of at least as many ticks as there are open jobs leaves none open.
\<close>

lemma worker_drains_queue:
  assumes "net d = []" and "jobs_ok d" and "all_due T d"
    and "\<forall>(env, t, t') \<in> set ticks. T \<le> t" and "open_jobs (platform_jobs d) \<le> length ticks"
  shows "open_jobs (platform_jobs (snd (Run (app_queue cfg) c ticks d))) = 0"
  by (rule app_jobs.Run_drains [OF assms app_never_fails])

text \<open>
  A tick of the program's worker, whichever statements fail in it, is a history of the
  machine that interleaves the statements of many workers.
\<close>

lemma app_tick_claims:
  assumes "processOne (app_queue cfg) env c t t' d = (r, d')" and "jobs_ok d"
    and "cl_jobs s = platform_jobs d" and "cl_workers s = [Resting]" and "cl_clock s = t"
    and "t \<le> t'" and "timely \<Longrightarrow> t' \<le> t + 5 * Minute"
  shows "\<exists>s'. claim_steps timely s s' \<and> cl_jobs s' = platform_jobs d' \<and> cl_workers s' = [Resting]"
  using job_queue.tick_claims [OF app_jobs.job_queue_axioms assms(1) _ assms(3-7)] assms(2)
  by (simp add: jobs_ok_def)

end
