(* ===== verification/History.thy ===== *)
theory History
  imports Answers Reports_Lifecycle
begin

text \<open>
  The database under everything that runs at once. A step is one SQL statement of the
  program (the claim of a job is a transaction, hence one step), or a change of what happens
  to the coming statements; any number of servers and workers interleave such steps. Every
  request, every tick of a worker and every reconcile run is shown to be a sequence of these
  steps, so that what the steps preserve holds at every moment of every history.
\<close>

subsection \<open>Statements\<close>

inductive statement :: "db \<Rightarrow> db \<Rightarrow> bool" where
  network: "statement d (d\<lparr>net := xs\<rparr>)"
| create_todo: "statement d (snd (q_CreateTodo ct d))"
| update_todo: "statement d (snd (q_UpdateTodo ut d))"
| delete_todo: "statement d (snd (q_DeleteTodo i d))"
| create_report: "statement d (snd (pg_CreateReport (new_report i p req now) d))"
| claim_report: "statement d (snd (pg_ClaimExecution i now stale d))"
| retry_report: "statement d (snd (pg_MarkPendingRetry i at d))"
| complete_report: "res \<noteq> '''' \<Longrightarrow> statement d (snd (pg_MarkCompleted i res at d))"
| fail_report: "code \<noteq> '''' \<Longrightarrow> reason \<noteq> '''' \<Longrightarrow> statement d (snd (pg_MarkFailed i code reason at d))"
| create_user: "statement d (snd (q_CreateUser u d))"
| create_session: "statement d (snd (q_CreateSession s d))"
| delete_session: "statement d (snd (q_DeleteSession i d))"
| create_token: "statement d (snd (q_CreateAPIToken tk d))"
| insert_job: "job_attempts j = 0 \<Longrightarrow> 0 < job_max_attempts j \<Longrightarrow> job_completed_at j = None \<Longrightarrow>
    job_locked_until j = None \<Longrightarrow> statement d (snd (run_stmt (insert_job j) d))"
| claim_job: "statement d (snd (claim_tx t d))"
| end_job: "f \<in> {unknown_job t e, retry_job t e, finish_job t} \<Longrightarrow>
    statement d (snd (run_stmt (update_job i f) d))"

abbreviation statements :: "db \<Rightarrow> db \<Rightarrow> bool" where
  "statements \<equiv> statement\<^sup>*\<^sup>*"

lemma statements_snoc: "statements d0 d \<Longrightarrow> statement d d' \<Longrightarrow> statements d0 d'"
  by (rule rtranclp.rtrancl_into_rtrancl)

text \<open>A read changes nothing but the outcomes still to come.\<close>

lemma read_statement:
  assumes "op = run_stmt (\<lambda>d. (f d, d))"
  shows "statement d (snd (op d))"
proof -
  obtain r d' where "run_stmt (\<lambda>d. (f d, d)) d = (r, d')" by force
  with run_stmt_read [OF this] network [of d] show ?thesis unfolding assms by auto
qed

lemma reads_are_statements:
  "statement d (snd (q_CountTodos d))" "statement d (snd (q_ListAllTodos d))" "statement d (snd (q_FindTodoById i d))"
  "statement d (snd (q_GetReportByID i d))" "statement d (snd (q_ListPendingReportsOlderThan now d))"
  "statement d (snd (q_ListReportsByOwner owner d))"
  "statement d (snd (q_GetAPITokenByHash h d))" "statement d (snd (q_GetSession i d))"
  "statement d (snd (q_GetUserByEmail email d))" "statement d (snd (q_GetUserByID i d))"
  "statement d (snd (Ready d))" "statement d (snd (database_Ready d))"
proof -
  have f: "q_FindTodoById i = run_stmt (\<lambda>d. (case select_row tt_TodoID i (todos_todos d) of
      None \<Rightarrow> Inl (Sentinel SqlErrNoRows) | Some row \<Rightarrow> Inr row, d))"
    unfolding q_FindTodoById_def by (rule arg_cong [where f = run_stmt]) (auto split: option.splits)
  show "statement d (snd (q_FindTodoById i d))" by (rule read_statement [OF f])
  have p: "statement d (snd (run_stmt (\<lambda>d. (Inr (), d)) d))" by (rule read_statement [OF refl])
  then show "statement d (snd (Ready d))" "statement d (snd (database_Ready d))"
    by (simp_all add: Ready_def database_Ready_def case_prod_beta split: sum.split)
qed (simp_all only: q_CountTodos_def q_ListAllTodos_def q_GetReportByID_def q_ListPendingReportsOlderThan_def
    q_ListReportsByOwner_def q_GetAPITokenByHash_def q_GetSession_def q_GetUserByEmail_def q_GetUserByID_def,
    (rule read_statement [OF refl])+)

subsection \<open>Operations are sequences of statements\<close>

text \<open>What has been reached by statements stays so after the operation.\<close>

definition runs :: "(db \<Rightarrow> 'r \<times> db) \<Rightarrow> bool" where
  "runs op \<longleftrightarrow> (\<forall>d0 d. statements d0 d \<longrightarrow> statements d0 (snd (op d)))"

lemma runsI: "(\<And>d0 d. statements d0 d \<Longrightarrow> statements d0 (snd (op d))) \<Longrightarrow> runs op"
  by (simp add: runs_def)

lemma runsD: "runs op \<Longrightarrow> statements d0 d \<Longrightarrow> statements d0 (snd (op d))"
  by (simp add: runs_def)

lemma runs_statement: "(\<And>d. statement d (snd (op d))) \<Longrightarrow> runs op"
  by (rule runsI) (rule statements_snoc)

lemma snd_mapped [simp]: "snd (mapped f x) = snd x"
  by (auto simp: mapped_def split: prod.splits sum.splits)

lemma store_runs:
  "runs (pg_CreateTodo ct)" "runs (pg_UpdateTodo ut)" "runs (pg_DeleteTodo i)" "runs (pg_FindTodoById i)"
  "runs pg_ListAllTodos" "runs pg_CountTodos"
  "runs (pg_CreateReport (new_report i p req now))" "runs (pg_GetReportByID i)" "runs (pg_ListReportsByOwner owner)"
  "runs (pg_ClaimExecution i now stale)" "runs (pg_MarkPendingRetry i at)"
  "res \<noteq> '''' \<Longrightarrow> runs (pg_MarkCompleted i res at)"
  "code \<noteq> '''' \<Longrightarrow> reason \<noteq> '''' \<Longrightarrow> runs (pg_MarkFailed i code reason at)"
  "runs (pg_ListPendingOlderThan now)"
  "runs (pg_CreateUser u)" "runs (pg_GetUserByEmail email)" "runs (pg_GetUserByID i)" "runs (pg_CreateSession s)"
  "runs (pg_GetSession i)" "runs (pg_DeleteSession i)" "runs (pg_CreateAPIToken tk)" "runs (pg_GetAPITokenByHash h)"
  "runs Ready" "runs database_Ready" "runs (claim_tx t)"
  by (rule runs_statement; simp add: statement.intros reads_are_statements pg_CreateTodo_def pg_UpdateTodo_def
      pg_DeleteTodo_def pg_FindTodoById_def pg_ListAllTodos_def pg_CountTodos_def pg_GetReportByID_def
      pg_ListReportsByOwner_def pg_ListPendingOlderThan_def pg_CreateUser_def pg_GetUserByEmail_def pg_GetUserByID_def
      pg_CreateSession_def pg_GetSession_def pg_DeleteSession_def pg_CreateAPIToken_def pg_GetAPITokenByHash_def
      case_prod_beta split: sum.split)+

lemmas store_steps = store_runs [THEN runsD]

text \<open>The queue: enqueueing, and a tick whose handlers run statements.\<close>

lemma Enqueue_runs:
  assumes "q_maxAttempts q > 0"
  shows "runs (Enqueue q jobType body runAt newID now t)"
proof (rule runsI)
  fix d0 d assume d: "statements d0 d"
  then show "statements d0 (snd (Enqueue q jobType body runAt newID now t d))"
    using assms by (auto simp: Enqueue_def Let_def case_prod_beta split: sum.split
        intro!: statements_snoc [OF d] statement.insert_job)
qed

lemma enqueuer_runs: "runs (queueEnqueuer_Enqueue (app_queue0 cfg) env c jobType payload)"
  by (rule runsI) (simp add: queueEnqueuer_Enqueue_def case_prod_beta runsD [OF Enqueue_runs [OF app_queue0_max_pos]])

lemma run_job_runs:
  assumes "\<And>ty h c p. q_handlers q ty = Some h \<Longrightarrow> runs (h env c p)"
  shows "runs (run_job q env c j t')"
proof (rule runsI)
  fix d0 d assume d: "statements d0 d"
  have e: "statements d0 x \<Longrightarrow> statements d0 (snd (run_stmt (update_job i (unknown_job t e)) x))"
    "statements d0 x \<Longrightarrow> statements d0 (snd (run_stmt (update_job i (retry_job t e)) x))"
    "statements d0 x \<Longrightarrow> statements d0 (snd (run_stmt (update_job i (finish_job t)) x))" for i t e x
    by (blast intro: statements_snoc end_job)+
  show "statements d0 (snd (run_job q env c j t' d))"
  proof (cases "q_handlers q (job_type j)")
    case None
    then show ?thesis using d by (simp add: run_job_def e del: append.simps)
  next
    case (Some h)
    note h = runsD [OF assms [OF Some] d]
    show ?thesis
      by (auto simp: run_job_def Some case_prod_beta split: option.split sum.split intro!: e h)
  qed
qed

lemma processOne_runs:
  assumes "\<And>ty h c p. q_handlers q ty = Some h \<Longrightarrow> runs (h env c p)"
  shows "runs (processOne q env c t t')"
proof -
  have "runs (run_job q env c j t')" for j by (rule run_job_runs) (rule assms)
  then show ?thesis
    by (intro runsI) (simp add: processOne_def case_prod_beta store_steps runsD split: sum.split)
qed

subsection \<open>Services\<close>

lemma bus_runs: "runs (Publish (app_bus fmt cfg env) c ev)"
  by (rule runsI) (simp add: app_bus_def Publish_Subscribe audit_subscriber_def case_prod_beta
      runsD [OF Enqueue_runs [OF app_queue0_max_pos]] split: option.split)

lemma app_todos_simps [simp]:
  "ts_store (app_todos fmt cfg env) = PgTodoStore" "ts_bus (app_todos fmt cfg env) = Some (app_bus fmt cfg env)"
  by (simp_all add: app_todos_def)

lemma todos_run:
  "runs (CreateTodo (app_todos fmt cfg env) c req now i)" "runs (UpdateTodo (app_todos fmt cfg env) c t req now)"
  "runs (DeleteTodo (app_todos fmt cfg env) c t)" "runs (FindTodoById (app_todos fmt cfg env) c t)"
  "runs (ListAllTodos (app_todos fmt cfg env) c)" "runs (Summary (NewTodoService PgTodoStore b dis) c)"
  by (rule runsI; simp add: CreateTodo_def UpdateTodo_def DeleteTodo_def FindTodoById_def ListAllTodos_def Summary_def
      Let_def case_prod_beta store_steps runsD [OF bus_runs] split: option.split sum.split)+

lemma summary_runs: "runs (todoSummaryAdapter_Summary (NewTodoService PgTodoStore b dis) c)"
  by (rule runsI) (simp add: todoSummaryAdapter_Summary_def case_prod_beta runsD [OF todos_run(6)] split: sum.split)

lemma failure_texts [simp]:
  "FailureRetryExhausted \<noteq> []" "FailureUnsupportedType \<noteq> []" "SafeFailureMessage code m \<noteq> []"
  by (simp_all add: SafeFailureMessage_def FailureRetryExhausted_def FailureUnsupportedType_def)

lemma Generate_runs: "runs (Generate (app_reports cfg) c i now now')"
  by (rule runsI) (simp add: Generate_def generate_claimed_def handleRetryable_def Let_def case_prod_beta
      store_steps runsD [OF summary_runs] split: option.split sum.split)

lemma reports_run:
  "runs (CreateReport (app_reports cfg) c req now i env)" "runs (GetReport (app_reports cfg) c t)"
  "runs (ListReports (app_reports cfg) c)"
  by (rule runsI; simp add: CreateReport_def GetReport_def ListReports_def case_prod_beta store_steps
      runsD [OF enqueuer_runs] split: option.split sum.split)+

lemma reconcile_loop_runs:
  "statements d0 d \<Longrightarrow> statements d0 (reconcile_loop (app_reports cfg) c env k rs d)"
  by (induction rs arbitrary: k d) (simp_all add: runsD [OF enqueuer_runs])

lemma ReconcilePending_runs: "runs (ReconcilePending (app_reports cfg) c now env)"
  by (rule runsI) (simp add: ReconcilePending_def Let_def case_prod_beta store_steps reconcile_loop_runs
      split: sum.split)

lemma tick_runs: "runs (processOne (app_queue cfg) env c t t')"
proof (rule processOne_runs)
  fix ty h c p assume "q_handlers (app_queue cfg) ty = Some h"
  then have "h = generate_handler cfg \<or> h = audit_handler" by (auto simp: app_queue_handlers split: if_splits)
  then show "runs (h env c p)"
    by (auto simp: generate_handler_def audit_handler_def runsD [OF Generate_runs] intro!: runsI split: sum.split)
qed

lemma app_auth_store [simp]: "asv_store (app_auth cfg) = PgAuthStore"
  by (simp add: app_auth_def)

lemma auth_runs:
  "runs (auth_Register bc (app_auth cfg) em pw salt i now)" "runs (Login bc (app_auth cfg) em pw i now now')"
  "runs (Logout (app_auth cfg) i)" "runs (PrincipalFromSession (app_auth cfg) i now)"
  "runs (CreateBearerToken (app_auth cfg) i rb i' now now')" "runs (PrincipalFromBearer (app_auth cfg) token now)"
  by (rule runsI; simp add: auth_Register_def Login_def Logout_def PrincipalFromSession_def CreateBearerToken_def
      PrincipalFromBearer_def case_prod_beta Let_def store_steps split: option.split sum.split)+

lemmas service_steps = todos_run [THEN runsD] reports_run [THEN runsD] auth_runs [THEN runsD]

subsection \<open>Handlers\<close>

definition serves :: "db HandlerFunc \<Rightarrow> bool" where
  "serves h \<longleftrightarrow> (\<forall>e. runs (h e))"

lemma servesI: "(\<And>e d0 d. statements d0 d \<Longrightarrow> statements d0 (snd (h e d))) \<Longrightarrow> serves h"
  by (simp add: serves_def runs_def)

lemma servesD: "serves h \<Longrightarrow> statements d0 d \<Longrightarrow> statements d0 (snd (h e d))"
  by (simp add: serves_def runs_def)

lemma todo_handlers_serve:
  shows "serves (todoapi_Create (app_todos fmt cfg env) now i)" "serves (todoapi_List (app_todos fmt cfg env))" "serves (todoapi_Get (app_todos fmt cfg env))"
    "serves (todoapi_Update (app_todos fmt cfg env) now)" "serves (todoapi_Delete (app_todos fmt cfg env))" "serves (todoapi_GetLegacy (app_todos fmt cfg env))"
    "serves (todoapi_UpdateLegacy (app_todos fmt cfg env) now)" "serves (todoapi_DeleteLegacy (app_todos fmt cfg env))"
    "serves (todoweb_List k rdr ac random (app_todos fmt cfg env))"
  by (intro servesI; simp add: todoapi_defs todoapi_Create_def todoapi_List_def todoweb_List_def case_prod_beta
      service_steps split: sum.split option.split)+

lemma todo_pages_serve:
  shows "serves (todoweb_Create k rdr ac random (app_todos fmt cfg env) now i)" "serves (todoweb_Delete k rdr ac random (app_todos fmt cfg env))"
  by (intro servesI; simp add: todoweb_Create_def todoweb_Delete_def service_steps servesD [OF todo_handlers_serve(9)]
      Let_def case_prod_beta split: sum.split option.split)+

lemma report_handlers_serve:
  shows "serves (reportapi_Create (app_reports cfg) now i env)" "serves (reportapi_List (app_reports cfg))" "serves (reportapi_Get (app_reports cfg))"
    "serves (reportweb_List k rdr ac random (app_reports cfg))" "serves (reportweb_Show k rdr ac random (app_reports cfg))"
    "serves (reportweb_StatusFragment rdr (app_reports cfg))"
  by (intro servesI; simp add: reportapi_Create_def reportapi_List_def reportapi_Get_def reportweb_List_def
      reportweb_Show_def reportweb_StatusFragment_def service_steps case_prod_beta split: sum.split)+

lemma report_create_serves: "serves (reportweb_Create k rdr ac random (app_reports cfg) now i env)"
  by (intro servesI) (simp add: reportweb_Create_def servesD [OF report_handlers_serve(4)] service_steps Let_def
      case_prod_beta split: sum.split)

lemma auth_handlers_serve:
  shows "serves (authapi_Register bc (app_auth cfg) salt i now)" "serves (authapi_Login bc (app_auth cfg) ac i now now')"
    "serves (authapi_Logout (app_auth cfg) ac)" "serves (authapi_CreateToken bc (app_auth cfg) i now now' rb i' l l')"
    "serves (authweb_LoginForm k rdr ac random)" "serves (authweb_Login bc k rdr (app_auth cfg) ac random i now now')"
  by (intro servesI; simp add: authapi_Register_def authapi_Login_def authapi_Logout_def authapi_CreateToken_def
      authweb_LoginForm_def authweb_Login_def service_steps Let_def case_prod_beta
      split: sum.split option.split)+

lemma ops_handlers_serve:
  "serves healthz" "serves health_legacy" "serves (readyz database_Ready [app_ready cfg])" "serves (metrics_endpoint mc)"
  "serves unmatched" "serves (StaticDirectoryHandler srv)"
proof -
  show "serves (StaticDirectoryHandler srv)"
    by (intro servesI) (simp add: conjunct2 [OF static_handler_outcome])
qed (intro servesI; simp add: healthz_def health_legacy_def readyz_def metrics_endpoint_def unmatched_def app_ready_def
    store_steps Let_def case_prod_beta split: option.split bool.split)+

lemmas handlers_serve = todo_handlers_serve todo_pages_serve report_handlers_serve report_create_serves
  auth_handlers_serve ops_handlers_serve

lemma map_of_serves: "map_of xs key = Some h \<Longrightarrow> \<forall>x \<in> set xs. serves (snd x) \<Longrightarrow> serves h"
  by (drule map_of_SomeD) fastforce

lemma routes_serve:
  "static_routes p m r = Some h \<Longrightarrow> serves h"
  "ops_routes cfg m r = Some h \<Longrightarrow> serves h"
  "todo_routes p cfg w m r = Some h \<Longrightarrow> serves h"
  "auth_routes p cfg w m r = Some h \<Longrightarrow> serves h"
  "report_routes p cfg w m r = Some h \<Longrightarrow> serves h"
  unfolding todo_routes_def auth_routes_def report_routes_def Let_def
  by (auto simp: static_routes_def ops_routes_def handlers_serve split: if_splits)
    (erule map_of_serves, simp add: todoapi_Register_def todoweb_Register_def reportapi_Register_def
      reportweb_Register_def authapi_Register_routes_def authweb_Register_routes_def handlers_serve)+

lemma dispatch_serves: "serves (dispatch p cfg w)"
proof (rule servesI)
  fix e d0 d assume "statements d0 d"
  moreover have "serves unmatched" by (rule ops_handlers_serve(5))
  ultimately show "statements d0 (snd (dispatch p cfg w e d))"
    by (auto simp: dispatch_def Let_def serves_def runs_def split: option.split
        dest!: routes_serve [unfolded serves_def runs_def])
qed

lemma principal_runs: "runs (request_principal (app_auth cfg) ac now e)"
  by (rule runsI) (simp add: request_principal_def Let_def case_prod_beta service_steps split: option.split sum.split)

lemma chain_serves: "serves (chain p cfg w)"
  by (intro servesI) (simp add: chain_def auth_Middleware_def CSRFMiddleware_def servesD [OF dispatch_serves]
      runsD [OF principal_runs] Let_def case_prod_beta)

lemma inner_serves: "serves (inner p cfg limit w)"
proof (rule servesI)
  fix e d0 d assume d: "statements d0 d"
  then show "statements d0 (snd (inner p cfg limit w e d))"
    by (cases "rq_Method (ec_req e) = ''OPTIONS''")
      (simp_all add: inner_def BodyLimit_def CORS_preflight_eq CORS_passes RateLimiter_def
        servesD [OF chain_serves] split: option.split)
qed

lemma ServeHTTP_statements:
  assumes "NewEcho (pr_bytes p) cfg = Some mws" and "ServeHTTP p cfg mws w req d = (out, e', d')"
  shows "statements d d'"
proof -
  obtain limit err e1 where "inner p cfg limit w (logged_echo w req) d = ((err, e1), d')"
    using ServeHTTP_inner [OF assms] by blast
  with servesD [OF inner_serves, of d d p cfg limit w "logged_echo w req"] show ?thesis by simp
qed

subsection \<open>What every statement preserves\<close>

text \<open>Each statement changes one group of tables.\<close>

definition not_todos where
  "not_todos d = (auth_users d, auth_sessions d, auth_api_tokens d, reports_reports d, platform_jobs d)"

definition not_auth where
  "not_auth d = (todos_todos d, reports_reports d, platform_jobs d)"

lemma leaves_statements:
  "leaves not_todos (q_CreateTodo ct)" "leaves not_todos (q_UpdateTodo ut)" "leaves not_todos (q_DeleteTodo i)"
  "leaves not_auth (q_CreateUser u)" "leaves not_auth (q_CreateSession s)" "leaves not_auth (q_DeleteSession i)"
  "leaves not_auth (q_CreateAPIToken tk)"
  "leaves not_jobs (run_stmt (insert_job j))" "leaves not_jobs (run_stmt (update_job i f))"
  unfolding q_CreateTodo_def q_UpdateTodo_def q_DeleteTodo_def q_CreateUser_def q_CreateSession_def q_DeleteSession_def
    q_CreateAPIToken_def
  by (rule leaves_run_stmt;
      auto simp: leaves_def not_todos_def not_auth_def not_jobs_def insert_job_def update_job_def Let_def split: option.split)+

lemma run_stmt_inv:
  assumes "P d" and "\<And>d xs. P d \<Longrightarrow> P (d\<lparr>net := xs\<rparr>)" and "\<And>d. P d \<Longrightarrow> P (snd (stmt d))"
  shows "P (snd (run_stmt stmt d))"
  by (rule run_stmt_preserves [OF surjective_pairing]) (use assms in blast)+

lemma set_rows: "set (insert_row r rows) = insert r (set rows)" "set (delete_rows key k rows) = {x \<in> set rows. key x \<noteq> k}"
  by (auto simp: insert_row_def delete_rows_def)

lemma auth_statements_ok:
  assumes "pg_auth_ok d"
  shows "pg_auth_ok (snd (q_CreateUser u d))" "pg_auth_ok (snd (q_CreateSession s d))"
    "pg_auth_ok (snd (q_DeleteSession i d))" "pg_auth_ok (snd (q_CreateAPIToken tk d))"
  unfolding q_CreateUser_def q_CreateSession_def q_DeleteSession_def q_CreateAPIToken_def
  by (rule run_stmt_inv [where P = pg_auth_ok, OF assms]; auto simp: pg_auth_ok_def keyed_delete set_rows)+

lemma users_stay:
  "set (auth_users d) \<subseteq> set (auth_users (snd (q_CreateUser u d)))"
  "auth_users (snd (q_CreateSession s d)) = auth_users d" "auth_users (snd (q_DeleteSession i d)) = auth_users d"
  "auth_users (snd (q_CreateAPIToken tk d)) = auth_users d"
  unfolding q_CreateUser_def q_CreateSession_def q_DeleteSession_def q_CreateAPIToken_def
  by (rule run_stmt_inv [where P = "\<lambda>x. set (auth_users d) \<subseteq> set (auth_users x)"]; auto simp: insert_row_def)
    (rule run_stmt_inv [where P = "\<lambda>x. auth_users x = auth_users d"]; auto)+

lemma todo_statements_ok:
  assumes "pg_todos_ok d"
  shows "pg_todos_ok (snd (q_CreateTodo ct d))" "pg_todos_ok (snd (q_UpdateTodo ut d))" "pg_todos_ok (snd (q_DeleteTodo i d))"
  unfolding q_CreateTodo_def q_UpdateTodo_def q_DeleteTodo_def
  by (rule run_stmt_inv [where P = pg_todos_ok, OF assms]; auto simp: pg_todos_ok_def keyed_delete Let_def split: option.split)+

lemma job_statements_ok:
  assumes "jobs_ok d"
  shows "job_attempts j = 0 \<Longrightarrow> 0 < job_max_attempts j \<Longrightarrow> job_completed_at j = None \<Longrightarrow>
      jobs_ok (snd (run_stmt (insert_job j) d))"
    and "f \<in> {unknown_job t e, retry_job t e, finish_job t} \<Longrightarrow> jobs_ok (snd (run_stmt (update_job i f) d))"
proof -
  show "jobs_ok (snd (run_stmt (insert_job j) d))"
    if "job_attempts j = 0" "0 < job_max_attempts j" "job_completed_at j = None"
    by (rule run_stmt_inv [where P = jobs_ok, OF assms]; use that in
      \<open>simp add: insert_job_def jobs_ok_def job_inv_def insert_row_def keyed_def\<close>)
  show "jobs_ok (snd (run_stmt (update_job i f) d))" if f: "f \<in> {unknown_job t e, retry_job t e, finish_job t}"
  proof (rule run_stmt_inv [where P = jobs_ok, OF assms])
    fix d assume ok: "jobs_ok d"
    have "job_inv (f x)" if "x \<in> set (platform_jobs d)" for x
      using f ok that
      by (auto simp: jobs_ok_def list_all_iff job_inv_def unknown_job_def retry_job_def finish_job_def)
    moreover have "job_id (f x) = job_id x" for x
      using f by (auto simp: unknown_job_def retry_job_def finish_job_def)
    ultimately show "jobs_ok (snd (update_job i f d))"
      using jobs_ok_move [OF ok, of f i] by (simp add: update_job_def)
  qed simp
qed

text \<open>The claim locks a due job, in one transaction.\<close>

lemma claim_tx_ok:
  assumes "jobs_ok d"
  shows "jobs_ok (snd (claim_tx t d)) \<and> not_jobs (snd (claim_tx t d)) = not_jobs d"
proof -
  obtain r d' where c: "claim_tx t d = (r, d')" by force
  then show ?thesis
  proof (cases rule: claim_tx_cases)
    case (idle e xs)
    with assms c show ?thesis by (simp add: not_jobs_def)
  next
    case (taken j xs)
    note nj = next_job_Some(1,2) [OF taken(1)]
    have key: "keyed job_id (platform_jobs d)" using assms by (simp add: jobs_ok_def)
    have "job_inv (lock_job t x)" if "x \<in> set (platform_jobs d)" "job_id x = job_id j" for x
    proof -
      have "x = j" using keyed_row [OF key that(1) nj(1) that(2)] .
      moreover have "job_inv j" using nj(1) assms by (simp add: jobs_ok_def list_all_iff)
      ultimately show ?thesis using job_inv_steps(1) nj(2) by blast
    qed
    with jobs_ok_move [OF assms, of "lock_job t" "job_id j"]
    have "jobs_ok (d\<lparr>platform_jobs := move_job j (lock_job t) (platform_jobs d)\<rparr>)" by simp
    with taken(2) c show ?thesis by (simp add: jobs_ok_def not_jobs_def)
  qed
qed

text \<open>Reports: a new one, or one of the status moves on a row that allows it.\<close>

definition report_change :: "table \<Rightarrow> table \<Rightarrow> bool" where
  "report_change T T' \<longleftrightarrow> T' = T \<or>
     (\<exists>i r'. T' = T(i \<mapsto> r') \<and>
        (T i = None \<and> report_wf r' \<and> rp_ReportID r' = i \<or>
         (\<exists>r. T i = Some r \<and> advances r r' \<and> rp_ReportID r' = rp_ReportID r \<and> (report_wf r \<longrightarrow> report_wf r'))))"

lemma report_change_ok: "report_change T T' \<Longrightarrow> table_ok T \<Longrightarrow> table_ok T'"
  by (auto simp: report_change_def table_ok_def split: if_splits)

lemma report_change_new:
  "T i = None \<Longrightarrow> report_wf r' \<Longrightarrow> rp_ReportID r' = i \<Longrightarrow> report_change T (T(i \<mapsto> r'))"
  unfolding report_change_def by blast

lemma report_change_keeps: "report_change T T' \<Longrightarrow> Reports_Lifecycle.keeps T T'"
  by (auto simp: report_change_def Reports_Lifecycle.keeps_def)

lemma guarded_change:
  assumes "guarded_update pg_reports_view pg_reports_ok db_healthy op i g f" and "pg_reports_ok d"
    and "\<And>r. g r \<Longrightarrow> advances r (f r) \<and> rp_ReportID (f r) = rp_ReportID r \<and> (report_wf r \<longrightarrow> report_wf (f r))"
  shows "pg_reports_ok (snd (op d)) \<and> report_change (pg_reports_view d) (pg_reports_view (snd (op d)))"
  using guarded_update_step(1,2) [OF assms(1,2) surjective_pairing] assms(3)
  unfolding report_change_def by blast

lemma advances_moves:
  "claimable stale r \<Longrightarrow> advances r (claimed now r)" "processing r \<Longrightarrow> advances r (retried at r)"
  "processing r \<Longrightarrow> advances r (completed res at r)" "processing r \<Longrightarrow> advances r (failed code reason at r)"
  using terminal_no_edge [of r] by (auto simp: advances_def claimed_def edge_defs)

lemma report_statements:
  assumes "pg_reports_ok d"
  shows "pg_reports_ok (snd (pg_CreateReport (new_report i p req now) d)) \<and>
      report_change (pg_reports_view d) (pg_reports_view (snd (pg_CreateReport (new_report i p req now) d)))"
    and "pg_reports_ok (snd (pg_ClaimExecution i now stale d)) \<and>
      report_change (pg_reports_view d) (pg_reports_view (snd (pg_ClaimExecution i now stale d)))"
    and "pg_reports_ok (snd (pg_MarkPendingRetry i at d)) \<and>
      report_change (pg_reports_view d) (pg_reports_view (snd (pg_MarkPendingRetry i at d)))"
    and "res \<noteq> '''' \<Longrightarrow> pg_reports_ok (snd (pg_MarkCompleted i res at d)) \<and>
      report_change (pg_reports_view d) (pg_reports_view (snd (pg_MarkCompleted i res at d)))"
    and "code \<noteq> '''' \<Longrightarrow> reason \<noteq> '''' \<Longrightarrow> pg_reports_ok (snd (pg_MarkFailed i code reason at d)) \<and>
      report_change (pg_reports_view d) (pg_reports_view (snd (pg_MarkFailed i code reason at d)))"
proof -
  let ?row = "report_row (new_report i p req now)"
  let ?P = "\<lambda>x. pg_reports_ok x \<and> report_change (pg_reports_view d) (pg_reports_view x)"
  have "report_change T (T(i \<mapsto> mapReport ?row))" if "T i = None" for T
    unfolding mapReport_row by (rule report_change_new) (rule that, rule wf_new, simp add: new_report_def)
  moreover have "pg_reports_view d i = None" if "i \<notin> rr_ReportID ` set (reports_reports d)"
    using that by (simp add: pg_reports_view_def reports_view_def select_row_None [THEN iffD2])
  moreover have "rr_ReportID ?row = i" by (simp add: new_report_def)
  ultimately have "?P (snd (q_CreateReport ?row d))"
    unfolding q_CreateReport_def
    by (intro run_stmt_preserves [OF surjective_pairing, where P = ?P])
      (use assms in \<open>auto simp: report_change_def pg_report_state reports_view_insert\<close>)
  then show "?P (snd (pg_CreateReport (new_report i p req now) d))"
    by (simp add: pg_CreateReport_def)
next
  note ids = claimed_def edge_defs
  show "pg_reports_ok (snd (pg_ClaimExecution i now stale d)) \<and>
      report_change (pg_reports_view d) (pg_reports_view (snd (pg_ClaimExecution i now stale d)))"
    by (rule guarded_change [OF pg_claim_law assms]) (simp add: advances_moves wf_claimed; simp add: ids)
  show "pg_reports_ok (snd (pg_MarkPendingRetry i at d)) \<and>
      report_change (pg_reports_view d) (pg_reports_view (snd (pg_MarkPendingRetry i at d)))"
    by (rule guarded_change [OF pg_retry_law assms]) (simp add: advances_moves wf_settled; simp add: ids)
  show "pg_reports_ok (snd (pg_MarkCompleted i res at d)) \<and>
      report_change (pg_reports_view d) (pg_reports_view (snd (pg_MarkCompleted i res at d)))" if "res \<noteq> ''''"
    by (rule guarded_change [OF pg_complete_law assms]) (simp add: that advances_moves wf_settled; simp add: ids)
  show "pg_reports_ok (snd (pg_MarkFailed i code reason at d)) \<and>
      report_change (pg_reports_view d) (pg_reports_view (snd (pg_MarkFailed i code reason at d)))"
    if "code \<noteq> ''''" "reason \<noteq> ''''"
    by (rule guarded_change [OF pg_fail_law assms]) (simp add: that advances_moves wf_settled; simp add: ids)
qed

subsection \<open>What statements keep\<close>

text \<open>Each statement writes one group of tables, and keeps the rules of that group.\<close>

definition db_ok :: "db \<Rightarrow> bool" where
  "db_ok d \<longleftrightarrow> pg_todos_ok d \<and> pg_auth_ok d \<and> jobs_ok d \<and> pg_reports_ok d \<and> table_ok (pg_reports_view d)"

lemma ok_by_tables:
  "todos_todos d' = todos_todos d \<Longrightarrow> pg_todos_ok d' = pg_todos_ok d"
  "auth_users d' = auth_users d \<Longrightarrow> auth_sessions d' = auth_sessions d \<Longrightarrow> auth_api_tokens d' = auth_api_tokens d \<Longrightarrow>
    pg_auth_ok d' = pg_auth_ok d"
  "platform_jobs d' = platform_jobs d \<Longrightarrow> jobs_ok d' = jobs_ok d"
  "reports_reports d' = reports_reports d \<Longrightarrow> pg_reports_ok d' = pg_reports_ok d"
  "reports_reports d' = reports_reports d \<Longrightarrow> pg_reports_view d' = pg_reports_view d"
  by (simp_all add: pg_todos_ok_def pg_auth_ok_def jobs_ok_def pg_report_state)

text \<open>The promise of one step: the rules stay, finished reports and stored users stay.\<close>

definition step_ok :: "db \<Rightarrow> db \<Rightarrow> bool" where
  "step_ok d d' \<longleftrightarrow> db_ok d' \<and> Reports_Lifecycle.keeps (pg_reports_view d) (pg_reports_view d') \<and>
     set (auth_users d) \<subseteq> set (auth_users d')"

lemma step_ok_refl: "db_ok d \<Longrightarrow> step_ok d d"
  by (simp add: step_ok_def Reports_Lifecycle.keeps_def)

lemma step_ok_kinds:
  assumes "db_ok d"
  shows "not_todos d' = not_todos d \<Longrightarrow> pg_todos_ok d' \<Longrightarrow> step_ok d d'"
    and "not_auth d' = not_auth d \<Longrightarrow> pg_auth_ok d' \<Longrightarrow> set (auth_users d) \<subseteq> set (auth_users d') \<Longrightarrow> step_ok d d'"
    and "not_jobs d' = not_jobs d \<Longrightarrow> jobs_ok d' \<Longrightarrow> step_ok d d'"
    and "not_reports d' = not_reports d \<Longrightarrow> pg_reports_ok d' \<and> report_change (pg_reports_view d) (pg_reports_view d') \<Longrightarrow>
      step_ok d d'"
proof -
  note defs = step_ok_def db_ok_def Reports_Lifecycle.keeps_def
  show "step_ok d d'" if "not_todos d' = not_todos d" "pg_todos_ok d'"
    using that assms ok_by_tables [of d' d] by (simp add: defs not_todos_def)
  show "step_ok d d'" if "not_auth d' = not_auth d" "pg_auth_ok d'" "set (auth_users d) \<subseteq> set (auth_users d')"
    using that assms ok_by_tables [of d' d] by (simp add: defs not_auth_def)
  show "step_ok d d'" if "not_jobs d' = not_jobs d" "jobs_ok d'"
    using that assms ok_by_tables [of d' d] by (simp add: defs not_jobs_def)
  show "step_ok d d'" if "not_reports d' = not_reports d"
    "pg_reports_ok d' \<and> report_change (pg_reports_view d) (pg_reports_view d')"
    using that assms ok_by_tables [of d' d] report_change_ok report_change_keeps
    by (auto simp: step_ok_def db_ok_def not_reports_def)
qed

lemma statement_ok:
  assumes "statement d d'" and "db_ok d"
  shows "step_ok d d'"
proof -
  note ok = assms(2) [unfolded db_ok_def]
  note kinds = step_ok_kinds [OF assms(2)]
  note left = leaves_statements [THEN leavesD] leaves_reports [unfolded PgReportStore_ops, THEN leavesD]
  from assms(1) show ?thesis
  proof cases
    case (network xs)
    show ?thesis unfolding network
      by (rule kinds(1)) (use ok in \<open>simp_all add: not_todos_def pg_todos_ok_def\<close>)
  qed (simp_all only:,
    (rule kinds(1) kinds(2) kinds(3) kinds(4);
      (insert ok claim_tx_ok [of d]; simp add: left todo_statements_ok auth_statements_ok users_stay job_statements_ok
        report_statements; fail))+)
qed

lemma step_ok_trans: "step_ok d d' \<Longrightarrow> step_ok d' d'' \<Longrightarrow> step_ok d d''"
  by (auto simp: step_ok_def intro: Reports_Lifecycle.keeps_trans)

lemma statements_ok: "statements d d' \<Longrightarrow> db_ok d \<Longrightarrow> step_ok d d'"
proof (induction rule: rtranclp_induct)
  case (step y z)
  then have "step_ok d y" by blast
  moreover from this have "step_ok y z" by (intro statement_ok [OF step.hyps(2)]) (simp add: step_ok_def)
  ultimately show ?case by (rule step_ok_trans)
qed (rule step_ok_refl)

end
