(* ===== verification/Recovery.thy ===== *)
theory Recovery
  imports App
begin

text \<open>
  The two cycles of report generation as a whole: how reconciliation and the worker bring
  every stuck pending report to its end on a working system, and how the retries of a job
  whose summary keeps failing come to an end.
\<close>

subsection \<open>Reconciliation and the worker together\<close>

text \<open>A report is on its way as long as an open job is there for it.\<close>

definition open_job_for :: "uuid \<Rightarrow> db \<Rightarrow> bool" where
  "open_job_for i d \<longleftrightarrow> (\<exists>j \<in> set (platform_jobs d). job_completed_at j = None \<and> job_type j = JobGenerate \<and>
     unmarshal_GenerateReportJob (job_payload j) = Inr \<lparr>gj_ReportID = i\<rparr>)"

definition on_its_way :: "uuid \<Rightarrow> db \<Rightarrow> bool" where
  "on_its_way i d \<longleftrightarrow> (\<exists>r. pg_reports_view d i = Some r \<and>
     (rp_Status r = StatusCompleted \<or>
      rp_Status r = StatusPending \<and> supportedType (rp_Type r) \<and> open_job_for i d))"

text \<open>A tick that takes another job leaves the report and its job alone.\<close>

lemma handler_reports:
  assumes "q_handlers (app_queue cfg) (job_type j) = Some h" and "pg_reports_ok d"
    and "h env c (job_payload j) d = (r, d')"
    and other: "job_type j = JobGenerate \<Longrightarrow> unmarshal_GenerateReportJob (job_payload j) \<noteq> Inr \<lparr>gj_ReportID = i\<rparr>"
  shows "pg_reports_ok d' \<and> pg_reports_view d' i = pg_reports_view d i"
proof (cases "job_type j = JobGenerate")
  case True
  then have h: "h = generate_handler cfg" using assms(1) by (simp add: app_queue_handlers)
  show ?thesis
  proof (cases "unmarshal_GenerateReportJob (job_payload j)")
    case (Inr job)
    then have "gj_ReportID job \<noteq> i" using other [OF True] by (cases job) auto
    moreover have "Generate (app_reports cfg) (WithPrincipal c system_principal) (gj_ReportID job)
        (je_now env) (je_later env) d = (r, d')"
      using assms(3) by (simp add: h generate_handler_def Inr)
    from app_reports.generate_effect [OF assms(2) this] have "pg_reports_ok d' \<and>
      (pg_reports_view d' = pg_reports_view d \<or> (\<exists>r'. pg_reports_view d' = (pg_reports_view d)(gj_ReportID job \<mapsto> r')))"
      by blast
    ultimately show ?thesis by auto
  qed (use assms(2,3) in \<open>simp add: h generate_handler_def\<close>)
qed (use assms in \<open>auto simp: app_queue_handlers audit_handler_def\<close>)

lemma other_tick:
  assumes "net d = []" and "pg_reports_ok d" and "next_job t (platform_jobs d) = Some j"
    and "processOne (app_queue cfg) env c t t' d = (r, d')"
    and other: "job_type j = JobGenerate \<Longrightarrow> unmarshal_GenerateReportJob (job_payload j) \<noteq> Inr \<lparr>gj_ReportID = i\<rparr>"
  shows "pg_reports_ok d' \<and> pg_reports_view d' i = pg_reports_view d i"
proof (cases "q_handlers (app_queue cfg) (job_type j)")
  case None
  then show ?thesis
    using app_jobs.processOne_unknown [OF assms(1,3) None, of env c t'] assms(2,4)
    by (auto simp: pg_reports_ok_def pg_reports_view_def)
next
  case (Some h)
  let ?d1 = "d\<lparr>platform_jobs := move_job j (lock_job t) (platform_jobs d)\<rparr>"
  let ?c = "ContextWithAttempt c \<lparr>Attempt = job_attempts j + 1, MaxAttempts = job_max_attempts j\<rparr>"
  obtain hr d2 where h: "h env ?c (job_payload j) ?d1 = (hr, d2)" by force
  have "pg_reports_ok ?d1" using assms(2) by (simp add: pg_reports_ok_def)
  from handler_reports [OF Some this h other] app_jobs.processOne_served [OF assms(1,3) Some h, of t'] assms(4)
  show ?thesis by (auto simp: pg_reports_ok_def pg_reports_view_def)
qed

lemma job_survives:
  assumes "jobs_ok d" and "next_job t (platform_jobs d) = Some j" and "processOne (app_queue cfg) env c t t' d = (r, d')"
    and "x \<in> set (platform_jobs d)" and "x \<noteq> j"
  shows "x \<in> set (platform_jobs d')"
  using assms(3)
proof (cases rule: app_jobs.processOne_jobs)
  case (worked j' f)
  then have j: "j' = j" "j \<in> set (platform_jobs d)" using assms(2) next_job_Some(1) by auto
  have "job_id x \<noteq> job_id j"
    using assms(1,4,5) j(2) keyed_row [of job_id "platform_jobs d" x j] by (auto simp: jobs_ok_def)
  with assms(4) show ?thesis unfolding worked(4) j set_update_rows by force
qed (use assms(4) in simp)

lemma tick_on_its_way:
  assumes "net d = []" and "jobs_ok d" and "pg_reports_ok d" and "next_job t (platform_jobs d) = Some j"
    and "on_its_way i d" and p: "processOne (app_queue cfg) env c t t' d = (r, d')"
  shows "pg_reports_ok d' \<and> on_its_way i d'"
proof -
  from assms(5) obtain x where x: "pg_reports_view d i = Some x"
    and st: "rp_Status x = StatusCompleted \<or>
      rp_Status x = StatusPending \<and> supportedType (rp_Type x) \<and> open_job_for i d"
    by (auto simp: on_its_way_def)
  let ?mine = "job_type j = JobGenerate \<and> unmarshal_GenerateReportJob (job_payload j) = Inr \<lparr>gj_ReportID = i\<rparr>"
  consider (other) "\<not> ?mine" | (ended) ?mine "rp_Status x = StatusCompleted"
    | (mine) ?mine "rp_Status x = StatusPending" "supportedType (rp_Type x)"
    using st by blast
  then show ?thesis
  proof cases
    case other
    then have same: "pg_reports_ok d' \<and> pg_reports_view d' i = pg_reports_view d i"
      by (intro other_tick [OF assms(1,3,4) p]) blast
    have "open_job_for i d'" if "open_job_for i d"
      using that job_survives [OF assms(2,4) p] other unfolding open_job_for_def by metis
    with same x st show ?thesis by (auto simp: on_its_way_def)
  next
    case ended
    have "\<not> claimable (je_now env - rsv_processingLease (app_reports cfg)) y" if "pg_reports_view d i = Some y" for y
      using that x ended(2) by (simp add: claimable_def status_defs)
    then have "processOne (app_queue cfg) env c t t' d =
        (\<lparr>jr_err = None, jr_counted = Some (JobGenerate, ''ok'')\<rparr>,
         d\<lparr>platform_jobs := move_job j (\<lambda>x. finish_job t' (lock_job t x)) (platform_jobs d)\<rparr>)"
      using ended(1) by (intro app_processOne_noop [OF assms(1,3,4)]) auto
    with p assms(3) x ended(2) show ?thesis by (auto simp: on_its_way_def pg_reports_ok_def pg_reports_view_def)
  next
    case mine
    then have "claimable (je_now env - rsv_processingLease (app_reports cfg)) x" by (simp add: claimable_def)
    from app_processOne_generate [OF assms(1,3,4) _ _ x this mine(3), of c t'] mine(1) p
    have "pg_reports_ok d'" "pg_reports_view d' = (pg_reports_view d)(i \<mapsto>
        completed (result_text (todo_counts d)) (je_later env) (claimed (je_now env) x))" by auto
    then show ?thesis by (simp add: on_its_way_def completed_def)
  qed
qed

lemma Run_completes:
  assumes "net d = []" and "jobs_ok d" and "pg_reports_ok d" and "all_due T d"
    and "\<forall>(env, t, t') \<in> set ticks. T \<le> t" and "open_jobs (platform_jobs d) \<le> length ticks"
    and "on_its_way i d"
  shows "\<exists>r. pg_reports_view (snd (Run (app_queue cfg) c ticks d)) i = Some r \<and> rp_Status r = StatusCompleted"
  using assms
proof (induction ticks arbitrary: d)
  case Nil
  then have "\<not> open_job_for i d" by (auto simp: open_job_for_def open_jobs_def filter_empty_conv)
  with Nil show ?case by (auto simp: on_its_way_def)
next
  case (Cons tick ticks)
  obtain env t t' where tick: "tick = (env, t, t')" by (cases tick) auto
  obtain r d' where p: "processOne (app_queue cfg) env c t t' d = (r, d')" by force
  have run: "snd (Run (app_queue cfg) c (tick # ticks) d) = snd (Run (app_queue cfg) c ticks d')"
    using tick p by (simp split: prod.splits option.splits)
  have rest: "\<forall>(env, t, t') \<in> set ticks. T \<le> t" "T \<le> t" using Cons.prems(5) tick by auto
  show ?case
  proof (cases "open_jobs (platform_jobs d)")
    case 0
    have "\<forall>j \<in> set (platform_jobs d). \<not> job_due t j"
      using 0 by (auto simp: open_jobs_def filter_empty_conv job_due_def)
    then have "d' = d"
      using app_jobs.processOne_none [OF Cons.prems(1), of t cfg env c t'] next_job_None p by auto
    then show ?thesis unfolding run using Cons.IH [of d] Cons.prems rest 0 by simp
  next
    case (Suc n)
    from app_jobs.drain_step [OF Cons.prems(1,2,4) rest(2) Suc app_never_fails, of cfg env c t'] p
    have d': "net d' = []" "jobs_ok d'" "all_due T d'" "open_jobs (platform_jobs d') = n" by auto
    have "next_job t (platform_jobs d) \<noteq> None"
    proof
      assume none: "next_job t (platform_jobs d) = None"
      then have "d' = d" using app_jobs.processOne_none [OF Cons.prems(1) none, of cfg env c t'] p by auto
      with d'(4) Suc show False by simp
    qed
    then obtain j where "next_job t (platform_jobs d) = Some j" by blast
    from tick_on_its_way [OF Cons.prems(1-3) this Cons.prems(7) p] Cons.prems(6) Suc d' rest(1)
    show ?thesis unfolding run by (intro Cons.IH) auto
  qed
qed

lemma generate_job_fields [simp]:
  "job_completed_at (generate_job q env i) = None" "job_type (generate_job q env i) = JobGenerate"
  "unmarshal_GenerateReportJob (job_payload (generate_job q env i)) = Inr \<lparr>gj_ReportID = i\<rparr>"
  using payload_round_trip [of "\<lparr>gj_ReportID = i\<rparr>"]
  by (auto simp: generate_job_def marshal_GenerateReportJob_def)

lemma generate_job_due:
  "0 < q_maxAttempts q \<Longrightarrow> ee_now env \<le> T \<Longrightarrow> job_due T (generate_job q env i)"
  "0 < q_maxAttempts q \<Longrightarrow> int4_range (q_maxAttempts q) \<Longrightarrow> job_inv (generate_job q env i)"
  by (simp_all add: generate_job_def job_due_def job_inv_def)

text \<open>What reconciliation leaves to the worker.\<close>

lemma reconciled:
  assumes "net d = []" and "jobs_ok d" and "pg_reports_ok d" and "all_due T d" and "int4_range (q_maxAttempts (app_queue0 cfg))"
    and "inj_on (\<lambda>n. ee_id (env n)) {..<card (stale_pending cfg now d)}"
    and "\<forall>n < card (stale_pending cfg now d). ee_id (env n) \<notin> job_id ` set (platform_jobs d) \<and> ee_now (env n) \<le> T"
    and "ReconcilePending (app_reports cfg) c now env d = (e, d')"
  shows "net d' = []" and "jobs_ok d'" and "pg_reports_ok d'" and "all_due T d'"
    and "open_jobs (platform_jobs d') = open_jobs (platform_jobs d) + card (stale_pending cfg now d)"
    and "\<And>r. r \<in> stale_pending cfg now d \<Longrightarrow> supportedType (rp_Type r) \<Longrightarrow> on_its_way (rp_ReportID r) d'"
proof -
  let ?job = "\<lambda>(n, r). generate_job (app_queue0 cfg) (env n) (rp_ReportID r)"
  obtain rs where rs: "set rs = stale_pending cfg now d" "distinct rs"
    and rec: "ReconcilePending (app_reports cfg) c now env d =
      (None, d\<lparr>platform_jobs := platform_jobs d @ map ?job (zip [0..<length rs] rs)\<rparr>)"
    using reconcile_served [OF assms(3,1,6) _ assms(5)] assms(7) by blast
  define js where "js = map ?job (zip [0..<length rs] rs)"
  have len: "length rs = card (stale_pending cfg now d)" using rs distinct_card by metis
  have d': "d' = d\<lparr>platform_jobs := platform_jobs d @ map ?job (zip [0..<length rs] rs)\<rparr>"
    using rec assms(8) by simp
  have new: "\<exists>n (r :: Report). n < card (stale_pending cfg now d) \<and> x = generate_job (app_queue0 cfg) (env n) (rp_ReportID r)"
    if x: "x \<in> set (map ?job (zip [0..<length rs] rs))" for x
  proof -
    from x obtain n where "n < length rs" "x = generate_job (app_queue0 cfg) (env n) (rp_ReportID (rs ! n))"
      by (auto simp: in_set_zip)
    then show ?thesis unfolding len by blast
  qed
  have ids: "map job_id (map ?job (zip [0..<length rs] rs)) = map (\<lambda>n. ee_id (env n)) [0..<length rs]"
    by (rule nth_equalityI) auto
  have keyed: "keyed job_id js"
    unfolding keyed_def js_def ids using assms(6) by (simp add: distinct_map len lessThan_atLeast0)
  have fresh: "job_inv x \<and> job_id x \<notin> job_id ` set (platform_jobs d) \<and> job_due T x"
    if "x \<in> set js" for x
    using new [OF that [unfolded js_def]] assms(5,7) generate_job_due [OF app_queue0_max_pos [of cfg]] by auto
  have "job_id ` set js \<inter> job_id ` set (platform_jobs d) = {}"
    unfolding disjoint_iff using fresh by (intro allI impI) (erule imageE, simp)
  with keyed fresh show "jobs_ok d'"
    using assms(2) unfolding d' js_def [symmetric] by (simp add: jobs_ok_def keyed_def list_all_iff Int_commute ball_Un)
  show "net d' = []" "pg_reports_ok d'" using assms(1,3) by (simp_all add: d' pg_reports_ok_def)
  show "all_due T d'"
    using assms(4) fresh unfolding d' js_def [symmetric] by (auto simp: all_due_def)
  have "filter (\<lambda>j. job_completed_at j = None) (map ?job (zip [0..<length rs] rs)) = map ?job (zip [0..<length rs] rs)"
    by (rule filter_True) auto
  then show "open_jobs (platform_jobs d') = open_jobs (platform_jobs d) + card (stale_pending cfg now d)"
    by (simp add: d' open_jobs_def len)
  fix r assume r: "r \<in> stale_pending cfg now d" and "supportedType (rp_Type r)"
  from r obtain i where i: "pg_reports_view d i = Some r" and "rp_Status r = StatusPending"
    by (auto simp: stale_pending_def ran_def)
  moreover have "rp_ReportID r = i" using i reports_view_key by (auto simp: pg_reports_view_def)
  moreover have "open_job_for (rp_ReportID r) d'"
  proof -
    from r rs(1) obtain n where "n < length rs" "rs ! n = r" by (metis in_set_conv_nth)
    then have "(n, r) \<in> set (zip [0..<length rs] rs)" by (force simp: in_set_zip)
    then show ?thesis unfolding open_job_for_def d' by (auto intro!: bexI [of _ "?job (n, r)"])
  qed
  ultimately show "on_its_way (rp_ReportID r) d'"
    using \<open>supportedType (rp_Type r)\<close> by (auto simp: on_its_way_def d' pg_reports_view_def)
qed

subsection \<open>Retries come to an end\<close>

text \<open>Statements under a script that starts with their outcome.\<close>

lemma run_stmt_head:
  "net d = Served # xs \<Longrightarrow> run_stmt stmt d = stmt (d\<lparr>net := xs\<rparr>)"
  "net d = Refused m # xs \<Longrightarrow> run_stmt stmt d = (Inl (OtherErr m), d\<lparr>net := xs\<rparr>)"
  by (simp_all add: run_stmt_def next_outcome_def)

text \<open>An operation of one statement, served: as on a working database, with one outcome used.\<close>

definition one_statement :: "(db \<Rightarrow> 'r \<times> db) \<Rightarrow> bool" where
  "one_statement op \<longleftrightarrow> (\<forall>d xs. op (d\<lparr>net := Served # xs\<rparr>) = apsnd (\<lambda>d'. d'\<lparr>net := xs\<rparr>) (op (d\<lparr>net := []\<rparr>)))"

lemma one_statementD:
  assumes "one_statement op" and "net d = Served # xs"
  shows "op d = apsnd (\<lambda>d'. d'\<lparr>net := xs\<rparr>) (op (d\<lparr>net := []\<rparr>))"
proof -
  have "d\<lparr>net := Served # xs\<rparr> = d" using assms(2) by (metis db.surjective db.update_convs(1))
  with assms(1) show ?thesis unfolding one_statement_def by metis
qed

lemma one_statement_run:
  assumes "\<And>d xs. stmt (d\<lparr>net := xs\<rparr>) = apsnd (\<lambda>d'. d'\<lparr>net := xs\<rparr>) (stmt (d\<lparr>net := []\<rparr>))"
  shows "one_statement (run_stmt stmt)"
  unfolding one_statement_def
proof (intro allI)
  fix d xs
  have "run_stmt stmt (d\<lparr>net := Served # xs\<rparr>) = stmt (d\<lparr>net := xs\<rparr>)" by (simp add: run_stmt_head)
  also have "\<dots> = apsnd (\<lambda>d'. d'\<lparr>net := xs\<rparr>) (stmt (d\<lparr>net := []\<rparr>))" by (rule assms)
  also have "stmt (d\<lparr>net := []\<rparr>) = run_stmt stmt (d\<lparr>net := []\<rparr>)" by (simp add: run_stmt_def next_outcome_def)
  finally show "run_stmt stmt (d\<lparr>net := Served # xs\<rparr>) =
    apsnd (\<lambda>d'. d'\<lparr>net := xs\<rparr>) (run_stmt stmt (d\<lparr>net := []\<rparr>))" .
qed

lemma one_statement_map_row: "one_statement op \<Longrightarrow> one_statement (\<lambda>d. map_row (op d))"
proof -
  have "map_row (apsnd F x) = apsnd F (map_row x)" for F x
    by (cases x) (simp add: map_row_eq)
  then show "one_statement op \<Longrightarrow> one_statement (\<lambda>d. map_row (op d))"
    by (simp add: one_statement_def)
qed

lemma one_statement_reports:
  "one_statement (pg_GetReportByID i)" "one_statement (pg_ClaimExecution i now stale)"
  "one_statement (pg_MarkPendingRetry i at)" "one_statement (pg_MarkFailed i code reason at)"
  unfolding pg_GetReportByID_def pg_ClaimExecution_def pg_MarkPendingRetry_def pg_MarkFailed_def
      q_GetReportByID_def q_ClaimReportExecution_def q_MarkReportPendingRetry_def q_MarkReportFailed_def
  by (intro one_statement_map_row one_statement_run;
      simp add: update_returning_def split: option.split sum.split)+

lemma guarded_served:
  assumes "guarded_update pg_reports_view pg_reports_ok db_healthy op i g f" and "one_statement op"
    and "net d = Served # xs" and "pg_reports_ok d" and "pg_reports_view d i = Some r" and "g r"
  shows "\<exists>d'. op d = (Inr (f r), d') \<and> net d' = xs \<and> pg_reports_ok d' \<and>
    pg_reports_view d' = (pg_reports_view d)(i \<mapsto> f r)"
proof -
  let ?d0 = "d\<lparr>net := []\<rparr>"
  have ok: "pg_reports_ok ?d0" "db_healthy ?d0" "pg_reports_view ?d0 i = Some r"
    using assms(4,5) by (simp_all add: db_healthy_def)
  from guarded_update_healthy(1) [OF assms(1) ok assms(6)] obtain d' where d': "op ?d0 = (Inr (f r), d')" by blast
  from guarded_update_step(1,3) [OF assms(1) ok(1) d'] ok(3) have "pg_reports_ok d'"
    "pg_reports_view d' = (pg_reports_view d)(i \<mapsto> f r)" by auto
  with one_statementD [OF assms(2,3)] d' show ?thesis by simp
qed

lemma claim_tx_script:
  assumes "net d = [Served, Served, Served, Served] @ xs" and "next_job t (platform_jobs d) = Some j"
  shows "claim_tx t d = (Inr j, d\<lparr>net := xs, platform_jobs := move_job j (lock_job t) (platform_jobs d)\<rparr>)"
  using assms by (simp add: claim_tx_def run_stmt_head select_job_alt update_job_def)

text \<open>\<open>Generate\<close> while the query for the summary is refused.\<close>

lemma summary_refused:
  assumes "net d = Refused m # xs" and "authenticated dis c"
  shows "todoSummaryAdapter_Summary (NewTodoService PgTodoStore b dis) c d =
    (Inl (Errorf_w (Sentinel ErrInternal) ''failed to summarise todos''), d\<lparr>net := xs\<rparr>)"
  using assms
  by (simp add: todoSummaryAdapter_Summary_def Summary_def authorize_ok PgTodoStore_def pg_CountTodos_def
      q_CountTodos_def run_stmt_head)

definition summary_error :: goerr where
  "summary_error = RetryableError (Some (Errorf_w (Sentinel ErrInternal) ''failed to summarise todos''))"

lemma summary_error_simps [simp]: "IsRetryable summary_error" "\<not> errors_Is summary_error SqlErrNoRows"
  "Retryable (Some (Errorf_w (Sentinel ErrInternal) ''failed to summarise todos'')) = Some summary_error"
  by (simp_all add: summary_error_def Retryable_def Errorf_w_def)

lemma generate_outage:
  assumes "pg_reports_ok d" and "net d = [Served, Served, Refused m, Served] @ xs" and "pg_reports_view d i = Some r"
    and "rp_Status r = StatusPending" and "supportedType (rp_Type r)"
  shows "\<exists>d'. Generate (app_reports cfg)
      (WithPrincipal (ContextWithAttempt c \<lparr>Attempt = a, MaxAttempts = n\<rparr>) system_principal) i now now' d =
      ((if n \<le> a then None else Some summary_error), d') \<and>
    net d' = xs \<and> pg_reports_ok d' \<and> pg_reports_view d' = (pg_reports_view d)(i \<mapsto>
      (if n \<le> a then failed FailureRetryExhausted (SafeFailureMessage FailureRetryExhausted '''') now' (claimed now r)
       else retried now' (claimed now r)))"
proof -
  let ?c = "WithPrincipal (ContextWithAttempt c \<lparr>Attempt = a, MaxAttempts = n\<rparr>) system_principal"
  let ?stale = "now - rsv_processingLease (app_reports cfg)"
  let ?d1 = "d\<lparr>net := [Served, Refused m, Served] @ xs\<rparr>"
  let ?f = "if n \<le> a then failed FailureRetryExhausted (SafeFailureMessage FailureRetryExhausted '''') now' (claimed now r)
    else retried now' (claimed now r)"
  have "pg_GetReportByID i (d\<lparr>net := []\<rparr>) = (Inr r, d\<lparr>net := []\<rparr>)"
    using pg_report.get_healthy [of "d\<lparr>net := []\<rparr>" i] assms(1,3) by (simp add: db_healthy_def)
  with one_statementD [OF one_statement_reports(1), of d "[Served, Refused m, Served] @ xs" i] assms(2)
  have get: "pg_GetReportByID i d = (Inr r, ?d1)" by simp
  have "claimable ?stale r" using assms(4) by (simp add: claimable_def)
  from guarded_served [OF pg_claim_law one_statement_reports(2) _ _ _ this, of ?d1 "[Refused m, Served] @ xs" i now]
    assms(1,3) obtain d2 where claim: "pg_ClaimExecution i now ?stale ?d1 = (Inr (claimed now r), d2)"
    and d2: "net d2 = [Refused m, Served] @ xs" "pg_reports_ok d2" "pg_reports_view d2 = (pg_reports_view d)(i \<mapsto> claimed now r)"
    by auto
  let ?d3 = "d2\<lparr>net := Served # xs\<rparr>"
  have sum: "rsv_summaries (app_reports cfg) ?c d2 =
      (Inl (Errorf_w (Sentinel ErrInternal) ''failed to summarise todos''), ?d3)"
    using d2(1) by (simp add: summary_refused)
  have "\<exists>d'. handleRetryable (app_reports cfg) ?c i (Errorf_w (Sentinel ErrInternal) ''failed to summarise todos'') now' ?d3 =
      ((if n \<le> a then None else Some summary_error), d') \<and>
    net d' = xs \<and> pg_reports_ok d' \<and> pg_reports_view d' = (pg_reports_view d2)(i \<mapsto> ?f)"
    using guarded_served [OF pg_fail_law one_statement_reports(4), of ?d3 xs i "claimed now r"
        FailureRetryExhausted "SafeFailureMessage FailureRetryExhausted ''''" now']
      guarded_served [OF pg_retry_law one_statement_reports(3), of ?d3 xs i "claimed now r" now'] d2(2,3)
    by (auto simp: handleRetryable_def AttemptFromContext_def ContextWithAttempt_def WithPrincipal_def)
  then show ?thesis
    using get claim sum assms(4,5) d2(3)
    by (auto simp: Generate_def generate_claimed_def Let_def)
qed

text \<open>
  The statements of one tick that meets the outage: the four of the claim, reading and claiming
  the report, the refused summary, the status update of the report and that of the job.
\<close>

definition outage :: "string \<Rightarrow> outcome list" where
  "outage m = [Served, Served, Served, Served, Served, Served, Refused m, Served, Served]"

text \<open>Ticks late enough for the pauses the queue puts between the attempts.\<close>

fun backs_off :: "int \<Rightarrow> time \<Rightarrow> ('e \<times> time \<times> time) list \<Rightarrow> bool" where
  "backs_off k u [] \<longleftrightarrow> True"
| "backs_off k u ((env, t, t') # ticks) \<longleftrightarrow> u \<le> t \<and> backs_off (k + 1) (t' + Minute * (k + 1)) ticks"

definition waiting :: "uuid \<Rightarrow> Job \<Rightarrow> db \<Rightarrow> bool" where
  "waiting i j d \<longleftrightarrow> pg_reports_ok d \<and> platform_jobs d = [j] \<and> job_type j = JobGenerate \<and>
     unmarshal_GenerateReportJob (job_payload j) = Inr \<lparr>gj_ReportID = i\<rparr> \<and> job_completed_at j = None \<and>
     job_locked_until j = None \<and> job_attempts j < job_max_attempts j \<and>
     (\<exists>r. pg_reports_view d i = Some r \<and> rp_Status r = StatusPending \<and> supportedType (rp_Type r))"

lemma outage_tick:
  assumes "waiting i j d" and "net d = outage m @ xs" and "job_run_at j \<le> t"
  shows "\<exists>d' r'. net d' = xs \<and> pg_reports_view d' i = Some r' \<and>
    (if job_max_attempts j \<le> job_attempts j + 1
     then processOne (app_queue cfg) env c t t' d = (\<lparr>jr_err = None, jr_counted = Some (JobGenerate, ''ok'')\<rparr>, d') \<and>
       rp_Status r' = StatusFailed \<and> rp_FailureCode r' = FailureRetryExhausted \<and>
       platform_jobs d' = [finish_job t' (lock_job t j)]
     else processOne (app_queue cfg) env c t t' d =
         (\<lparr>jr_err = Some summary_error, jr_counted = Some (JobGenerate, ''error'')\<rparr>, d') \<and>
       waiting i (retry_job t' (Error summary_error) (lock_job t j)) d')"
proof -
  from assms(1) obtain r where r: "pg_reports_view d i = Some r" "rp_Status r = StatusPending" "supportedType (rp_Type r)"
    and j: "platform_jobs d = [j]" "job_type j = JobGenerate" "pg_reports_ok d" "job_completed_at j = None"
      "job_locked_until j = None" "job_attempts j < job_max_attempts j"
      "unmarshal_GenerateReportJob (job_payload j) = Inr \<lparr>gj_ReportID = i\<rparr>"
    by (auto simp: waiting_def)
  have "job_due t j" using j(4-6) assms(3) by (simp add: job_due_def)
  then have next_j: "next_job t (platform_jobs d) = Some j" using next_job_singleton [of "[]" t j] j(1) by simp
  let ?d1 = "d\<lparr>net := [Served, Served, Refused m, Served] @ Served # xs, platform_jobs := [lock_job t j]\<rparr>"
  have claim: "claim_tx t d = (Inr j, ?d1)"
    using claim_tx_script [OF _ next_j, of "[Served, Served, Refused m, Served] @ Served # xs"] assms(2) j(1)
    by (simp add: outage_def update_rows_def)
  have d1: "pg_reports_ok ?d1" "pg_reports_view ?d1 i = Some r"
    using j(3) r(1) by (simp_all add: pg_reports_ok_def pg_reports_view_def)
  let ?a = "job_attempts j + 1" and ?n = "job_max_attempts j"
  let ?c = "WithPrincipal (ContextWithAttempt c \<lparr>Attempt = ?a, MaxAttempts = ?n\<rparr>) system_principal"
  from generate_outage [OF d1(1) _ d1(2) r(2,3), of m "Served # xs" cfg c ?a ?n "je_now env" "je_later env"]
  obtain d2 where g: "Generate (app_reports cfg) ?c i (je_now env) (je_later env) ?d1 =
      ((if ?n \<le> ?a then None else Some summary_error), d2)"
    and d2: "net d2 = Served # xs" "pg_reports_ok d2" "pg_reports_view d2 = (pg_reports_view ?d1)(i \<mapsto>
      (if ?n \<le> ?a then failed FailureRetryExhausted (SafeFailureMessage FailureRetryExhausted '''') (je_later env)
         (claimed (je_now env) r) else retried (je_later env) (claimed (je_now env) r)))" by auto
  have "platform_jobs d2 = [lock_job t j]"
    using leavesD [OF leaves_Generate, of cfg ?c i "je_now env" "je_later env" ?d1] g by (simp add: not_reports_def)
  have h: "q_handlers (app_queue cfg) (job_type j) = Some (generate_handler cfg)"
    by (simp add: app_queue_handlers j(2))
  show ?thesis
  proof (cases "?n \<le> ?a")
    case True
    then have "processOne (app_queue cfg) env c t t' d =
      (\<lparr>jr_err = None, jr_counted = Some (JobGenerate, ''ok'')\<rparr>,
       d2\<lparr>net := xs, platform_jobs := [finish_job t' (lock_job t j)]\<rparr>)"
      using claim g d2(1) h j(2,7) \<open>platform_jobs d2 = _\<close>
      by (simp add: processOne_def run_job_def generate_handler_def run_stmt_head update_job_def update_rows_def)
    with True d2(3) show ?thesis
      by (intro exI [of _ "d2\<lparr>net := xs, platform_jobs := [finish_job t' (lock_job t j)]\<rparr>"])
        (simp add: pg_reports_view_def failed_def)
  next
    case False
    then have "processOne (app_queue cfg) env c t t' d =
      (\<lparr>jr_err = Some summary_error, jr_counted = Some (JobGenerate, ''error'')\<rparr>,
       d2\<lparr>net := xs, platform_jobs := [retry_job t' (Error summary_error) (lock_job t j)]\<rparr>)"
      using claim g d2(1) h j(2,7) \<open>platform_jobs d2 = _\<close>
      by (simp add: processOne_def run_job_def generate_handler_def run_stmt_head update_job_def update_rows_def)
    with False d2(2,3) r(3) j show ?thesis
      by (intro exI [of _ "d2\<lparr>net := xs, platform_jobs := [retry_job t' (Error summary_error) (lock_job t j)]\<rparr>"])
        (simp add: waiting_def pg_reports_ok_def pg_reports_view_def retried_def claimed_def retry_job_def lock_job_def)
  qed
qed

lemma outage_run:
  assumes "waiting i j d" and "length ticks = nat (job_max_attempts j - job_attempts j)"
    and "net d = concat (replicate (length ticks) (outage m)) @ xs" and "backs_off (job_attempts j) (job_run_at j) ticks"
  shows "\<exists>d' r' j'. Run (app_queue cfg) c ticks d = (replicate (length ticks - 1) summary_error, d') \<and> net d' = xs \<and>
    pg_reports_view d' i = Some r' \<and> rp_Status r' = StatusFailed \<and> rp_FailureCode r' = FailureRetryExhausted \<and>
    platform_jobs d' = [j'] \<and> job_completed_at j' \<noteq> None \<and> job_attempts j' = job_max_attempts j'"
  using assms
proof (induction ticks arbitrary: d j)
  case Nil
  then show ?case by (simp add: waiting_def)
next
  case (Cons tick ticks)
  obtain env t t' where tick: "tick = (env, t, t')" by (cases tick) auto
  have left: "job_attempts j < job_max_attempts j" using Cons.prems(1) by (simp add: waiting_def)
  from outage_tick [OF Cons.prems(1), of m "concat (replicate (length ticks) (outage m)) @ xs" t cfg env c t'] Cons.prems(3,4) tick
  obtain d1 r1 where d1: "net d1 = concat (replicate (length ticks) (outage m)) @ xs" "pg_reports_view d1 i = Some r1"
    and p: "if job_max_attempts j \<le> job_attempts j + 1
     then processOne (app_queue cfg) env c t t' d = (\<lparr>jr_err = None, jr_counted = Some (JobGenerate, ''ok'')\<rparr>, d1) \<and>
       rp_Status r1 = StatusFailed \<and> rp_FailureCode r1 = FailureRetryExhausted \<and>
       platform_jobs d1 = [finish_job t' (lock_job t j)]
     else processOne (app_queue cfg) env c t t' d =
         (\<lparr>jr_err = Some summary_error, jr_counted = Some (JobGenerate, ''error'')\<rparr>, d1) \<and>
       waiting i (retry_job t' (Error summary_error) (lock_job t j)) d1"
    by auto
  show ?case
  proof (cases "job_max_attempts j \<le> job_attempts j + 1")
    case True
    then have "job_max_attempts j - job_attempts j = 1" using left by simp
    with Cons.prems(2) have "ticks = []" by simp
    with True p d1 tick left show ?thesis by (simp add: finish_job_def lock_job_def)
  next
    case False
    let ?j = "retry_job t' (Error summary_error) (lock_job t j)"
    have j1: "job_attempts ?j = job_attempts j + 1" "job_max_attempts ?j = job_max_attempts j"
      "job_run_at ?j = t' + Minute * (job_attempts j + 1)" by (simp_all add: retry_job_def lock_job_def)
    have "length ticks = nat (job_max_attempts ?j - job_attempts ?j)"
      using Cons.prems(2) left unfolding j1 by simp
    moreover have "backs_off (job_attempts ?j) (job_run_at ?j) ticks"
      using Cons.prems(4) tick unfolding j1 by simp
    ultimately obtain d' r' j' where run: "Run (app_queue cfg) c ticks d1 = (replicate (length ticks - 1) summary_error, d')"
      and rest: "net d' = xs" "pg_reports_view d' i = Some r'" "rp_Status r' = StatusFailed"
        "rp_FailureCode r' = FailureRetryExhausted" "platform_jobs d' = [j']" "job_completed_at j' \<noteq> None"
        "job_attempts j' = job_max_attempts j'"
      using Cons.IH [of ?j d1] p d1(1) False by auto
    have "length ticks = Suc (length ticks - 1)" using Cons.prems(2) False left by simp
    then have "summary_error # replicate (length ticks - 1) summary_error = replicate (length ticks) summary_error"
      by (metis replicate_Suc)
    with p False run have "Run (app_queue cfg) c (tick # ticks) d = (replicate (length ticks) summary_error, d')"
      by (simp add: tick)
    with rest show ?thesis by auto
  qed
qed

end
