(* ===== verification/Process.thy ===== *)
theory Process
  imports Server
begin

text \<open>
  The life of a process: \<open>database.Open\<close> and \<open>RunMigrations\<close>, the error paths of
  \<open>app.New\<close>, \<open>App.Start\<close> and \<open>App.Shutdown\<close>, and the three \<open>main\<close> functions
  (\<open>main.go\<close>, \<open>cmd/server\<close>, \<open>cmd/worker\<close>). A run is the list of what it does, in order,
  and its exit status. What the libraries and the operating system answer is \<open>boot_env\<close>.
\<close>

subsection \<open>Surroundings and events\<close>

text \<open>How the wait of the server ends: a signal, or the listener failing first.\<close>

datatype stop = Signal | ListenFailed goerr

record 'f boot_env =
  be_load :: "goerr + 'f Config"
  be_open :: "goerr option"
  be_ping :: "goerr option"
  be_bytes :: "string \<Rightarrow> int option"
  be_templates :: "goerr option"
  be_static :: "goerr option"
  be_stop :: stop
  be_echo_shutdown :: "goerr option"
  be_close :: "goerr option"
  be_log :: "nat \<Rightarrow> log_env \<times> uuid"

datatype pevent =
    Stdout string
  | Stderr string
  | LogLine log_effect
  | DBOpened string
  | DBPool int int duration
  | DBPinged
  | DBClosed
  | Launched background
  | WorkersCancelled
  | EchoShutdown
  | LogsSynced

text \<open>A log call of the process itself, whose context carries no request.\<close>

definition process_log ::
  "'f boot_env \<Rightarrow> 'f Config \<Rightarrow> nat \<Rightarrow> string \<Rightarrow> LogLevel \<Rightarrow> string \<Rightarrow> goerr option \<Rightarrow> pevent" where
  "process_log env cfg n component level msg err =
     (let st = app_logging cfg
      in LogLine (log_call st (logging_WithContext st (Some Background) component (snd (be_log env n)))
           (fst (be_log env n)) level msg err []))"

subsection \<open>The database\<close>

definition database_Open :: "'f boot_env \<Rightarrow> DatabaseConfig \<Rightarrow> pevent list \<times> goerr option" where
  "database_Open env dc =
     (case be_open env of
        Some e \<Rightarrow> ([], Some (Errorf_prefix ''open database'' e))
      | None \<Rightarrow>
          (let opened = [DBOpened (ToDSN dc), DBPool (dc_MaxOpenConns dc) (dc_MaxIdleConns dc) (dc_ConnMaxLifetime dc), DBPinged]
           in case be_ping env of
                Some e \<Rightarrow> (opened @ [DBClosed], Some (Errorf_prefix ''ping database'' e))
              | None \<Rightarrow> (opened, None)))"

text \<open>\<open>up\<close> is \<open>goose.Up\<close> on a directory, \<open>dialect\<close> the error of \<open>goose.SetDialect\<close>.\<close>

definition RunMigrations ::
  "goerr option \<Rightarrow> goerr option \<Rightarrow> (string \<Rightarrow> goerr option) \<Rightarrow> DatabaseConfig \<Rightarrow> pevent list \<times> goerr option" where
  "RunMigrations opening dialect up dc =
     (case opening of
        Some e \<Rightarrow> ([], Some (Errorf_prefix ''open database for migrations'' e))
      | None \<Rightarrow>
          ([DBOpened (ToDSN dc), DBClosed],
           case dialect of
             Some e \<Rightarrow> Some e
           | None \<Rightarrow> up (if dc_MigrationsDir dc = '''' then ''sql/migrations'' else dc_MigrationsDir dc)))"

subsection \<open>\<open>app.New\<close>, \<open>Start\<close>, \<open>Shutdown\<close>\<close>

datatype 'f booted = Booted "'f Config" "'f middleware list" | BootError goerr | BootPanic string

definition app_New :: "'f boot_env \<Rightarrow> 'f Config \<Rightarrow> pevent list \<times> 'f booted" where
  "app_New env cfg =
     (case Initialize (cfg_AppEnv cfg) (cfg_LoggingLevel cfg) of
        (out, Some e, _) \<Rightarrow> (map Stdout out, BootError e)
      | (out, None, _) \<Rightarrow>
          (case database_Open env (cfg_Database cfg) of
             (ev, Some e) \<Rightarrow> (map Stdout out @ ev, BootError e)
           | (ev, None) \<Rightarrow>
               (map Stdout out @ ev,
                case NewEcho (be_bytes env) cfg of
                  None \<Rightarrow> BootPanic (''echo: invalid body-limit='' @ cfg_BodyLimit cfg)
                | Some mws \<Rightarrow>
                    (case be_templates env of
                       Some e \<Rightarrow> BootError (Errorf_prefix ''embed templates'' e)
                     | None \<Rightarrow>
                         (case be_static env of
                            Some e \<Rightarrow> BootError (Errorf_prefix ''embed static'' e)
                          | None \<Rightarrow> Booted cfg mws)))))"

definition app_Start :: "'f boot_env \<Rightarrow> 'f Config \<Rightarrow> pevent list" where
  "app_Start env cfg =
     map Launched (butlast (Start cfg)) @
     [process_log env cfg 0 ''startup'' InfoLevel (''Server starting on '' @ '':'' @ http_Port (cfg_HTTP cfg)) None,
      Launched (last (Start cfg))]"

definition app_Shutdown :: "'f boot_env \<Rightarrow> 'f Config \<Rightarrow> pevent list \<times> goerr option" where
  "app_Shutdown env cfg =
     ([WorkersCancelled, EchoShutdown] @
      (case be_echo_shutdown env of
         Some e \<Rightarrow> [process_log env cfg 2 ''shutdown'' ErrorLevel ''echo shutdown'' (Some e)] | None \<Rightarrow> []) @
      [LogsSynced, DBClosed], be_close env)"

subsection \<open>The main functions\<close>

text \<open>
  A return from \<open>main\<close> is exit status 0, \<open>os.Exit(1)\<close> and \<open>Fatal\<close> are 1, a panic is 2.
  \<open>Start\<close> always answers \<open>nil\<close>, so that the branch for its error is not reached.
\<close>

definition server_main :: "'f boot_env \<Rightarrow> pevent list \<times> int" where
  "server_main env =
     (case be_load env of
        Inl e \<Rightarrow> ([Stderr (''config: '' @ Error e @ [CHR 0x0A])], 1)
      | Inr cfg \<Rightarrow>
          (case app_New env cfg of
             (ev, BootError e) \<Rightarrow> (ev @ [Stderr (''app init: '' @ Error e @ [CHR 0x0A])], 1)
           | (ev, BootPanic m) \<Rightarrow> (ev @ [Stderr (''panic: '' @ m)], 2)
           | (ev, Booted cfg' mws) \<Rightarrow>
               (case be_stop env of
                  ListenFailed e \<Rightarrow>
                    (ev @ app_Start env cfg @ [process_log env cfg 1 ''startup'' FatalLevel ''Server failed'' (Some e)], 1)
                | Signal \<Rightarrow>
                    (case app_Shutdown env cfg of (down, err) \<Rightarrow>
                       (ev @ app_Start env cfg @ [process_log env cfg 1 ''shutdown'' InfoLevel ''Shutting down'' None] @ down @
                        (case err of Some e \<Rightarrow> [process_log env cfg 3 ''shutdown'' ErrorLevel ''shutdown error'' (Some e)]
                         | None \<Rightarrow> []), 0)))))"

text \<open>\<open>main.go\<close>, the compatibility entry point.\<close>

definition compat_main :: "'f boot_env \<Rightarrow> pevent list \<times> int" where
  "compat_main env =
     (case be_load env of
        Inl e \<Rightarrow> ([Stderr (''config: '' @ Error e @ [CHR 0x0A])], 1)
      | Inr cfg \<Rightarrow>
          (case app_New env cfg of
             (ev, BootError e) \<Rightarrow> (ev @ [Stderr (''app init: '' @ Error e @ [CHR 0x0A])], 1)
           | (ev, BootPanic m) \<Rightarrow> (ev @ [Stderr (''panic: '' @ m)], 2)
           | (ev, Booted cfg' mws) \<Rightarrow>
               (case be_stop env of
                  ListenFailed e \<Rightarrow>
                    (ev @ app_Start env cfg @ [process_log env cfg 1 ''startup'' FatalLevel ''Server failed'' (Some e)], 1)
                | Signal \<Rightarrow>
                    (ev @ app_Start env cfg @ [process_log env cfg 1 ''shutdown'' InfoLevel ''Shutting down'' None] @
                     fst (app_Shutdown env cfg), 0))))"

text \<open>The worker's configuration: jobs run whatever the environment says.\<close>

definition worker_config :: "'f Config \<Rightarrow> 'f Config" where
  "worker_config cfg = cfg\<lparr>cfg_Jobs := (cfg_Jobs cfg)\<lparr>jc_EmbedInServer := True, jc_Enabled := True\<rparr>\<rparr>"

text \<open>
  On the signal the context ends, which stops the queue loop, so that \<open>main\<close> returns, and at
  the same time wakes the goroutine that calls \<open>Shutdown\<close>; nothing waits for that
  goroutine. \<open>n\<close> is the number of its steps that come before the end of the process.
\<close>

definition worker_main :: "'f boot_env \<Rightarrow> nat \<Rightarrow> pevent list \<times> int" where
  "worker_main env n =
     (case be_load env of
        Inl e \<Rightarrow> ([Stderr (''config: '' @ Error e @ [CHR 0x0A])], 1)
      | Inr cfg0 \<Rightarrow>
          (let cfg = worker_config cfg0 in
           case app_New env cfg of
             (ev, BootError e) \<Rightarrow> (ev @ [Stderr (''app init: '' @ Error e @ [CHR 0x0A])], 1)
           | (ev, BootPanic m) \<Rightarrow> (ev @ [Stderr (''panic: '' @ m)], 2)
           | (ev, Booted cfg' mws) \<Rightarrow>
               (ev @ [process_log env cfg 0 ''worker'' InfoLevel ''Running worker process'' None,
                      process_log env cfg 1 ''worker'' InfoLevel ''Worker starting'' None] @
                map Launched (StartWorkerOnly cfg) @ take n (fst (app_Shutdown env cfg)), 0)))"

subsection \<open>Booting\<close>

definition is_db_event :: "pevent \<Rightarrow> bool" where
  "is_db_event e \<longleftrightarrow> (\<exists>s. e = DBOpened s) \<or> (\<exists>a b c. e = DBPool a b c) \<or> e = DBPinged \<or> e = DBClosed"

definition is_launch :: "pevent \<Rightarrow> bool" where
  "is_launch e \<longleftrightarrow> (\<exists>b. e = Launched b)"

definition is_shutdown :: "pevent \<Rightarrow> bool" where
  "is_shutdown e \<longleftrightarrow> e \<in> {WorkersCancelled, EchoShutdown, LogsSynced, DBClosed}"

lemma event_kinds [simp]:
  "\<not> is_db_event (Stdout s)" "\<not> is_db_event (Stderr s)" "\<not> is_db_event (LogLine l)" "\<not> is_db_event (Launched b)"
  "is_db_event (DBOpened s)" "is_db_event (DBPool a b' c)" "is_db_event DBPinged" "is_db_event DBClosed"
  "\<not> is_db_event WorkersCancelled" "\<not> is_db_event EchoShutdown" "\<not> is_db_event LogsSynced"
  "\<not> is_launch (Stdout s)" "\<not> is_launch (Stderr s)" "\<not> is_launch (LogLine l)" "is_launch (Launched b)"
  "\<not> is_launch (DBOpened s)" "\<not> is_launch (DBPool a b' c)" "\<not> is_launch DBPinged" "\<not> is_launch DBClosed"
  "\<not> is_launch WorkersCancelled" "\<not> is_launch EchoShutdown" "\<not> is_launch LogsSynced"
  "\<not> is_shutdown (Stdout s)" "\<not> is_shutdown (Stderr s)" "\<not> is_shutdown (LogLine l)" "\<not> is_shutdown (Launched b)"
  "\<not> is_shutdown (DBOpened s)" "\<not> is_shutdown (DBPool a b' c)" "\<not> is_shutdown DBPinged" "is_shutdown DBClosed"
  "is_shutdown WorkersCancelled" "is_shutdown EchoShutdown" "is_shutdown LogsSynced"
  by (simp_all add: is_db_event_def is_launch_def is_shutdown_def)

lemma process_log_kinds [simp]:
  "\<not> is_db_event (process_log env cfg n c l m err)" "\<not> is_launch (process_log env cfg n c l m err)"
  "\<not> is_shutdown (process_log env cfg n c l m err)"
  by (simp_all add: process_log_def Let_def)

lemma filter_Stdout [simp]:
  "filter is_db_event (map Stdout out) = []" "filter is_launch (map Stdout out) = []"
  "filter is_shutdown (map Stdout out) = []"
  by (induction out) simp_all

lemma filter_Launched [simp]:
  "filter is_db_event (map Launched bs) = []" "filter is_launch (map Launched bs) = map Launched bs"
  "filter is_shutdown (map Launched bs) = []"
  by (induction bs) simp_all

definition db_opened :: "DatabaseConfig \<Rightarrow> pevent list" where
  "db_opened dc = [DBOpened (ToDSN dc), DBPool (dc_MaxOpenConns dc) (dc_MaxIdleConns dc) (dc_ConnMaxLifetime dc), DBPinged]"

lemma db_opened_filters [simp]:
  "filter is_db_event (db_opened dc) = db_opened dc" "filter is_launch (db_opened dc) = []"
  "filter is_shutdown (db_opened dc) = []"
  by (simp_all add: db_opened_def)

lemma database_Open_alt:
  "database_Open env dc =
     (case be_open env of Some e \<Rightarrow> ([], Some (Errorf_prefix ''open database'' e))
      | None \<Rightarrow> (case be_ping env of Some e \<Rightarrow> (db_opened dc @ [DBClosed], Some (Errorf_prefix ''ping database'' e))
         | None \<Rightarrow> (db_opened dc, None)))"
  by (simp add: database_Open_def db_opened_def Let_def split: option.split)

lemma app_New_Booted:
  assumes "app_New env cfg = (ev, Booted cfg' mws)"
  shows "cfg' = cfg \<and> NewEcho (be_bytes env) cfg = Some mws \<and> filter is_db_event ev = db_opened (cfg_Database cfg) \<and>
    filter is_launch ev = [] \<and> filter is_shutdown ev = []"
  using assms
  by (auto simp: app_New_def database_Open_alt split: prod.splits option.splits)

lemma app_New_quiet: "app_New env cfg = (ev, r) \<Longrightarrow> filter is_launch ev = []"
  by (auto simp: app_New_def database_Open_alt split: prod.splits option.splits)

text \<open>A process that can talk to its database and whose configuration names a body limit boots.\<close>

definition boots :: "'f boot_env \<Rightarrow> 'f Config \<Rightarrow> bool" where
  "boots env cfg \<longleftrightarrow> be_open env = None \<and> be_ping env = None \<and> be_bytes env (cfg_BodyLimit cfg) \<noteq> None \<and>
     be_templates env = None \<and> be_static env = None"

lemma app_New_boots_iff: "(\<exists>ev cfg' mws. app_New env cfg = (ev, Booted cfg' mws)) \<longleftrightarrow> boots env cfg"
proof -
  obtain out st where i: "Initialize (cfg_AppEnv cfg) (cfg_LoggingLevel cfg) = (out, None, st)"
    by (metis Initialize_ok prod_cases3)
  show ?thesis by (auto simp: boots_def app_New_def i database_Open_alt NewEcho_def split: option.splits)
qed

lemma Start_split: "Start cfg = butlast (Start cfg) @ [last (Start cfg)]"
  by (rule append_butlast_last_id [symmetric]) (simp add: Start_def)

lemma app_Start_filters [simp]:
  "filter is_db_event (app_Start env cfg) = []" "filter is_launch (app_Start env cfg) = map Launched (Start cfg)"
  "filter is_shutdown (app_Start env cfg) = []"
  by (simp_all add: app_Start_def) (metis Start_split list.simps(8,9) map_append)

lemma app_Shutdown_filters [simp]:
  "filter is_db_event (fst (app_Shutdown env cfg)) = [DBClosed]" "filter is_launch (fst (app_Shutdown env cfg)) = []"
  "filter is_shutdown (fst (app_Shutdown env cfg)) = [WorkersCancelled, EchoShutdown, LogsSynced, DBClosed]"
  by (simp_all add: app_Shutdown_def split: option.split)

text \<open>The two ways a boot can go, as the main functions see them.\<close>

lemma app_New_cases:
  obtains (booted) ev mws where "boots env cfg" "app_New env cfg = (ev, Booted cfg mws)"
      "filter is_db_event ev = db_opened (cfg_Database cfg)" "filter is_launch ev = []" "filter is_shutdown ev = []"
    | (failed) ev e where "\<not> boots env cfg" "app_New env cfg = (ev, BootError e)" "filter is_launch ev = []"
    | (panicked) ev m where "\<not> boots env cfg" "app_New env cfg = (ev, BootPanic m)" "filter is_launch ev = []"
proof -
  obtain ev r where n: "app_New env cfg = (ev, r)" by force
  show ?thesis
  proof (cases r)
    case (Booted cfg' mws)
    have "boots env cfg" using n Booted app_New_boots_iff [of env cfg] by blast
    with n Booted app_New_Booted [of env cfg ev cfg' mws] booted show ?thesis by simp
  next
    case (BootError e)
    then have "\<not> boots env cfg" using n app_New_boots_iff [of env cfg] by auto
    with n BootError app_New_quiet [OF n] failed show ?thesis by blast
  next
    case (BootPanic m)
    then have "\<not> boots env cfg" using n app_New_boots_iff [of env cfg] by auto
    with n BootPanic app_New_quiet [OF n] panicked show ?thesis by blast
  qed
qed

lemma boots_worker [simp]: "boots env (worker_config cfg) \<longleftrightarrow> boots env cfg"
  by (simp add: boots_def worker_config_def)

lemma mem_filter: "x \<in> set xs \<longleftrightarrow> x \<in> set (filter P xs)" if "P x"
  using that by simp

lemma last_Start: "last (Start cfg) = ListenHTTP ('':'' @ http_Port (cfg_HTTP cfg))"
  by (simp add: Start_def)

end
