(* ===== verification/Todos_Refinement.thy ===== *)
theory Todos_Refinement
  imports Todos_Service App
begin

text \<open>
  The todos service as an abstract data type: requests, replies, a reference semantics on a
  finite map from ids to todos, and the proof that the service over any lawful store that
  serves its calls answers as the reference does. The in-memory store and Postgres are then
  interchangeable: histories of requests get the same replies from both.
\<close>

datatype todo_request =
    ReqCreate TodoParams time uuid
  | ReqUpdate string TodoParams time
  | ReqDelete string
  | ReqFind string
  | ReqList
  | ReqSummary

datatype todo_reply =
    RepError goerr
  | RepTodo Todo
  | RepDone
  | RepTodos "Todo set"
  | RepCounts int int int

text \<open>One request served by the service. A list is compared as the set of its members.\<close>

fun serve :: "'s TodoService \<Rightarrow> ctx \<Rightarrow> todo_request \<Rightarrow> 's \<Rightarrow> todo_reply \<times> 's" where
  "serve svc c (ReqCreate req now i) s =
     (case CreateTodo svc c req now i s of (Inl e, s') \<Rightarrow> (RepError e, s') | (Inr t, s') \<Rightarrow> (RepTodo t, s'))"
| "serve svc c (ReqUpdate i req now) s =
     (case UpdateTodo svc c i req now s of (Inl e, s') \<Rightarrow> (RepError e, s') | (Inr t, s') \<Rightarrow> (RepTodo t, s'))"
| "serve svc c (ReqDelete i) s =
     (case DeleteTodo svc c i s of (Some e, s') \<Rightarrow> (RepError e, s') | (None, s') \<Rightarrow> (RepDone, s'))"
| "serve svc c (ReqFind i) s =
     (case FindTodoById svc c i s of (Inl e, s') \<Rightarrow> (RepError e, s') | (Inr t, s') \<Rightarrow> (RepTodo t, s'))"
| "serve svc c ReqList s =
     (case ListAllTodos svc c s of (Inl e, s') \<Rightarrow> (RepError e, s') | (Inr ts, s') \<Rightarrow> (RepTodos (set ts), s'))"
| "serve svc c ReqSummary s =
     (case Summary svc c s of (Inl e, s') \<Rightarrow> (RepError e, s')
      | (Inr m, s') \<Rightarrow> (RepCounts (sm_Total m) (sm_Completed m) (sm_Outstanding m), s'))"

text \<open>The reference: who may ask is decided first, then the map answers.\<close>

type_synonym todo_map = "uuid \<Rightarrow> Todo option"

definition spec_lookup :: "string \<Rightarrow> (uuid \<Rightarrow> Todo \<Rightarrow> todo_reply \<times> todo_map) \<Rightarrow> todo_map \<Rightarrow> todo_reply \<times> todo_map" where
  "spec_lookup t k m =
     (case uuid_Parse t of
        Inl _ \<Rightarrow> (RepError (Errorf_w (Sentinel ErrBadRequest) ''invalid todo id''), m)
      | Inr i \<Rightarrow>
          (case m i of
             None \<Rightarrow> (RepError (Errorf_w (Sentinel ErrNotFound) ''todo not found''), m)
           | Some x \<Rightarrow> k i x))"

abbreviation no_label :: goerr where
  "no_label \<equiv> Errorf_w (Sentinel ErrValidation) ''label is required''"

fun spec_answer :: "todo_request \<Rightarrow> todo_map \<Rightarrow> todo_reply \<times> todo_map" where
  "spec_answer (ReqCreate req now i) m =
     (if tp_Label req = '''' then (RepError no_label, m)
      else let t = \<lparr>td_TodoID = i, td_CreatedAt = now, td_UpdatedAt = now, td_Label = tp_Label req,
                    td_Completed = tp_Completed req\<rparr> in (RepTodo t, m(i \<mapsto> t)))"
| "spec_answer (ReqUpdate i req now) m =
     (if tp_Label req = '''' then (RepError no_label, m)
      else spec_lookup i (\<lambda>k x.
        let t = x\<lparr>td_Label := tp_Label req, td_Completed := tp_Completed req, td_UpdatedAt := now\<rparr>
        in (RepTodo t, m(k \<mapsto> t))) m)"
| "spec_answer (ReqDelete i) m = spec_lookup i (\<lambda>k x. (RepDone, m(k := None))) m"
| "spec_answer (ReqFind i) m = spec_lookup i (\<lambda>k x. (RepTodo x, m)) m"
| "spec_answer ReqList m = (RepTodos (ran m), m)"
| "spec_answer ReqSummary m =
     (let n = int (card (ran m)); k = int (card {t \<in> ran m. td_Completed t}) in (RepCounts n k (n - k), m))"

definition spec_serve :: "bool \<Rightarrow> ctx \<Rightarrow> todo_request \<Rightarrow> todo_map \<Rightarrow> todo_reply \<times> todo_map" where
  "spec_serve dis c rq m =
     (if authenticated dis c then spec_answer rq m
      else (RepError (Errorf_w (Sentinel ErrPermissionDenied) ''authentication required''), m))"

text \<open>A created todo gets an id that is not in use: \<open>uuid.New\<close> draws 122 random bits.\<close>

fun fresh_request :: "todo_request \<Rightarrow> todo_map \<Rightarrow> bool" where
  "fresh_request (ReqCreate req now i) m \<longleftrightarrow> m i = None"
| "fresh_request _ m \<longleftrightarrow> True"

text \<open>
  Histories: each request comes with the context of its caller and with what the service
  draws from the environment while serving it (the job id and the clocks of an enqueue).
\<close>

fun serve_all :: "('e \<Rightarrow> 's TodoService) \<Rightarrow> ('e \<times> ctx \<times> todo_request) list \<Rightarrow> 's \<Rightarrow> todo_reply list \<times> 's" where
  "serve_all svc [] s = ([], s)"
| "serve_all svc ((env, c, rq) # rqs) s =
     (case serve (svc env) c rq s of (r, s1) \<Rightarrow> (case serve_all svc rqs s1 of (rs, s2) \<Rightarrow> (r # rs, s2)))"

fun spec_serve_all :: "bool \<Rightarrow> ('e \<times> ctx \<times> todo_request) list \<Rightarrow> todo_map \<Rightarrow> todo_reply list \<times> todo_map" where
  "spec_serve_all dis [] m = ([], m)"
| "spec_serve_all dis ((env, c, rq) # rqs) m =
     (case spec_serve dis c rq m of (r, m1) \<Rightarrow>
        (case spec_serve_all dis rqs m1 of (rs, m2) \<Rightarrow> (r # rs, m2)))"

fun fresh_requests :: "bool \<Rightarrow> ('e \<times> ctx \<times> todo_request) list \<Rightarrow> todo_map \<Rightarrow> bool" where
  "fresh_requests dis [] m \<longleftrightarrow> True"
| "fresh_requests dis ((env, c, rq) # rqs) m \<longleftrightarrow>
     fresh_request rq m \<and> fresh_requests dis rqs (snd (spec_serve dis c rq m))"

context todo_service
begin

lemma serve_denied:
  assumes "\<not> authenticated (ts_authDisabled svc) c"
  shows "serve svc c rq s =
    (RepError (Errorf_w (Sentinel ErrPermissionDenied) ''authentication required''), s)"
  using authorize_Some [OF assms]
  by (cases rq) (simp_all add: CreateTodo_def UpdateTodo_def DeleteTodo_def FindTodoById_def
      ListAllTodos_def Summary_def)

lemma serve_create:
  assumes "invar s" and "healthy s" and "authenticated (ts_authDisabled svc) c"
    and "tp_Label req \<noteq> ''''" and "view s i = None"
  shows "\<exists>s'. serve svc c (ReqCreate req now i) s = (fst (spec_answer (ReqCreate req now i) (view s)), s') \<and>
    view s' = snd (spec_answer (ReqCreate req now i) (view s)) \<and> invar s' \<and> healthy s'"
proof -
  from service_create_healthy [OF assms(1,2,5,3,4), of now] obtain t s'
    where cr: "CreateTodo svc c req now i s = (Inr t, s')" and h: "healthy s'" by blast
  with service_create_Inr(3-5) [OF assms(1) cr] assms(4) show ?thesis by (simp add: Let_def)
qed

lemma serve_update:
  assumes "invar s" and "healthy s" and "authenticated (ts_authDisabled svc) c" and "tp_Label req \<noteq> ''''"
  shows "\<exists>s'. serve svc c (ReqUpdate i req now) s = (fst (spec_answer (ReqUpdate i req now) (view s)), s') \<and>
    view s' = snd (spec_answer (ReqUpdate i req now) (view s)) \<and> invar s' \<and> healthy s'"
proof (cases "uuid_Parse i")
  case (Inl e)
  then show ?thesis using assms by (simp add: UpdateTodo_def spec_lookup_def)
next
  case (Inr k)
  let ?q = "\<lparr>up_TodoID = k, up_UpdatedAt = now, up_Label = tp_Label req, up_Completed = tp_Completed req\<rparr>"
  show ?thesis
  proof (cases "view s k")
    case None
    then show ?thesis using assms Inr update_missing [OF assms(1,2), of ?q]
      by (simp add: UpdateTodo_def svc_store spec_lookup_def)
  next
    case (Some t0)
    with update_healthy [OF assms(1,2), of ?q t0] obtain s'
      where st: "st_UpdateTodo st ?q s = (Inr (updated_todo ?q t0), s')" and h: "healthy s'" by auto
    with update_Inr [OF assms(1) st] update_invar [OF assms(1) st] Some Inr assms show ?thesis
      by (auto simp: UpdateTodo_def svc_store spec_lookup_def updated_todo_def Let_def)
  qed
qed

lemma serve_delete:
  assumes "invar s" and "healthy s" and "authenticated (ts_authDisabled svc) c"
  shows "\<exists>s'. serve svc c (ReqDelete i) s = (fst (spec_answer (ReqDelete i) (view s)), s') \<and>
    view s' = snd (spec_answer (ReqDelete i) (view s)) \<and> invar s' \<and> healthy s'"
proof (cases "uuid_Parse i")
  case (Inl e)
  then show ?thesis using assms by (simp add: DeleteTodo_def spec_lookup_def)
next
  case (Inr k)
  show ?thesis
  proof (cases "view s k")
    case None
    then show ?thesis using assms Inr by (simp add: DeleteTodo_def svc_store spec_lookup_def find_healthy)
  next
    case (Some t0)
    with delete_healthy [OF assms(1,2), of k t0] obtain s'
      where st: "st_DeleteTodo st k s = (None, s')" and h: "healthy s'" by auto
    with delete_None [OF assms(1) st] delete_invar [OF assms(1) st] Some Inr assms show ?thesis
      by (simp add: DeleteTodo_def svc_store spec_lookup_def find_healthy)
  qed
qed

lemma serve_reads:
  assumes "invar s" and "healthy s" and "authenticated (ts_authDisabled svc) c"
  shows "serve svc c (ReqFind i) s = (fst (spec_answer (ReqFind i) (view s)), s)"
    and "serve svc c ReqList s = (fst (spec_answer ReqList (view s)), s)"
    and "serve svc c ReqSummary s = (fst (spec_answer ReqSummary (view s)), s)"
proof -
  show "serve svc c (ReqFind i) s = (fst (spec_answer (ReqFind i) (view s)), s)"
    using assms by (simp add: FindTodoById_def svc_store spec_lookup_def find_healthy split: sum.splits option.splits)
  obtain ts where ts: "st_ListAllTodos st s = (Inr ts, s)" using list_healthy [OF assms(1,2)] by blast
  with list_Inr [OF assms(1) ts] show "serve svc c ReqList s = (fst (spec_answer ReqList (view s)), s)"
    using assms by (simp add: ListAllTodos_def svc_store)
  obtain m where m: "st_CountTodos st s = (Inr m, s)" using count_healthy [OF assms(1,2)] by blast
  with count_Inr [OF assms(1) m] show "serve svc c ReqSummary s = (fst (spec_answer ReqSummary (view s)), s)"
    using assms by (simp add: Summary_def svc_store Let_def)
qed

text \<open>The simulation step: the service and the reference agree, and stay in step.\<close>

lemma serve_refines:
  assumes "invar s" and "healthy s" and "fresh_request rq (view s)"
  shows "\<exists>s'. serve svc c rq s = (fst (spec_serve (ts_authDisabled svc) c rq (view s)), s') \<and>
    view s' = snd (spec_serve (ts_authDisabled svc) c rq (view s)) \<and> invar s' \<and> healthy s'"
proof (cases "authenticated (ts_authDisabled svc) c")
  case False
  with assms show ?thesis by (simp add: serve_denied spec_serve_def)
next
  case auth: True
  then have spec: "spec_serve (ts_authDisabled svc) c rq (view s) = spec_answer rq (view s)"
    by (simp add: spec_serve_def)
  show ?thesis unfolding spec
  proof (cases rq)
    case (ReqCreate req now i)
    with assms serve_create [OF assms(1,2) auth, of req i now] auth
    show "\<exists>s'. serve svc c rq s = (fst (spec_answer rq (view s)), s') \<and>
        view s' = snd (spec_answer rq (view s)) \<and> invar s' \<and> healthy s'"
      by (cases "tp_Label req = ''''") (simp_all add: CreateTodo_def)
  next
    case (ReqUpdate i req now)
    with assms serve_update [OF assms(1,2) auth, of req i now] auth
    show "\<exists>s'. serve svc c rq s = (fst (spec_answer rq (view s)), s') \<and>
        view s' = snd (spec_answer rq (view s)) \<and> invar s' \<and> healthy s'"
      by (cases "tp_Label req = ''''") (simp_all add: UpdateTodo_def)
  next
    case (ReqDelete i)
    with serve_delete [OF assms(1,2) auth, of i]
    show "\<exists>s'. serve svc c rq s = (fst (spec_answer rq (view s)), s') \<and>
        view s' = snd (spec_answer rq (view s)) \<and> invar s' \<and> healthy s'" by simp
  next
    case (ReqFind i)
    with assms serve_reads(1) [OF assms(1,2) auth, of i]
    show "\<exists>s'. serve svc c rq s = (fst (spec_answer rq (view s)), s') \<and>
        view s' = snd (spec_answer rq (view s)) \<and> invar s' \<and> healthy s'"
      by (simp add: spec_lookup_def split: sum.splits option.splits)
  qed (use assms serve_reads(2,3) [OF assms(1,2) auth] in \<open>simp_all add: Let_def del: serve.simps\<close>)
qed

end

text \<open>Step by step, the simulation carries over to histories.\<close>

lemma serve_all_refines:
  assumes step: "\<And>env c rq s. invar s \<Longrightarrow> healthy s \<Longrightarrow> fresh_request rq (view s) \<Longrightarrow>
      \<exists>s'. serve (svc env) c rq s = (fst (spec_serve dis c rq (view s)), s') \<and>
        view s' = snd (spec_serve dis c rq (view s)) \<and> invar s' \<and> healthy s'"
    and "invar s" and "healthy s" and "fresh_requests dis rqs (view s)"
  shows "\<exists>s'. serve_all svc rqs s = (fst (spec_serve_all dis rqs (view s)), s') \<and>
    view s' = snd (spec_serve_all dis rqs (view s)) \<and> invar s' \<and> healthy s'"
  using assms(2-4)
proof (induction rqs arbitrary: s)
  case (Cons x rqs)
  obtain env c rq where x: "x = (env, c, rq)" by (cases x)
  let ?a = "spec_serve dis c rq (view s)"
  from step [OF Cons.prems(1,2), of rq env c] Cons.prems(3) x obtain s1
    where s1: "serve (svc env) c rq s = (fst ?a, s1)" "view s1 = snd ?a" "invar s1" "healthy s1" by auto
  from Cons.IH [OF s1(3,4)] Cons.prems(3) x s1(2) obtain s2
    where "serve_all svc rqs s1 = (fst (spec_serve_all dis rqs (snd ?a)), s2)"
      "view s2 = snd (spec_serve_all dis rqs (snd ?a))" "invar s2" "healthy s2" by auto
  with x s1(1) show ?case by (simp add: case_prod_beta)
qed simp

lemma fake_histories:
  assumes "fake_todos_ok f" and "fresh_requests dis rqs (map_of f)"
  shows "\<exists>f'. serve_all (\<lambda>_. NewTodoService FakeTodoStore None dis) rqs f =
      (fst (spec_serve_all dis rqs (map_of f)), f') \<and>
    map_of f' = snd (spec_serve_all dis rqs (map_of f)) \<and> fake_todos_ok f' \<and> True"
proof (rule serve_all_refines [where invar = fake_todos_ok and healthy = "\<lambda>_. True" and view = map_of])
  fix env :: 'a and c rq and s :: fake_todos
  assume "fake_todos_ok s" and "fresh_request rq (map_of s)"
  then show "\<exists>s'. serve (NewTodoService FakeTodoStore None dis) c rq s =
      (fst (spec_serve dis c rq (map_of s)), s') \<and>
    map_of s' = snd (spec_serve dis c rq (map_of s)) \<and> fake_todos_ok s' \<and> True"
    using fake_svc.serve_refines [of s rq dis c] by simp
qed (use assms in simp_all)

lemma app_histories:
  assumes "pg_todos_ok d" and "net d = []" and "fresh_requests (ac_Disabled (cfg_Auth cfg)) rqs (pg_todos_view d)"
  shows "\<exists>d'. serve_all (app_todos fmtTime cfg) rqs d =
      (fst (spec_serve_all (ac_Disabled (cfg_Auth cfg)) rqs (pg_todos_view d)), d') \<and>
    pg_todos_view d' = snd (spec_serve_all (ac_Disabled (cfg_Auth cfg)) rqs (pg_todos_view d)) \<and>
    pg_todos_ok d' \<and> db_healthy d'"
proof (rule serve_all_refines [where invar = pg_todos_ok and healthy = db_healthy and view = pg_todos_view])
  fix env c rq and s :: db
  assume "pg_todos_ok s" and "db_healthy s" and "fresh_request rq (pg_todos_view s)"
  then show "\<exists>s'. serve (app_todos fmtTime cfg env) c rq s =
      (fst (spec_serve (ac_Disabled (cfg_Auth cfg)) c rq (pg_todos_view s)), s') \<and>
    pg_todos_view s' = snd (spec_serve (ac_Disabled (cfg_Auth cfg)) c rq (pg_todos_view s)) \<and>
    pg_todos_ok s' \<and> db_healthy s'"
    using app_todos.serve_refines [of s rq fmtTime cfg env c] by (simp add: app_todos_def)
qed (use assms in \<open>simp_all add: db_healthy_def\<close>)

end
