(* ===== verification/Witness_Data.thy ===== *)
theory Witness_Data
  imports Consequences History Recovery Process Render Todos_Refinement
begin

text \<open>
  Concrete configurations, databases, principals and workers at which the properties of
  the root theory are instantiated, with the simplification rules that evaluate them.
\<close>

text \<open>The configuration of an empty environment, and small identifiers.\<close>

definition default_cfg :: "unit Config" where
  "default_cfg = read_config (\<lambda>_. None) () (\<lambda>_. '''')"

definition small_id :: "byte \<Rightarrow> uuid" where
  "small_id b = UUID 0 0 0 0 0 0 0 0 0 0 0 0 0 0 0 b"

lemma small_id_inject [simp]: "small_id a = small_id b \<longleftrightarrow> a = b"
  by (simp add: small_id_def)

lemma default_cfg_simps [simp]:
  "ac_Disabled (cfg_Auth default_cfg)"
  "q_maxAttempts (app_queue0 default_cfg) = 5"
  "rsv_reconcileAfter (app_reports default_cfg) = Minute"
  "rsv_processingLease (app_reports default_cfg) = 5 * Minute"
  by (simp_all add: default_cfg_def read_config_def boolEnv_def intEnv_def read_env_def
      app_queue0_def NewQueue_def app_reports_def NewReportService_def durationEnv_def)

lemma empty_db_simps [simp]:
  "net empty_db = []" "platform_jobs empty_db = []" "todos_todos empty_db = []"
  "pg_reports_ok empty_db" "pg_reports_view empty_db i = None" "jobs_ok empty_db"
  "pg_todos_ok empty_db" "pg_todos_view empty_db i = None"
  by (simp_all add: empty_db_def pg_reports_ok_def pg_reports_view_def reports_view_def
      pg_todos_ok_def pg_todos_view_def todos_view_def jobs_ok_def)

definition as_user :: "string \<Rightarrow> ctx" where
  "as_user u = WithPrincipal Background \<lparr>UserID = u, Roles = [''user''], AuthMethod = ''cookie''\<rparr>"

text \<open>A database that holds one report.\<close>

definition one_report_db :: "Report \<Rightarrow> db" where
  "one_report_db r = empty_db\<lparr>reports_reports := [report_row r]\<rparr>"

definition sample_report :: Report where
  "sample_report = new_report (small_id 1) \<lparr>UserID = ''u'', Roles = [], AuthMethod = ''''\<rparr>
     \<lparr>cr_Type = TypeTodoSummary\<rparr> 50"

lemma one_report_simps [simp]:
  "pg_reports_ok (one_report_db r)" "net (one_report_db r) = []" "platform_jobs (one_report_db r) = []"
  "pg_reports_view (one_report_db r) = [rp_ReportID r \<mapsto> mapReport (report_row r)]"
  by (auto simp add: one_report_db_def pg_reports_ok_def pg_reports_view_def reports_view_def keyed_def
      empty_db_def report_row_def fun_eq_iff)

lemma sample_report_simps [simp]:
  "rp_ReportID sample_report = small_id 1" "rp_Status sample_report = StatusPending"
  "mapReport (report_row sample_report) = sample_report" "rp_Type sample_report = TypeTodoSummary"
  "claimable stale sample_report" "supportedType TypeTodoSummary" "rp_UpdatedAt sample_report = 50"
  "rp_OwnerUserID sample_report = ''u''"
  by (simp_all add: sample_report_def new_report_def mapReport_def report_row_def nullTime_def
      nullString_def claimable_def supportedType_def)

text \<open>Workers on that report, before and after the claim.\<close>

definition start_sys :: "Report \<Rightarrow> sys" where
  "start_sys r = \<lparr>sy_table = [rp_ReportID r \<mapsto> r], sy_worker = (\<lambda>_. Out), sy_clock = 60\<rparr>"

definition claimed_sys :: "Report \<Rightarrow> nat \<Rightarrow> sys" where
  "claimed_sys r n = \<lparr>sy_table = [rp_ReportID r \<mapsto> claimed 70 r],
     sy_worker = (\<lambda>_. Out)(n := Work (rp_ReportID r) (rp_Type r) 70), sy_clock = 70\<rparr>"

lemma start_sys_ok: "sys_ok (start_sys sample_report)"
  using wf_new [of "small_id 1" _ _ 50]
  by (simp add: sys_ok_def start_sys_def table_ok_def pc_ok_def) (simp add: sample_report_def)

lemma start_sys_runs: "sys_step 100 (start_sys sample_report)
  ((start_sys sample_report)\<lparr>sy_worker := (\<lambda>_. Out)(0 := Fetch (small_id 1)), sy_clock := 70\<rparr>)"
  using sys_step.work [of 100 70 "start_sys sample_report" 0 "sy_table (start_sys sample_report)" "Fetch (small_id 1)"]
    gstep.deliver [of 100 70 "sy_table (start_sys sample_report)" "small_id 1"]
  by (simp add: start_sys_def)

lemma timely_run:
  "(timely_step 100)\<^sup>*\<^sup>* (start_sys sample_report) (claimed_sys sample_report 0)"
proof -
  let ?T = "sy_table (start_sys sample_report)"
  let ?s1 = "(start_sys sample_report)\<lparr>sy_worker := (\<lambda>_. Out)(0 := Fetch (small_id 1)), sy_clock := 70\<rparr>"
  let ?s2 = "(start_sys sample_report)\<lparr>sy_worker := (\<lambda>_. Out)(0 := Claim (small_id 1) TypeTodoSummary), sy_clock := 70\<rparr>"
  have "timely_step 100 (start_sys sample_report) ?s1"
    using start_sys_runs by (rule timely_step.step) (simp add: start_sys_def)
  moreover have "timely_step 100 ?s1 ?s2"
  proof (rule timely_step.step)
    show "sys_step 100 ?s1 ?s2"
      using sys_step.work [of 100 70 ?s1 0 ?T "Claim (small_id 1) TypeTodoSummary"]
        gstep.fetch [of ?T "small_id 1" sample_report 100 70] by (simp add: start_sys_def)
  qed (simp add: start_sys_def split: if_splits)
  moreover have "timely_step 100 ?s2 (claimed_sys sample_report 0)"
  proof (rule timely_step.step)
    show "sys_step 100 ?s2 (claimed_sys sample_report 0)"
      using sys_step.work [of 100 70 ?s2 0 "?T(small_id 1 \<mapsto> claimed 70 sample_report)"
          "Work (small_id 1) TypeTodoSummary 70"]
        gstep.claim [of ?T "small_id 1" sample_report 70 100 TypeTodoSummary]
      by (simp add: start_sys_def claimed_sys_def)
  qed (simp add: start_sys_def split: if_splits)
  ultimately show ?thesis by (meson converse_rtranclp_into_rtranclp r_into_rtranclp)
qed

text \<open>Fakes that fail and that stay quiet.\<close>

definition failing_summary :: FakeSummary where
  "failing_summary = \<lparr>fs_Value = \<lparr>su_Total = 0, su_Completed = 0, su_Outstanding = 0\<rparr>,
     fs_Err = Some (OtherErr ''boom'')\<rparr>"

definition quiet_enqueuer :: FakeEnqueuer where
  "quiet_enqueuer = \<lparr>fe_Err = None, fe_Calls = 0, fe_LastJob = '''', fe_Payloads = []\<rparr>"

text \<open>A report that a crashed worker has claimed, and its job with the lock of that worker.\<close>

definition one_job_db :: "Job \<Rightarrow> Report \<Rightarrow> db" where
  "one_job_db j r = (one_report_db r)\<lparr>platform_jobs := [j]\<rparr>"

definition crashed_job :: Job where
  "crashed_job = lock_job 70 (generate_job (app_queue0 default_cfg)
     \<lparr>ee_id = small_id 2, ee_now = 50, ee_server = 51\<rparr> (small_id 1))"

lemma one_job_simps [simp]:
  "pg_reports_ok (one_job_db j r)" "net (one_job_db j r) = []" "platform_jobs (one_job_db j r) = [j]"
  "pg_reports_view (one_job_db j r) = [rp_ReportID r \<mapsto> mapReport (report_row r)]"
  "todos_todos (one_job_db j r) = []"
  using one_report_simps [of r]
  by (simp_all add: one_job_db_def pg_reports_ok_def pg_reports_view_def) (simp add: one_report_db_def empty_db_def)

lemma crashed_job_simps [simp]:
  "job_id crashed_job = small_id 2" "job_type crashed_job = JobGenerate"
  "job_attempts crashed_job = 1" "job_max_attempts crashed_job = 5" "job_completed_at crashed_job = None"
  "job_run_at crashed_job = 50" "job_locked_until crashed_job = Some 300000000070"
  "unmarshal_GenerateReportJob (job_payload crashed_job) = Inr \<lparr>gj_ReportID = small_id 1\<rparr>"
  using payload_round_trip [of "\<lparr>gj_ReportID = small_id 1\<rparr>"]
  by (simp_all add: crashed_job_def lock_job_def generate_job_def marshal_GenerateReportJob_def)

lemma next_crashed_job: "300000000070 < t \<Longrightarrow> next_job t [crashed_job] = Some crashed_job"
  using next_job_singleton [of "[]" t crashed_job] by (simp add: job_due_def)

lemma claimed_sample_simps [simp]:
  "rp_ReportID (claimed at sample_report) = small_id 1" "rp_Status (claimed at sample_report) = StatusProcessing"
  "rp_ProcessingStartedAt (claimed at sample_report) = Some at"
  "mapReport (report_row (claimed at sample_report)) = claimed at sample_report"
  by (simp_all add: claimed_def processing_def sample_report_def new_report_def mapReport_def report_row_def
      nullTime_def nullString_def)

lemma crashed_jobs_ok [simp]: "jobs_ok (one_job_db crashed_job r)" "job_budget [crashed_job] = 4"
  by (simp_all add: jobs_ok_def job_inv_def keyed_def int4_range_def job_budget_def)

text \<open>A job with two attempts and the ticks that deliver it while the summary is refused.\<close>

definition two_attempts_job :: Job where
  "two_attempts_job = (generate_job (app_queue0 default_cfg)
     \<lparr>ee_id = small_id 2, ee_now = 50, ee_server = 51\<rparr> (small_id 1))\<lparr>job_max_attempts := 2\<rparr>"

definition two_attempts_db :: "string \<Rightarrow> db" where
  "two_attempts_db m = (one_job_db two_attempts_job sample_report)\<lparr>net := outage m @ outage m\<rparr>"

definition two_ticks :: "(job_env \<times> time \<times> time) list" where
  "two_ticks = [(\<lparr>je_now = 75, je_later = 76\<rparr>, 70, 80),
     (\<lparr>je_now = 60000000095, je_later = 60000000096\<rparr>, 60000000090, 60000000099)]"

lemma length_two_ticks: "length two_ticks = 2"
  by (simp add: two_ticks_def)

lemma two_attempts:
  "waiting (small_id 1) two_attempts_job (two_attempts_db m)"
  "length two_ticks = nat (job_max_attempts two_attempts_job - job_attempts two_attempts_job)"
  "net (two_attempts_db m) = concat (replicate (length two_ticks) (outage m))"
  "backs_off (job_attempts two_attempts_job) (job_run_at two_attempts_job) two_ticks"
proof -
  have j: "job_completed_at two_attempts_job = None" "job_locked_until two_attempts_job = None" "job_attempts two_attempts_job = 0"
    "job_max_attempts two_attempts_job = 2" "job_run_at two_attempts_job = 50"
    by (simp_all add: two_attempts_job_def generate_job_def)
  have "job_type two_attempts_job = JobGenerate"
    "unmarshal_GenerateReportJob (job_payload two_attempts_job) = Inr \<lparr>gj_ReportID = small_id 1\<rparr>"
    by (simp_all add: two_attempts_job_def)
  with j show "waiting (small_id 1) two_attempts_job (two_attempts_db m)"
    by (simp add: waiting_def two_attempts_db_def)
  show "length two_ticks = nat (job_max_attempts two_attempts_job - job_attempts two_attempts_job)"
    "net (two_attempts_db m) = concat (replicate (length two_ticks) (outage m))"
    "backs_off (job_attempts two_attempts_job) (job_run_at two_attempts_job) two_ticks"
    using j by (simp_all add: two_ticks_def two_attempts_db_def)
qed

lemma db_ok_sample: "db_ok ((one_job_db crashed_job sample_report)\<lparr>net := xs\<rparr>)"
proof -
  let ?d = "one_job_db crashed_job sample_report"
  have "report_wf sample_report" using wf_new [of "small_id 1" _ _ 50] by (simp only: sample_report_def)
  then have "table_ok (pg_reports_view ?d)" by (simp add: table_ok_def split: if_splits)
  moreover have "pg_auth_ok ?d"
    by (simp add: one_job_db_def one_report_db_def empty_db_def pg_auth_ok_def)
  moreover have "jobs_ok ?d" by simp
  moreover have "pg_todos_ok ?d" by (simp add: pg_todos_ok_def)
  ultimately show ?thesis by (simp add: db_ok_def ok_by_tables [of "?d\<lparr>net := xs\<rparr>" ?d])
qed

text \<open>A job of a type the worker has no handler for.\<close>

definition stray_job :: Job where
  "stray_job = crashed_job\<lparr>job_type := ''mail.send''\<rparr>"

lemma stray_job_simps [simp]:
  "job_id stray_job = small_id 2" "job_type stray_job = ''mail.send''"
  "q_handlers (app_queue cfg) ''mail.send'' = None"
  by (simp_all add: stray_job_def app_queue_def app_queue0_def Register_def NewQueue_def JobGenerate_def)

lemma next_stray_job: "300000000070 < t \<Longrightarrow> next_job t [stray_job] = Some stray_job"
  using next_job_singleton [of "[]" t stray_job] by (simp add: job_due_def stray_job_def)

text \<open>A history of two users and a stranger.\<close>

definition sample_history :: "(enq_env \<times> ctx \<times> todo_request) list" where
  "sample_history =
    [(\<lparr>ee_id = small_id 11, ee_now = 5, ee_server = 6\<rparr>, as_user ''u'',
        ReqCreate \<lparr>tp_Label = ''milk'', tp_Completed = False\<rparr> 5 (small_id 1)),
     (\<lparr>ee_id = small_id 12, ee_now = 7, ee_server = 8\<rparr>, as_user ''v'',
        ReqUpdate (uuid_String (small_id 1)) \<lparr>tp_Label = ''milk'', tp_Completed = True\<rparr> 7),
     (\<lparr>ee_id = small_id 13, ee_now = 9, ee_server = 9\<rparr>, as_user ''u'', ReqSummary)]"

text \<open>A database that holds one todo.\<close>

definition sample_todo :: Todo where
  "sample_todo = \<lparr>td_TodoID = small_id 1, td_CreatedAt = 5, td_UpdatedAt = 5, td_Label = ''a'', td_Completed = False\<rparr>"

definition one_todo_db :: db where
  "one_todo_db = empty_db\<lparr>todos_todos := [\<lparr>tt_TodoID = small_id 1, tt_CreatedAt = 5, tt_UpdatedAt = 5,
     tt_Label = ''a'', tt_Completed = False\<rparr>]\<rparr>"

lemma one_todo_simps [simp]:
  "net one_todo_db = []" "pg_todos_ok one_todo_db" "pg_todos_view one_todo_db = [small_id 1 \<mapsto> sample_todo]"
  by (auto simp: one_todo_db_def sample_todo_def empty_db_def pg_todos_ok_def pg_todos_view_def todos_view_def
      mapTodo_def keyed_def fun_eq_iff)

text \<open>A bcrypt that meets the law, and a configuration with authentication on.\<close>

definition plain_bcrypt :: bcrypt where
  "plain_bcrypt = \<lparr>bc_Generate = (\<lambda>salt pw cost. Inr (''h:'' @ pw)),
     bc_Compare = (\<lambda>h pw. if h = ''h:'' @ pw then None else Some (OtherErr ''mismatch''))\<rparr>"

lemma plain_bcrypt_law [simp]: "bcrypt_law plain_bcrypt"
  by (simp add: bcrypt_law_def plain_bcrypt_def)

lemma plain_bcrypt_simps [simp]:
  "bc_Generate plain_bcrypt salt pw cost = Inr (''h:'' @ pw)"
  "bc_Compare plain_bcrypt h pw = None \<longleftrightarrow> h = ''h:'' @ pw"
  by (simp_all add: plain_bcrypt_def)

lemma empty_auth_simps [simp]:
  "pg_auth_ok empty_db"
  "pg_auth_view empty_db = \<lparr>av_users = (\<lambda>_. None), av_emails = (\<lambda>_. None), av_sessions = (\<lambda>_. None),
     av_token_ids = {}, av_tokens = (\<lambda>_. None)\<rparr>"
  by (simp_all add: pg_auth_ok_def pg_auth_view_def empty_db_def)

definition auth_cfg :: "unit Config" where
  "auth_cfg = read_config (\<lambda>_. None) () (\<lambda>k. if k = ''AUTH_DISABLED'' then ''false'' else '''')"

lemma auth_cfg_simps [simp]:
  "\<not> ac_Disabled (cfg_Auth auth_cfg)" "ac_SessionCookie (cfg_Auth auth_cfg) = ''session_id''"
  "ac_CSRFCookieName (cfg_Auth auth_cfg) = ''csrf_token''" "ac_SessionTTL (cfg_Auth auth_cfg) = 24 * Hour"
  "ac_TokenTTL (cfg_Auth auth_cfg) = 24 * Hour"
  by (simp_all add: auth_cfg_def read_config_def boolEnv_def durationEnv_def getenv_def read_env_def ParseBool_def)

text \<open>A request that carries nothing.\<close>

definition bare_request :: "string \<Rightarrow> string \<Rightarrow> string \<Rightarrow> Request" where
  "bare_request meth path route = \<lparr>rq_Method = meth, rq_URLPath = path, rq_Route = route,
     rq_Param = (\<lambda>_. ''''), rq_Header = (\<lambda>_. ''''), rq_Cookies = [], rq_FormValue = (\<lambda>_. ''''),
     rq_BasicAuth = None, rq_ContentLength = 0, rq_RemoteAddr = '''', rq_Allow = '''', rq_BindTodo = Inl (OtherErr ''EOF''),
     rq_BindReport = Inl (OtherErr ''EOF''), rq_BindCreds = Inl (OtherErr ''EOF'')\<rparr>"

lemma bare_request_simps [simp]:
  "rq_Method (bare_request m p r) = m" "rq_URLPath (bare_request m p r) = p" "rq_Route (bare_request m p r) = r"
  "rq_Header (bare_request m p r) h = ''''" "rq_Cookies (bare_request m p r) = []"
  "rq_ContentLength (bare_request m p r) = 0"
  "rq_FormValue (bare_request m p r) h = ''''" "rq_BasicAuth (bare_request m p r) = None"
  by (simp_all add: bare_request_def)

definition cookie_echo :: "uuid \<Rightarrow> echo" where
  "cookie_echo i = new_echo ((bare_request ''GET'' ''/app/todos'' ''/app/todos'')
     \<lparr>rq_Cookies := [(''session_id'', uuid_String i)]\<rparr>) Background"

lemma cookie_echo_simps [simp]:
  "rq_Header (ec_req (cookie_echo i)) h = ''''" "cookie (cookie_echo i) ''session_id'' = Some (uuid_String i)"
  "ToLower '''' = ''''" "\<not> HasPrefix '''' ''bearer ''"
  by (simp_all add: cookie_echo_def new_echo_def cookie_def ToLower_def HasPrefix_def)

text \<open>A database with one user and an open session of theirs.\<close>

definition sample_user :: User where
  "sample_user = \<lparr>us_UserID = small_id 1, us_Email = ''a@b'', us_PasswordHash = ''h:secret'', us_Roles = [''user''],
     us_CreatedAt = 5\<rparr>"

definition session_db :: db where
  "session_db = empty_db\<lparr>
     auth_users := [\<lparr>au_UserID = small_id 1, au_Email = ''a@b'', au_PasswordHash = ''h:secret'', au_Roles = [''user''],
                     au_CreatedAt = 5\<rparr>],
     auth_sessions := [\<lparr>as_SessionID = small_id 2, as_UserID = small_id 1, as_ExpiresAt = 100, as_CreatedAt = 10\<rparr>]\<rparr>"

lemma session_db_simps [simp]:
  "net session_db = []" "pg_auth_ok session_db"
  "pg_auth_view session_db = \<lparr>av_users = [small_id 1 \<mapsto> sample_user], av_emails = [''a@b'' \<mapsto> sample_user],
     av_sessions = [small_id 2 \<mapsto> \<lparr>se_SessionID = small_id 2, se_UserID = small_id 1, se_ExpiresAt = 100\<rparr>],
     av_token_ids = {}, av_tokens = (\<lambda>_. None)\<rparr>"
  by (auto simp: session_db_def sample_user_def empty_db_def pg_auth_ok_def pg_auth_view_def mapUser_def map_session_def
      keyed_def fun_eq_iff)

lemma sample_user_id [simp]: "us_UserID sample_user = small_id 1"
  by (simp add: sample_user_def)

text \<open>Two embedded files, and requests for them.\<close>

definition sample_assets :: file_server where
  "sample_assets = \<lparr>fl_tree = AssetDir [(''css'', AssetDir [(''app.css'', AssetFile ''body'')]), (''x.js'', AssetFile ''run'')],
     fl_decide = (\<lambda>_ _. Whole)\<rparr>"

definition static_request :: "string \<Rightarrow> Request" where
  "static_request path = (bare_request ''GET'' (''/static'' @ path) ''/static*'')\<lparr>rq_Param := (\<lambda>_. '''')(''*'' := path)\<rparr>"

text \<open>Library parameters of the server that do nothing remarkable, and draws that are all zero.\<close>

definition plain_params :: params where
  "plain_params = \<lparr>pr_bc = plain_bcrypt, pr_codec = \<lparr>fc_enc = (\<lambda>_. None), fc_dec = (\<lambda>_. None)\<rparr>,
     pr_rdr = (\<lambda>_ _. None), pr_statusText = (\<lambda>_. ''status''), pr_fmtTime = (\<lambda>_. Inr ''now''),
     pr_limiter = (\<lambda>_. None), pr_bytes = (\<lambda>_. Some 2097152), pr_size = (\<lambda>_. 0),
     pr_static = sample_assets\<rparr>"

definition plain_mws :: "'f Config \<Rightarrow> 'f middleware list" where
  "plain_mws cfg = the (NewEcho (pr_bytes plain_params) cfg)"

definition zero_draws :: draws where
  "zero_draws = \<lparr>dr_auth_now = 0, dr_csrf = [], dr_now = 0, dr_now' = 0, dr_later = 0, dr_later' = 0,
     dr_id = uuid_Nil, dr_id' = uuid_Nil, dr_random = [], dr_bearer = Inr [],
     dr_enq = \<lparr>ee_id = uuid_Nil, ee_now = 0, ee_server = 0\<rparr>, dr_rid = ''abcdefghijklmnopqrstuvwxyzABCDEF'',
     dr_log_id = uuid_Nil, dr_log = (\<lambda>_. \<lparr>lv_stamp = ''1970-01-01T00:00:00Z'', lv_stack = ''goroutine 1''\<rparr>),
     dr_elapsed = 0\<rparr>"

lemma plain_params_simps [simp]:
  "pr_limiter plain_params req = None" "pr_rdr plain_params = (\<lambda>_ _. None)"
  "pr_bytes plain_params x = Some 2097152"
  "NewEcho (pr_bytes plain_params) cfg = Some (plain_mws cfg)"
  by (simp_all add: plain_params_def plain_mws_def NewEcho_def)

lemma admitted_plain [simp]:
  "admitted plain_params cfg req \<longleftrightarrow> rq_Method req \<noteq> ''OPTIONS'' \<and> rq_ContentLength req \<le> 2097152"
  by (simp add: admitted_def)

text \<open>A production environment that sets nothing but what it must.\<close>

definition production_env :: environ where
  "production_env k = (if k = ''APP_ENV'' then ''production'' else if k = ''AUTH_DISABLED'' then ''false'' else '''')"

lemma production_env_simps:
  "production_env ''METRICS_BASIC_AUTH_USER'' = ''''" "production_env ''METRICS_BASIC_AUTH_PASS'' = ''''"
  "boolEnv production_env ''METRICS_ENABLED'' True" "\<not> boolEnv production_env ''METRICS_PUBLIC'' False"
  "\<not> boolEnv production_env ''AUTH_DISABLED'' True" "production_env ''METRICS_PUBLIC'' = ''''"
  "production_env ''APP_ENV'' = ''production''"
  by (simp_all add: production_env_def boolEnv_def read_env_def ParseBool_def)

lemma production_loads:
  "\<exists>cfg. Load (\<lambda>_. None) () production_env = Inr (cfg :: unit Config) \<and> \<not> mt_Public (cfg_Metrics cfg)"
  unfolding Load_iff
  by (simp add: production_env_simps overrides_frame read_config_sel getenv_default)

text \<open>A request from a page of another origin, and one of a browser for a page that is not there.\<close>

definition from_origin :: "string \<Rightarrow> Request" where
  "from_origin o' = (bare_request ''GET'' ''/healthz'' ''/healthz'')\<lparr>rq_Header := (\<lambda>_. '''')(''Origin'' := o')\<rparr>"

definition browser_request :: Request where
  "browser_request = (bare_request ''GET'' ''/nowhere'' '''')\<lparr>rq_Header := (\<lambda>_. '''')(''Accept'' := ''text/html'')\<rparr>"

text \<open>Templates none of which executes.\<close>

definition broken_params :: params where
  "broken_params = plain_params\<lparr>pr_rdr := (\<lambda>_ _. Some (OtherErr ''template: unexpected EOF''))\<rparr>"

text \<open>A template engine that remembers what it has parsed, and a tree of templates.\<close>

definition list_engine :: "(string \<times> string) list engine" where
  "list_engine = \<lparr>en_new = [], en_parse = (\<lambda>n b t. Inr (t @ [(n, b)])), en_exec = (\<lambda>t n v. (None, n))\<rparr>"

definition sample_tree :: node where
  "sample_tree = Dir None [(''layouts'', Dir None [(''app.html'', File (Inr ''a''))]),
     (''pages'', Dir None [(''README.md'', File (Inr ''r'')), (''x.html'', File (Inr ''x''))])]"

text \<open>Surroundings in which everything works.\<close>

definition plain_boot :: "stop \<Rightarrow> unit boot_env" where
  "plain_boot s = \<lparr>be_load = Inr default_cfg, be_open = None, be_ping = None, be_bytes = (\<lambda>_. Some 2097152),
     be_templates = None, be_static = None, be_stop = s, be_echo_shutdown = None, be_close = None,
     be_log = (\<lambda>_. (\<lparr>lv_stamp = ''1970-01-01T00:00:00Z'', lv_stack = ''goroutine 1''\<rparr>, uuid_Nil))\<rparr>"

end
