(* ===== verification/Spec2Isabelle.thy ===== *)
theory Spec2Isabelle
  imports Witness_Data
begin

text \<open>
  Verification of the Go server template (Echo, sqlc, goose): a modular monolith with three
  domains (\<open>internal/todos\<close>, \<open>internal/reports\<close>, \<open>internal/auth\<close>), a platform layer
  (\<open>internal/platform/*\<close>) and a composition root (\<open>internal/app/app.go\<close>).

  How the program works. HTTP handlers call a domain service; the service checks the
  principal in the context and calls its store, an interface with a Postgres implementation
  and an in-memory one. Creating a todo publishes an event whose subscriber queues an audit
  job; creating a report queues a generation job. A worker polls the job table, claims the
  earliest due job in a transaction, and runs its handler; report generation claims the
  report row with a lease, reads the todo summary and completes the row. A reconcile loop
  queues jobs for pending reports that have not moved.

  Theories and what they model.
  \<^item> \<open>Prelude\<close>: times, row lists with keys, \<open>ORDER BY\<close>, string functions. \<open>Go_Errors\<close>:
    error values, \<open>errors.Is\<close> and \<open>errors.As\<close>. \<open>Uuid\<close>: the vendored \<open>google/uuid\<close>.
    \<open>Platform\<close>: \<open>authn\<close>, \<open>authz\<close>, the values in the context, the event bus.
    \<open>Sha256\<close>: the digest of bearer tokens. \<open>Logging\<close>: \<open>platform/logging\<close>, down to the
    JSON of a line.
  \<^item> \<open>Database\<close>: the tables of \<open>sql/migrations\<close> as lists of rows. The record \<open>db\<close> also
    holds a script of outcomes for the coming statements: served, refused, or executed with
    the reply lost. A theorem over every \<open>db\<close> is a theorem over every pattern of failures;
    \<open>net d = []\<close> says that every statement is served.
  \<^item> \<open>Todos_Store\<close>, \<open>Todos_Postgres\<close>, \<open>Todos_Service\<close>: the port as a record of operations
    with its contract (locale \<open>todo_store\<close>), both implementations and their
    interpretations, the service and its lemmas over any lawful store (locale
    \<open>todo_service\<close>). \<open>Todos_Refinement\<close>: the reference semantics of the service.
  \<^item> \<open>Reports_Store\<close>, \<open>Reports_Postgres\<close>, \<open>Reports_Service\<close>: the same for reports, with
    \<open>Generate\<close>, \<open>handleRetryable\<close> and \<open>ReconcilePending\<close>. \<open>Reports_Lifecycle\<close>: several
    workers interleaved as a step relation, one step per store call.
  \<^item> \<open>Jobs\<close>: the queue. The clock readings of the server are arguments; rows with equal
    \<open>run_at\<close> are taken in table order, one of the orders Postgres may choose. \<open>Run\<close> is a
    fold over the ticks before the cancellation. \<open>Claims\<close>: many workers over one job table,
    statement by statement, with the row locks of the open transactions; it shows that the
    claim may be modelled in one go, what the locks exclude, and that a final update after
    the lock has expired may unlock another worker's job (\<open>late_settlement_unlocks\<close>). A
    \<open>SELECT\<close> there sees the rows as committed when it runs, which is what \<open>FOR UPDATE\<close>
    checks again after locking.
  \<^item> \<open>Config\<close>: \<open>Load\<close>, \<open>Validate\<close>, \<open>strconv\<close> and \<open>time.ParseDuration\<close>.
  \<^item> \<open>Auth_Store\<close>, \<open>Auth_Service\<close>, \<open>Auth_Http\<close>: the port as a simulation of an abstract
    store, the Postgres implementation, the service, the middlewares, API and login page.
  \<^item> \<open>Httpx\<close>, \<open>Domain_Http\<close>: Echo's context as a record, flash cookies, forms, rendering
    helpers, the error handler, the operations endpoints; the handlers of both domains.
    \<open>Render\<close>: the template loader and the functions of the templates. \<open>Static\<close>: the static
    files. \<open>Cors\<close>, \<open>Middleware\<close>: metrics, request logging and the stock middlewares of the
    vendored Echo, as \<open>NewEcho\<close> configures them.
  \<^item> \<open>App\<close>, \<open>Server\<close>: the wiring of \<open>app.New\<close>, the background loops, the route tables, and
    \<open>ServeHTTP\<close>: one request through all middlewares in their order, with the log lines and
    metric samples it leaves behind. \<open>Answers\<close>: what every handler keeps of the headers and
    the request id, and that every handler either writes an answer or returns an error.
  \<^item> \<open>Process\<close>: opening the database, the error paths of \<open>app.New\<close>, \<open>Start\<close>, \<open>Shutdown\<close> and
    the three \<open>main\<close> functions, as sequences of events with an exit status.
  \<^item> \<open>History\<close>: the SQL statements of the program as steps on the database (\<open>statement\<close>), every
    request, tick and reconcile run as a sequence of them, and what every step keeps. Servers
    and workers that share the database interleave these steps. \<open>Recovery\<close>: reconciliation
    and the worker together, and the retries of a job, up to their end.
  \<^item> \<open>Consequences\<close>: further facts about the assembled program that are not listed below.
    \<open>Witness_Data\<close>: the concrete values at which the properties are instantiated.

  What the properties show: reports end to end, under failures and under interleaving (C1 to
  C11), the job queue (C12 to C16), the database under all concurrent operations (C17 and
  C18), the todos (C19 to C22),
  authentication (C23 to C26), the HTTP server (C27 to C35: access, leaks, that every request
  is answered and traced, headers, static files), configuration and flash messages (C36 and
  C37), templates (C38), processes (C39 and C40).

  Bounds and fuel. Every function is total. Numbers of Go's \<open>int\<close> and of SQL are \<open>int\<close>;
  the width matters for \<open>max_attempts\<close> (\<open>int4_range\<close>), for \<open>Atoi\<close> and for
  \<open>ParseDuration\<close> (63 bits), where it is written out. Times are \<open>int\<close> nanoseconds.

  Parameters. Behaviour outside the repository is an argument: bcrypt (with the law that a
  generated hash accepts its password), the template language (\<open>engine\<close>; for the handlers,
  whether executing a template fails), the codec of flash cookies (with the law that decoding
  undoes encoding), \<open>http.StatusText\<close>, \<open>time.Time.MarshalJSON\<close>, \<open>strconv.ParseFloat\<close>,
  \<open>bytes.Parse\<close> of \<open>gommon\<close> for the body limit, the decision of the rate limiter, what
  \<open>http.ServeContent\<close> makes of conditional and range headers, the answers of the database
  driver, the listener and the signals at boot (\<open>boot_env\<close>), the random draws and the
  clocks. Echo's router and body binding are the fields of the record \<open>Request\<close>.

  Not modelled: the log lines that services, the queue and the reconcile loop write (those of
  requests, of \<open>ErrorHandler\<close> and of the processes are); the JSON envelope zap puts around a
  line and the Prometheus exposition format; the template language itself and the content of
  templates and static files; Echo's router; the generated \<open>db.go\<close> files (interfaces and
  constructors without behaviour); the text syntax of JSON (documents are trees); rounding
  of timestamps to microseconds by Postgres; the two-minute timeout of a handler other than
  as a statement that fails; panics of handlers and \<open>Recover\<close> (no handler of the model
  panics).
\<close>

section \<open>Properties across components\<close>

subsection \<open>Report generation, end to end\<close>

text \<open>
  C1. A user who asks for a todo summary on a working system gets it: \<open>CreateReport\<close>
  answers with a pending report, one tick of the worker that finds no older job due
  completes it, and the owner then reads the completed report, whose text carries the
  counts of the todos table.
\<close>

theorem report_end_to_end:
  assumes "pg_reports_ok d" and "net d = []" and "pg_reports_view d rid = None"
    and "ee_id env \<notin> job_id ` set (platform_jobs d)" and "int4_range (q_maxAttempts (app_queue0 cfg))"
    and "authenticated (ac_Disabled (cfg_Auth cfg)) c" and "cr_Type req = TypeTodoSummary"
    and "\<forall>j \<in> set (platform_jobs d). \<not> job_due t j" and "ee_now env \<le> t"
  shows "\<exists>r d1 d2. CreateReport (app_reports cfg) c req now rid env d = (Inr r, d1) \<and>
    rp_Status r = StatusPending \<and>
    processOne (app_queue cfg) jenv Background t t' d1 =
      (\<lparr>jr_err = None, jr_counted = Some (JobGenerate, ''ok'')\<rparr>, d2) \<and>
    GetReport (app_reports cfg) c (uuid_String rid) d2 =
      (Inr (completed (result_text (todo_counts d)) (je_later jenv) (claimed (je_now jenv) r)), d2)"
proof -
  have st: "supportedType (cr_Type req)" by (simp add: supportedType_def assms(7))
  from app_create_report [OF assms(1-6) st, of now] obtain r d1 j
    where cr: "CreateReport (app_reports cfg) c req now rid env d = (Inr r, d1)"
      and r: "r = new_report rid (fst (FromContext c)) req now"
      and d1: "pg_reports_ok d1" "net d1 = []" "pg_reports_view d1 = (pg_reports_view d)(rid \<mapsto> r)"
        "todos_todos d1 = todos_todos d" "platform_jobs d1 = platform_jobs d @ [j]"
      and j: "job_type j = JobGenerate" "job_run_at j = ee_now env" "job_attempts j = 0"
        "job_max_attempts j = q_maxAttempts (app_queue0 cfg)" "job_locked_until j = None"
        "job_completed_at j = None" "unmarshal_GenerateReportJob (job_payload j) = Inr \<lparr>gj_ReportID = rid\<rparr>"
    by blast
  have r_facts: "rp_Status r = StatusPending" "supportedType (rp_Type r)"
      "rp_OwnerUserID r = UserID (fst (FromContext c))"
    using r st by (simp_all add: new_report_def)
  have due: "job_due t j" using j assms(9) app_queue0_max_pos [of cfg] by (simp add: job_due_def)
  have nj: "next_job t (platform_jobs d1) = Some j"
    unfolding d1(5) by (rule next_job_singleton [OF assms(8) due])
  from app_processOne_generate [OF d1(2,1) nj j(1,7), of r jenv cfg Background t'] d1(3) r_facts
  obtain d2 where p: "processOne (app_queue cfg) jenv Background t t' d1 =
      (\<lparr>jr_err = None, jr_counted = Some (JobGenerate, ''ok'')\<rparr>, d2)"
    and d2: "net d2 = []" "pg_reports_ok d2"
      "pg_reports_view d2 rid = Some (completed (result_text (todo_counts d1)) (je_later jenv)
         (claimed (je_now jenv) r))"
    by (auto simp: claimable_def)
  have "todo_counts d1 = todo_counts d" using d1(4) by (simp add: todo_counts_def)
  then have "GetReport (app_reports cfg) c (uuid_String rid) d2 =
      (Inr (completed (result_text (todo_counts d)) (je_later jenv) (claimed (je_now jenv) r)), d2)"
    using app_reports.get_report_healthy [OF d2(2), of cfg c rid] d2 assms(6) r_facts(3)
    by (simp add: db_healthy_def)
  with cr p r_facts(1) show ?thesis by blast
qed

theorem report_end_to_end_witness:
  "\<exists>r d1 d2. CreateReport (app_reports default_cfg) Background \<lparr>cr_Type = ''todo-summary''\<rparr> 100 (small_id 1)
      \<lparr>ee_id = small_id 2, ee_now = 100, ee_server = 101\<rparr> empty_db = (Inr r, d1) \<and>
    rp_Status r = StatusPending \<and>
    processOne (app_queue default_cfg) \<lparr>je_now = 205, je_later = 206\<rparr> Background 200 210 d1 =
      (\<lparr>jr_err = None, jr_counted = Some (JobGenerate, ''ok'')\<rparr>, d2) \<and>
    GetReport (app_reports default_cfg) Background (uuid_String (small_id 1)) d2 =
      (Inr (completed (result_text (todo_counts empty_db)) 206 (claimed 205 r)), d2)"
  using report_end_to_end [of empty_db "small_id 1" "\<lparr>ee_id = small_id 2, ee_now = 100, ee_server = 101\<rparr>"
      default_cfg Background "\<lparr>cr_Type = ''todo-summary''\<rparr>" 200 100 "\<lparr>je_now = 205, je_later = 206\<rparr>" 210]
  by (simp add: int4_range_def authenticated_def TypeTodoSummary_def)

text \<open>
  C2. Whatever happens to the statements of a generation (each may be served, refused or
  executed with its reply lost), \<open>Generate\<close> keeps the table well keyed, touches no report
  but its own, and touches that one only if it was claimable at the time of the claim; the
  report then is in one of the outcomes \<open>gen_outcome\<close> lists for its type.
\<close>

theorem generate_any_outcome:
  assumes "pg_reports_ok d" and "Generate (app_reports cfg) c i now now' d = (e, d')"
  shows "pg_reports_ok d' \<and> (pg_reports_view d' = pg_reports_view d \<or>
    (\<exists>r0 r'. pg_reports_view d i = Some r0 \<and>
       claimable (now - rsv_processingLease (app_reports cfg)) r0 \<and> gen_outcome now now' r0 r' \<and>
       pg_reports_view d' = (pg_reports_view d)(i \<mapsto> r')))"
  using assms by (rule app_reports.generate_effect)

theorem generate_any_outcome_witness:
  "\<exists>e d'. Generate (app_reports default_cfg) Background (small_id 1) 100 110
      ((one_report_db sample_report)\<lparr>net := [Served, Unacked ''timeout'']\<rparr>) = (e, d') \<and> pg_reports_ok d'"
proof -
  let ?d = "(one_report_db sample_report)\<lparr>net := [Served, Unacked ''timeout'']\<rparr>"
  obtain e d' where g: "Generate (app_reports default_cfg) Background (small_id 1) 100 110 ?d = (e, d')"
    by force
  moreover have "pg_reports_ok ?d" by simp
  ultimately show ?thesis using generate_any_outcome [of ?d default_cfg Background "small_id 1" 100 110 e d']
    by blast
qed



text \<open>
  C4. Invariant of the lifecycle: however workers, crashes, lost replies and new reports
  interleave, every report of the table stays well formed (its status decides which of the
  timestamps, result and failure fields are set) and keeps its key.
\<close>

theorem lifecycle_invariant:
  assumes "sys_steps lease s s'" and "sys_ok s"
  shows "\<forall>i r. sy_table s' i = Some r \<longrightarrow> report_wf r \<and> rp_ReportID r = i"
  using sys_steps_ok [OF assms] by (simp add: sys_ok_def table_ok_def)

theorem lifecycle_invariant_witness:
  "\<exists>s'. sys_steps 100 (start_sys sample_report) s' \<and> s' \<noteq> start_sys sample_report \<and>
    (\<forall>i r. sy_table s' i = Some r \<longrightarrow> report_wf r \<and> rp_ReportID r = i)"
proof -
  let ?s' = "(start_sys sample_report)\<lparr>sy_worker := (\<lambda>_. Out)(0 := Fetch (small_id 1)), sy_clock := 70\<rparr>"
  have r: "sys_steps 100 (start_sys sample_report) ?s'" using start_sys_runs by (rule r_into_rtranclp)
  moreover have "?s' \<noteq> start_sys sample_report" by (simp add: start_sys_def)
  ultimately show ?thesis using lifecycle_invariant [OF r start_sys_ok] by blast
qed

text \<open>
  C5. Leases exclude each other: if every final write comes before its worker's lease
  ends, then at any time at most one worker holds a live claim on a report, and the row
  shows exactly that claim.
\<close>

theorem lease_mutual_exclusion:
  assumes "(timely_step lease)\<^sup>*\<^sup>* s s'" and "\<forall>n. sy_worker s n = Out"
  shows "live lease s' n i t \<longrightarrow>
    (\<exists>r. sy_table s' i = Some r \<and> processing r \<and> rp_ProcessingStartedAt r = Some t) \<and>
    (live lease s' m i u \<longrightarrow> m = n)"
  using timely_steps_leased [OF assms(1) leased_start] assms(2) leasedD by blast

theorem lease_mutual_exclusion_witness:
  "live 100 (claimed_sys sample_report 0) 0 (small_id 1) 70 \<and>
   (\<exists>r. sy_table (claimed_sys sample_report 0) (small_id 1) = Some r \<and> processing r \<and>
      rp_ProcessingStartedAt r = Some 70)"
proof -
  have l: "live 100 (claimed_sys sample_report 0) 0 (small_id 1) 70"
    by (simp add: live_def claimed_sys_def)
  have "\<forall>n. sy_worker (start_sys sample_report) n = Out" by (simp add: start_sys_def)
  from lease_mutual_exclusion [OF timely_run this, of 0 "small_id 1" 70 0 70] l show ?thesis by blast
qed



text \<open>
  C7. A failing summary: with attempts left the report goes back to \<open>pending\<close> and the
  caller gets a retryable error; on the last attempt the report fails with
  \<open>RETRY_EXHAUSTED\<close> and no error is reported, so the queue closes the job.
\<close>

theorem summary_failure_handling:
  assumes "fake_reports_ok f" and "map_of f i = Some r0"
    and "claimable (now - rsv_processingLease (fake_report_service su en dis lease aft)) r0"
    and "supportedType (rp_Type r0)" and "fs_Err su = Some cause"
  shows "\<exists>f'. fake_reports_ok f' \<and>
    (if case AttemptFromContext c of Some info \<Rightarrow> Attempt info \<ge> MaxAttempts info | None \<Rightarrow> False
     then Generate (fake_report_service su en dis lease aft) c i now now' f = (None, f') \<and>
       map_of f' = (map_of f)(i \<mapsto> failed FailureRetryExhausted
         (SafeFailureMessage FailureRetryExhausted '''') now' (claimed now r0))
     else Generate (fake_report_service su en dis lease aft) c i now now' f = (Retryable (Some cause), f') \<and>
       map_of f' = (map_of f)(i \<mapsto> retried now' (claimed now r0)))"
  using fake_reports_svc.generate_retry [OF assms(1) _ assms(2-4), of c cause now'] assms(5)
  by (auto simp: fake_report_service_def fake_Summary_def)

theorem summary_failure_handling_witness:
  "\<exists>f'. Generate (fake_report_service failing_summary quiet_enqueuer True 0 0)
      (ContextWithAttempt Background \<lparr>Attempt = 5, MaxAttempts = 5\<rparr>) (small_id 1) 100 110
      [(small_id 1, sample_report)] = (None, f') \<and>
    map_of f' (small_id 1) = Some (failed FailureRetryExhausted
      (SafeFailureMessage FailureRetryExhausted '''') 110 (claimed 100 sample_report))"
  using summary_failure_handling [of "[(small_id 1, sample_report)]" "small_id 1" sample_report 100
      failing_summary quiet_enqueuer True 0 0 "OtherErr ''boom''"
      "ContextWithAttempt Background \<lparr>Attempt = 5, MaxAttempts = 5\<rparr>" 110]
  by (auto simp: fake_reports_ok_def failing_summary_def)



text \<open>
  C9. A report is shown to its owner only: whatever happens to the statements, a report
  that \<open>GetReport\<close> or \<open>ListReports\<close> returns is stored and belongs to the caller, and
  \<open>ListReports\<close> misses none of the caller's reports.
\<close>

theorem reports_shown_to_owner_only:
  assumes "pg_reports_ok d"
  shows "(GetReport (app_reports cfg) c i d = (Inr r, d') \<longrightarrow>
      rp_OwnerUserID r = UserID (fst (FromContext c)) \<and> uuid_Parse i = Inr (rp_ReportID r) \<and>
      pg_reports_view d (rp_ReportID r) = Some r) \<and>
    (ListReports (app_reports cfg) c d = (Inr rs, d'') \<longrightarrow>
      set rs = {x \<in> ran (pg_reports_view d). rp_OwnerUserID x = UserID (fst (FromContext c))} \<and> distinct rs)"
  by (intro conjI impI) (auto dest: app_reports.get_report_Inr [OF assms] app_reports.list_reports_Inr [OF assms])

theorem reports_shown_to_owner_only_witness:
  "GetReport (app_reports default_cfg) (as_user ''u'') (uuid_String (small_id 1)) (one_report_db sample_report) =
     (Inr sample_report, one_report_db sample_report) \<and>
   rp_OwnerUserID sample_report = ''u''"
proof -
  have g: "GetReport (app_reports default_cfg) (as_user ''u'') (uuid_String (small_id 1))
      (one_report_db sample_report) = (Inr sample_report, one_report_db sample_report)"
    using app_reports.get_report_healthy [of "one_report_db sample_report" default_cfg "as_user ''u''" "small_id 1"]
    by (simp add: db_healthy_def authenticated_def as_user_def sample_report_def new_report_def)
  have ok: "pg_reports_ok (one_report_db sample_report)" by simp
  from reports_shown_to_owner_only [OF ok, of default_cfg "as_user ''u''" "uuid_String (small_id 1)"
      sample_report "one_report_db sample_report"] g show ?thesis
    by (simp add: as_user_def)
qed

text \<open>
  C10. Reconciliation repairs lost enqueues: on a working database \<open>ReconcilePending\<close>
  queues exactly one generation job for every pending report that has not moved for the
  configured time, and changes nothing else.
\<close>

theorem reconcile_requeues_pending:
  assumes "pg_reports_ok d" and "net d = []" and "int4_range (q_maxAttempts (app_queue0 cfg))"
    and "inj_on (\<lambda>n. ee_id (env n)) {..<card (stale_pending cfg now d)}"
    and "\<forall>n < card (stale_pending cfg now d). ee_id (env n) \<notin> job_id ` set (platform_jobs d)"
  shows "\<exists>rs. set rs = stale_pending cfg now d \<and> distinct rs \<and>
    ReconcilePending (app_reports cfg) c now env d = (None, d\<lparr>platform_jobs := platform_jobs d @
        map (\<lambda>(n, r). generate_job (app_queue0 cfg) (env n) (rp_ReportID r)) (zip [0..<length rs] rs)\<rparr>)"
  using reconcile_served [OF assms(1,2,4) _ assms(3)] assms(5) by blast

theorem reconcile_requeues_pending_witness:
  "stale_pending default_cfg 1000000000000 (one_report_db sample_report) = {sample_report} \<and>
   ReconcilePending (app_reports default_cfg) Background 1000000000000
      (\<lambda>n. \<lparr>ee_id = small_id (of_nat n), ee_now = 7, ee_server = 8\<rparr>) (one_report_db sample_report) =
     (None, (one_report_db sample_report)\<lparr>platform_jobs :=
        [generate_job (app_queue0 default_cfg) \<lparr>ee_id = small_id 0, ee_now = 7, ee_server = 8\<rparr> (small_id 1)]\<rparr>)"
proof -
  let ?env = "\<lambda>n::nat. \<lparr>ee_id = small_id (of_nat n), ee_now = 7, ee_server = 8\<rparr>"
  have one: "stale_pending default_cfg 1000000000000 (one_report_db sample_report) = {sample_report}"
    by (auto simp: stale_pending_def)
  obtain rs where "set rs = {sample_report}" "distinct rs"
    and rec: "ReconcilePending (app_reports default_cfg) Background 1000000000000 ?env (one_report_db sample_report) =
      (None, (one_report_db sample_report)\<lparr>platform_jobs := platform_jobs (one_report_db sample_report) @
        map (\<lambda>(n, r). generate_job (app_queue0 default_cfg) (?env n) (rp_ReportID r)) (zip [0..<length rs] rs)\<rparr>)"
    using reconcile_requeues_pending [of "one_report_db sample_report" default_cfg ?env 1000000000000 Background]
    by (auto simp: one int4_range_def inj_on_def)
  then have "rs = [sample_report]" by (cases rs; cases "tl rs") auto
  with rec one show ?thesis by simp
qed



subsection \<open>The job queue\<close>

text \<open>
  C12. A redelivered generation job that arrives while the lease of a crashed worker is still
  fresh is lost: the tick reports success and completes the job, the report stays
  \<open>processing\<close> as it was, and no later reconciliation picks it up. (The job lock and the
  default lease are both five minutes, and the lock is taken first.)
\<close>

theorem redelivery_inside_lease_lost:
  assumes "net d = []" and "pg_reports_ok d" and "next_job t (platform_jobs d) = Some j"
    and "job_type j = JobGenerate" and "unmarshal_GenerateReportJob (job_payload j) = Inr \<lparr>gj_ReportID = i\<rparr>"
    and "pg_reports_view d i = Some r" and "rp_Status r = StatusProcessing"
    and "rp_ProcessingStartedAt r = Some s" and "je_now env - rsv_processingLease (app_reports cfg) \<le> s"
  shows "\<exists>d'. processOne (app_queue cfg) env c t t' d =
      (\<lparr>jr_err = None, jr_counted = Some (JobGenerate, ''ok'')\<rparr>, d') \<and>
    pg_reports_view d' = pg_reports_view d \<and>
    platform_jobs d' = update_rows job_id (job_id j) (\<lambda>x. finish_job t' (lock_job t x)) (platform_jobs d) \<and>
    (\<forall>now. r \<notin> stale_pending cfg now d')"
proof -
  have "\<not> claimable (je_now env - rsv_processingLease (app_reports cfg)) r"
    using assms(7-9) by (simp add: claimable_def StatusPending_def StatusProcessing_def)
  then show ?thesis
    using app_processOne_noop [OF assms(1-5), of env cfg c t'] assms(6,7)
    by (simp add: pg_reports_view_def stale_pending_def StatusPending_def StatusProcessing_def)
qed

theorem redelivery_inside_lease_lost_witness:
  "\<exists>d'. processOne (app_queue default_cfg) \<lparr>je_now = 300000000075, je_later = 0\<rparr> Background 300000000071 300000000080
      (one_job_db crashed_job (claimed 80 sample_report)) =
      (\<lparr>jr_err = None, jr_counted = Some (JobGenerate, ''ok'')\<rparr>, d') \<and>
    pg_reports_view d' (small_id 1) = Some (claimed 80 sample_report) \<and>
    (\<forall>now. claimed 80 sample_report \<notin> stale_pending default_cfg now d')"
  using redelivery_inside_lease_lost [of "one_job_db crashed_job (claimed 80 sample_report)" 300000000071 crashed_job
      "small_id 1" "claimed 80 sample_report" 80 "\<lparr>je_now = 300000000075, je_later = 0\<rparr>" default_cfg Background 300000000080]
  by (auto simp: next_crashed_job)

text \<open>
  C13. At most the attempt budget of handler calls: whatever statements fail and however long
  the worker runs, every delivery uses up one attempt of some job, so the deliveries and the
  attempts left never exceed the attempts there were; and the queue stays well formed.
\<close>

theorem deliveries_bounded:
  assumes "jobs_ok d"
  shows "deliveries (app_queue cfg) c ticks d + job_budget (platform_jobs (snd (Run (app_queue cfg) c ticks d)))
      \<le> job_budget (platform_jobs d) \<and> jobs_ok (snd (Run (app_queue cfg) c ticks d))"
  by (rule app_jobs.Run_bounded [OF assms])

theorem deliveries_bounded_witness:
  "\<forall>ticks. deliveries (app_queue default_cfg) Background ticks (one_job_db crashed_job sample_report) \<le> 4"
  using deliveries_bounded [of "one_job_db crashed_job sample_report" default_cfg Background]
  by (auto intro: add_leD1)

text \<open>
  C14. Many workers claim from one table, their statements interleaved in any order,
  transactions rolled back, commits unacknowledged, workers lost: no row is locked by two
  transactions; a job is delivered to handlers at most as often as it has attempts; whatever
  single statement comes next changes the table like an operation in one go, so that every
  commit is the claim of a job due at that moment; and while workers whose claim has expired
  do not settle any more, no two workers run the same job within five minutes of their
  claims.
\<close>

theorem claims_exclusive:
  assumes "keyed job_id js" and "list_all job_inv js" and "claim_steps timely (claims_start js n t) s"
  shows "(\<forall>w < length (cl_workers s). \<forall>v < length (cl_workers s). w \<noteq> v \<longrightarrow>
      (\<forall>i. locked_row (cl_workers s ! w) = Some i \<longrightarrow> locked_row (cl_workers s ! v) \<noteq> Some i) \<and>
      (timely \<longrightarrow> (\<forall>i. unexpired (cl_clock s) (cl_workers s ! w) = Some i \<longrightarrow> unexpired (cl_clock s) (cl_workers s ! v) \<noteq> Some i))) \<and>
    (\<forall>j \<in> set (cl_jobs s). int (deliveries_of s (job_id j)) \<le> job_attempts j \<and> job_attempts j \<le> job_max_attempts j) \<and>
    (\<forall>s'. claim_step timely s s' \<longrightarrow> atomic_step (cl_clock s') (cl_jobs s) (cl_jobs s'))"
proof -
  have ok: "claims_ok timely s" by (rule claim_steps_ok [OF assms(3) claims_start_ok [OF assms(1,2)]])
  then show ?thesis
    using claims_okD(2,3,6) [OF ok] claim_step_atomic [OF _ ok] by (simp add: apart_def job_inv_def)
qed

theorem claims_exclusive_witness:
  "\<exists>s. claim_steps True (claims_start [crashed_job] 2 300000000071) s \<and>
    unexpired (cl_clock s) (cl_workers s ! 0) = Some (job_id crashed_job) \<and>
    unexpired (cl_clock s) (cl_workers s ! 1) \<noteq> Some (job_id crashed_job) \<and>
    deliveries_of s (job_id crashed_job) \<le> 5"
proof -
  let ?t = "300000000071 :: time"
  define s where "s = \<lparr>cl_jobs = [lock_job ?t crashed_job], cl_workers = [Running ?t crashed_job, Resting], cl_clock = ?t,
    cl_delivered = [(job_id crashed_job, ?t)]\<rparr>"
  have run: "claim_steps True (claims_start [crashed_job] 2 ?t) s"
    using claim_uninterrupted [of 0 "claims_start [crashed_job] 2 ?t" ?t crashed_job True]
    by (simp add: claims_start_def select_unlocked_def locked_rows_def map_filter_def next_crashed_job update_rows_def
        s_def numeral_2_eq_2)
  have here: "unexpired (cl_clock s) (cl_workers s ! 0) = Some (job_id crashed_job)" by (simp add: s_def)
  from claims_exclusive [OF _ _ run] run here show ?thesis
    by (auto simp: job_inv_def int4_range_def keyed_def s_def)
qed

text \<open>
  C15. The claim transaction takes the earliest due job, and hides it for five minutes:
  whenever it answers with a job, under any statement outcomes, that job was due and no due
  job was scheduled before it, its row is locked, its attempt counted, no other row changed,
  and no claim up to five minutes later can take it again.
\<close>

theorem claim_takes_earliest:
  assumes "claim_tx t d = (Inr j, d')"
  shows "j \<in> set (platform_jobs d) \<and> job_due t j \<and>
    (\<forall>x \<in> set (platform_jobs d). job_due t x \<longrightarrow> job_run_at j \<le> job_run_at x) \<and>
    platform_jobs d' = update_rows job_id (job_id j) (lock_job t) (platform_jobs d) \<and>
    (\<forall>x \<in> set (platform_jobs d'). \<forall>u \<le> t + 5 * Minute. job_id x = job_id j \<longrightarrow> \<not> job_due u x)"
  using assms
proof (cases rule: claim_tx_cases)
  case (taken j' xs)
  then have "j' = j" by auto
  with taken next_job_Some [OF taken(1)] show ?thesis
    by (auto simp: set_update_rows locked_not_due)
qed simp

theorem claim_takes_earliest_witness:
  "platform_jobs (snd (claim_tx 300000000071 (one_job_db crashed_job sample_report))) =
     [lock_job 300000000071 crashed_job] \<and>
   \<not> job_due (300000000071 + 5 * Minute) (lock_job 300000000071 crashed_job)"
proof -
  have "claim_tx 300000000071 (one_job_db crashed_job sample_report) = (Inr crashed_job,
      (one_job_db crashed_job sample_report)\<lparr>platform_jobs := [lock_job 300000000071 crashed_job]\<rparr>)"
    by (simp add: claim_tx_served next_crashed_job update_rows_def)
  from claim_takes_earliest [OF this] this show ?thesis by (simp add: update_rows_def)
qed



subsection \<open>The database under concurrent operations\<close>

text \<open>
  C17. The database sees the program as a sequence of statements. Whatever a request does on
  its way through the middleware and its handler, and whatever a tick of the worker and a
  reconcile run do, and whichever statements fail, the database they leave is reached by
  single statements of the listed kinds: changes of todos, new reports and status moves of
  reports, new users, sessions and tokens, the end of a session, new jobs without an attempt,
  the claim of a due job and the settlement of a job.
\<close>

theorem operations_are_statements:
  assumes "NewEcho (pr_bytes p) cfg = Some mws"
  shows "statements d (snd (snd (ServeHTTP p cfg mws w req d))) \<and>
    statements d (snd (processOne (app_queue cfg) env c t t' d)) \<and>
    statements d (snd (ReconcilePending (app_reports cfg) c now renv d))"
  using ServeHTTP_statements [OF assms, of w req d] runsD [OF tick_runs] runsD [OF ReconcilePending_runs]
  by (metis prod.collapse rtranclp.rtrancl_refl)

theorem operations_are_statements_witness:
  "statements empty_db (snd (snd (ServeHTTP plain_params auth_cfg (plain_mws auth_cfg) zero_draws
     (bare_request ''GET'' ''/nowhere'' '''') empty_db)))"
  by (rule operations_are_statements [THEN conjunct1]) simp

text \<open>
  C18. The database stays well formed in every history. Let any number of servers and workers
  interleave their statements, and any of them fail or be cut off: primary keys and the unique
  columns stay unique, every job keeps its attempts between zero and its maximum and holds no
  lock once completed, every report keeps timestamps, result and failure fields that agree
  with its status; no report disappears or changes its owner, a completed or failed one stays
  as it is, and no user disappears or changes.
\<close>

theorem database_stays_well_formed:
  assumes "statements d d'" and "db_ok d"
  shows "db_ok d' \<and> set (auth_users d) \<subseteq> set (auth_users d') \<and>
    (\<forall>i r. pg_reports_view d i = Some r \<longrightarrow>
      (\<exists>r'. pg_reports_view d' i = Some r' \<and> rp_OwnerUserID r' = rp_OwnerUserID r \<and>
         (terminal r \<longrightarrow> r' = r)))"
  using statements_ok [OF assms]
  unfolding step_ok_def Reports_Lifecycle.keeps_def advances_def by (intro conjI) (blast+)

theorem database_stays_well_formed_witness:
  "db_ok (snd (processOne (app_queue default_cfg) \<lparr>je_now = 75, je_later = 76\<rparr> Background 300000000071 300000000072
     ((one_job_db crashed_job sample_report)\<lparr>net := [Served, Served, Served, Unacked ''commit lost'']\<rparr>)))"
  by (rule database_stays_well_formed [THEN conjunct1, OF runsD [OF tick_runs rtranclp.rtrancl_refl]])
    (simp add: db_ok_sample)

subsection \<open>Todos\<close>

text \<open>
  C19. The todos service refines its reference semantics, on both stores: for every history
  of requests whose new ids are unused, the service over the in-memory store and the one the
  application mounts over Postgres (event bus and audit jobs included) give the replies of
  the reference map, hence the same replies, and end with the same todos.
\<close>

theorem todo_histories_agree:
  assumes "fake_todos_ok f" and "pg_todos_ok d" and "net d = []" and "map_of f = pg_todos_view d"
    and "fresh_requests (ac_Disabled (cfg_Auth cfg)) rqs (pg_todos_view d)"
  shows "\<exists>f' d'.
    serve_all (\<lambda>_. NewTodoService FakeTodoStore None (ac_Disabled (cfg_Auth cfg))) rqs f =
      (fst (spec_serve_all (ac_Disabled (cfg_Auth cfg)) rqs (pg_todos_view d)), f') \<and>
    serve_all (app_todos fmtTime cfg) rqs d =
      (fst (spec_serve_all (ac_Disabled (cfg_Auth cfg)) rqs (pg_todos_view d)), d') \<and>
    map_of f' = pg_todos_view d' \<and>
    pg_todos_view d' = snd (spec_serve_all (ac_Disabled (cfg_Auth cfg)) rqs (pg_todos_view d))"
  using fake_histories [OF assms(1), of "ac_Disabled (cfg_Auth cfg)" rqs]
    app_histories [OF assms(2,3,5), of fmtTime] assms(4,5) by auto

theorem todo_histories_agree_witness:
  "fst (serve_all (\<lambda>_. NewTodoService FakeTodoStore None True) sample_history []) =
     fst (serve_all (app_todos (\<lambda>_. Inr ''now'') default_cfg) sample_history empty_db) \<and>
   fst (serve_all (\<lambda>_. NewTodoService FakeTodoStore None True) sample_history []) ! 2 = RepCounts 1 1 0"
proof -
  have one: "{t. x = t \<and> td_Completed t} = (if td_Completed x then {x} else {})" for x :: Todo by auto
  have "fresh_requests True sample_history (pg_todos_view empty_db)"
    by (simp add: sample_history_def spec_serve_def)
  moreover have "fake_todos_ok []" "map_of [] = pg_todos_view empty_db"
    by (simp_all add: fake_todos_ok_def fun_eq_iff)
  ultimately obtain f' d' where
    "serve_all (\<lambda>_. NewTodoService FakeTodoStore None True) sample_history [] =
       (fst (spec_serve_all True sample_history (pg_todos_view empty_db)), f')"
    "serve_all (app_todos (\<lambda>_. Inr ''now'') default_cfg) sample_history empty_db =
       (fst (spec_serve_all True sample_history (pg_todos_view empty_db)), d')"
    using todo_histories_agree [of "[]" empty_db default_cfg sample_history "\<lambda>_. Inr ''now''"] by auto
  moreover have "fst (spec_serve_all True sample_history (pg_todos_view empty_db)) ! 2 = RepCounts 1 1 0"
    by (simp add: sample_history_def spec_serve_def authenticated_def spec_lookup_def Let_def uuid_Parse_String
        ran_def one)
  ultimately show ?thesis by simp
qed

text \<open>
  C20. Creating a todo leaves an audit trail: on a working database the todo is stored and
  exactly one job of type \<open>todos.audit_created\<close> is queued behind the jobs there were, due
  at once.
\<close>

theorem todo_creation_audited:
  assumes "pg_todos_ok d" and "net d = []" and "pg_todos_view d newID = None"
    and "authenticated (ac_Disabled (cfg_Auth cfg)) c" and "tp_Label req \<noteq> ''''"
    and "ee_id env \<notin> job_id ` set (platform_jobs d)" and "int4_range (q_maxAttempts (app_queue0 cfg))"
    and "\<forall>x. \<exists>s. fmtTime x = Inr s"
  shows "\<exists>t d' j. CreateTodo (app_todos fmtTime cfg env) c req now newID d = (Inr t, d') \<and>
    pg_todos_view d' = (pg_todos_view d)(newID \<mapsto> t) \<and> td_Label t = tp_Label req \<and>
    platform_jobs d' = platform_jobs d @ [j] \<and> job_type j = ''todos.audit_created''"
proof -
  from app_create_todo_audit [OF assms(1-7), of fmtTime now] assms(8) obtain t d' j
    where cr: "CreateTodo (app_todos fmtTime cfg env) c req now newID d = (Inr t, d')"
      and post: "pg_todos_view d' = (pg_todos_view d)(newID \<mapsto> t)"
        "platform_jobs d' = platform_jobs d @ [j]" "job_type j = ''todos.audit_created''" by blast
  from app_todos.service_create_Inr(3) [OF assms(1) cr] have "td_Label t = tp_Label req" by simp
  with cr post show ?thesis by blast
qed

theorem todo_creation_audited_witness:
  "\<exists>t d' j. CreateTodo (app_todos (\<lambda>_. Inr ''now'') default_cfg \<lparr>ee_id = small_id 2, ee_now = 5, ee_server = 6\<rparr>)
      Background \<lparr>tp_Label = ''milk'', tp_Completed = False\<rparr> 5 (small_id 1) empty_db = (Inr t, d') \<and>
    pg_todos_view d' (small_id 1) = Some t \<and> platform_jobs d' = [j] \<and> job_type j = ''todos.audit_created''"
  using todo_creation_audited [of empty_db "small_id 1" default_cfg Background "\<lparr>tp_Label = ''milk'', tp_Completed = False\<rparr>"
      "\<lparr>ee_id = small_id 2, ee_now = 5, ee_server = 6\<rparr>" "\<lambda>_. Inr ''now''" 5]
  by (simp add: authenticated_def int4_range_def) (metis fun_upd_same)

text \<open>
  C21. A failed creation is reported as one of the domain's errors and is all or nothing:
  whatever statements fail, the todos are as before, or hold exactly the requested todo in
  addition (its reply was lost).
\<close>

theorem todo_creation_failure:
  assumes "pg_todos_ok d" and "CreateTodo (app_todos fmtTime cfg env) c req now newID d = (Inl e, d')"
  shows "(pg_todos_view d' = pg_todos_view d \<or>
      pg_todos_view d' = (pg_todos_view d)(newID \<mapsto> \<lparr>td_TodoID = newID, td_CreatedAt = now,
        td_UpdatedAt = now, td_Label = tp_Label req, td_Completed = tp_Completed req\<rparr>)) \<and>
    (errors_Is e ErrPermissionDenied \<or> errors_Is e ErrValidation \<or> errors_Is e ErrInternal)"
  using app_todos.service_create_Inl [OF assms] by blast

theorem todo_creation_failure_witness:
  "\<exists>e d'. CreateTodo (app_todos (\<lambda>_. Inr ''now'') default_cfg \<lparr>ee_id = small_id 2, ee_now = 5, ee_server = 6\<rparr>)
      Background \<lparr>tp_Label = ''milk'', tp_Completed = False\<rparr> 5 (small_id 1)
      (empty_db\<lparr>net := [Unacked ''connection reset'']\<rparr>) = (Inl e, d') \<and>
    errors_Is e ErrInternal \<and> \<not> errors_Is e ErrValidation"
proof -
  let ?d = "empty_db\<lparr>net := [Unacked ''connection reset'']\<rparr>"
  let ?cr = "CreateTodo (app_todos (\<lambda>_. Inr ''now'') default_cfg \<lparr>ee_id = small_id 2, ee_now = 5, ee_server = 6\<rparr>)
      Background \<lparr>tp_Label = ''milk'', tp_Completed = False\<rparr> 5 (small_id 1) ?d"
  have ok: "pg_todos_ok ?d" using empty_db_simps(7) by (simp add: pg_todos_ok_def)
  have e: "fst ?cr = Inl (Errorf_w (Sentinel ErrInternal) ''failed to create todo'')"
    by (simp add: CreateTodo_def app_todos_def authenticated_def pg_CreateTodo_def q_CreateTodo_def run_stmt_def
        next_outcome_def)
  then have "?cr = (Inl (Errorf_w (Sentinel ErrInternal) ''failed to create todo''), snd ?cr)"
    by (metis prod.collapse)
  from todo_creation_failure [OF ok this] this show ?thesis by auto
qed



subsection \<open>Authentication\<close>

text \<open>
  C23. Registering, logging in, coming back, logging out: on a working database a new user
  can log in with the password of the registration, a request with the cookie of that login
  is made in the name of the user until the session expires, and after the logout the same
  request is anonymous.
\<close>

theorem login_session_life:
  assumes "bcrypt_law bc" and "pg_auth_ok d" and "net d = []" and "email \<noteq> ''''" and "pw \<noteq> ''''"
    and "bc_Generate bc salt pw (ac_BcryptCost (cfg_Auth cfg)) = Inr h"
    and "av_users (pg_auth_view d) uid = None" and "av_emails (pg_auth_view d) email = None"
    and "av_sessions (pg_auth_view d) sid = None"
    and "\<not> HasPrefix (ToLower (rq_Header (ec_req e) ''Authorization'')) ''bearer ''"
    and "cookie e (ac_SessionCookie (cfg_Auth cfg)) = Some (uuid_String sid)"
    and "t \<le> now + ac_SessionTTL (cfg_Auth cfg)"
  shows "\<exists>u d1 sess d2 d3. auth_Register bc (app_auth cfg) email pw salt uid reg d = (Inr u, d1) \<and>
    us_UserID u = uid \<and> Login bc (app_auth cfg) email pw sid now now' d1 = (Inr (sess, u), d2) \<and>
    se_SessionID sess = sid \<and>
    fst (request_principal (app_auth cfg) (cfg_Auth cfg) t e d2) = user_principal u ''cookie'' \<and>
    Logout (app_auth cfg) sid d2 = (Inr (), d3) \<and>
    fst (request_principal (app_auth cfg) (cfg_Auth cfg) t e d3) = Anonymous"
proof -
  note R = pg_auth_svc.register_healthy [of d email pw bc salt "cfg_Auth cfg" h uid reg]
  obtain d1 u where reg: "auth_Register bc (app_auth cfg) email pw salt uid reg d = (Inr u, d1)"
    and u: "u = \<lparr>us_UserID = uid, us_Email = email, us_PasswordHash = h, us_Roles = [''user''], us_CreatedAt = reg\<rparr>"
    and d1: "pg_auth_ok d1" "net d1 = []" "pg_auth_view d1 = (pg_auth_view d)\<lparr>
      av_users := (av_users (pg_auth_view d))(uid \<mapsto> u), av_emails := (av_emails (pg_auth_view d))(email \<mapsto> u)\<rparr>"
    using R assms(2-8) by (auto simp: app_auth_def)
  have pw: "bc_Compare bc (us_PasswordHash u) pw = None" using assms(1,6) u by (simp add: bcrypt_law_def)
  obtain d2 sess where login: "Login bc (app_auth cfg) email pw sid now now' d1 = (Inr (sess, u), d2)"
    and s: "sess = \<lparr>se_SessionID = sid, se_UserID = uid, se_ExpiresAt = now + ac_SessionTTL (cfg_Auth cfg)\<rparr>"
    and d2: "pg_auth_ok d2" "net d2 = []" "pg_auth_view d2 = (pg_auth_view d1)\<lparr>
      av_sessions := (av_sessions (pg_auth_view d1))(sid \<mapsto> sess)\<rparr>"
    using pg_auth_svc.login_healthy [OF d1(1,2), of email u bc pw sid "cfg_Auth cfg" now now'] d1(3) pw u assms(9)
    by (auto simp: app_auth_def)
  have come_back: "fst (request_principal (app_auth cfg) (cfg_Auth cfg) t e d2) = user_principal u ''cookie''"
    using pg_auth_svc.request_principal_cookie [OF d2(1,2) _ _ _ assms(10,11), of sess u t "cfg_Auth cfg"]
      d1(3) d2(3) s assms(12) by (simp add: app_auth_def)
  obtain d3 where out: "Logout (app_auth cfg) sid d2 = (Inr (), d3)" and d3: "pg_auth_ok d3" "net d3 = []"
      "av_sessions (pg_auth_view d3) sid = None"
    using pg_auth_svc.logout_healthy [OF d2(1,2), of "cfg_Auth cfg" sid] by (auto simp: app_auth_def)
  have "fst (request_principal (app_auth cfg) (cfg_Auth cfg) t e d3) = Anonymous"
    using pg_auth_svc.session_unknown [OF d3, of "cfg_Auth cfg" t] assms(10,11)
    by (auto simp: request_principal_def app_auth_def Let_def uuid_Parse_String)
  with reg login come_back out s u show ?thesis by auto
qed

theorem login_session_life_witness:
  "\<exists>u d1 sess d2. auth_Register plain_bcrypt (app_auth auth_cfg) ''a@b'' ''secret'' [] (small_id 1) 5 empty_db = (Inr u, d1) \<and>
    Login plain_bcrypt (app_auth auth_cfg) ''a@b'' ''secret'' (small_id 2) 10 11 d1 = (Inr (sess, u), d2) \<and>
    fst (request_principal (app_auth auth_cfg) (cfg_Auth auth_cfg) 20 (cookie_echo (small_id 2)) d2) =
      user_principal u ''cookie''"
  using login_session_life [of plain_bcrypt empty_db "''a@b''" "''secret''" "[]" auth_cfg "''h:secret''" "small_id 1" "small_id 2"
      "cookie_echo (small_id 2)" 20 10 5 11]
  by auto

text \<open>
  C24. Nobody logs in with a wrong password: whatever statements fail, a login that answers
  with a session found the user by the address and their stored hash accepts the password,
  and the session is the only thing added; and on a working database a login with an unknown
  address or a wrong password is refused and opens no session.
\<close>

theorem login_needs_password:
  assumes "pg_auth_ok d"
  shows "(Login bc (app_auth cfg) email pw sid now now' d = (Inr (sess, u), d') \<longrightarrow>
      av_emails (pg_auth_view d) email = Some u \<and> bc_Compare bc (us_PasswordHash u) pw = None \<and>
      se_UserID sess = us_UserID u \<and> se_ExpiresAt sess = now + ac_SessionTTL (cfg_Auth cfg) \<and>
      av_sessions (pg_auth_view d) sid = None \<and> pg_auth_view d' =
        (pg_auth_view d)\<lparr>av_sessions := (av_sessions (pg_auth_view d))(sid \<mapsto> sess)\<rparr>) \<and>
    (net d = [] \<and> (\<forall>w. av_emails (pg_auth_view d) email = Some w \<longrightarrow> bc_Compare bc (us_PasswordHash w) pw \<noteq> None) \<longrightarrow>
      (\<exists>d''. Login bc (app_auth cfg) email pw sid now now' d =
         (Inl (Errorf_w (Sentinel ErrUnauthorized) ''invalid credentials''), d'') \<and>
       pg_auth_view d'' = pg_auth_view d))"
proof (intro conjI impI)
  assume "Login bc (app_auth cfg) email pw sid now now' d = (Inr (sess, u), d')"
  then show "av_emails (pg_auth_view d) email = Some u" "bc_Compare bc (us_PasswordHash u) pw = None"
    "se_UserID sess = us_UserID u" "se_ExpiresAt sess = now + ac_SessionTTL (cfg_Auth cfg)"
    "av_sessions (pg_auth_view d) sid = None"
    "pg_auth_view d' = (pg_auth_view d)\<lparr>av_sessions := (av_sessions (pg_auth_view d))(sid \<mapsto> sess)\<rparr>"
    using pg_auth_svc.login_sound [OF assms, of bc "cfg_Auth cfg" email pw sid now now' sess u d']
    by (simp_all add: app_auth_def)
next
  assume "net d = [] \<and> (\<forall>w. av_emails (pg_auth_view d) email = Some w \<longrightarrow> bc_Compare bc (us_PasswordHash w) pw \<noteq> None)"
  then show "\<exists>d''. Login bc (app_auth cfg) email pw sid now now' d =
      (Inl (Errorf_w (Sentinel ErrUnauthorized) ''invalid credentials''), d'') \<and> pg_auth_view d'' = pg_auth_view d"
    using pg_auth_svc.login_rejected [OF assms, of email bc pw "cfg_Auth cfg" sid now now']
    by (cases "av_emails (pg_auth_view d) email") (auto simp: app_auth_def)
qed

theorem login_needs_password_witness:
  "fst (Login plain_bcrypt (app_auth auth_cfg) ''a@b'' ''guess'' (small_id 2) 10 11 empty_db) =
     Inl (Errorf_w (Sentinel ErrUnauthorized) ''invalid credentials'')"
proof -
  obtain sess :: Session and u :: User and d' :: db where "sess = sess \<and> u = u \<and> d' = d'" by blast
  from login_needs_password [of empty_db plain_bcrypt auth_cfg "''a@b''" "''guess''" "small_id 2" 10 11 sess u d']
  show ?thesis by auto
qed





subsection \<open>The HTTP server\<close>



text \<open>
  C28. A stranger cannot touch the domains: with authentication on, a request without
  credentials to any route of the todos or reports adapters leaves the whole database as it
  is, and on the API it is answered 403, or 400 when its body does not even parse.
\<close>

theorem anonymous_requests_harmless:
  assumes "\<not> ac_Disabled (cfg_Auth cfg)" and "no_credentials (cfg_Auth cfg) req"
    and "todo_routes p cfg w (rq_Method req) (rq_Route req) = Some h \<or>
      report_routes p cfg w (rq_Method req) (rq_Route req) = Some h"
    and "NewEcho (pr_bytes p) cfg = Some mws"
  shows "\<exists>out e'. ServeHTTP p cfg mws w req d = (out, e', d) \<and>
    (admitted p cfg req \<and> HasPrefix (rq_Route req) ''/api'' \<longrightarrow>
      ec_committed e' \<and> ec_status e' \<in> {400, 403})"
proof (cases "admitted p cfg req")
  case False
  with ServeHTTP_refused [OF assms(4)] show ?thesis by blast
next
  case True
  have "\<exists>r e1. chain p cfg w (entry_echo cfg w req) d = ((r, e1), d) \<and>
      (HasPrefix (rq_Route req) ''/api'' \<longrightarrow> api_refusal req r e1 \<and> (\<not> HasPrefix (rq_URLPath req) ''/app'' \<longrightarrow> r \<noteq> None))"
    by (rule anonymous_chain [OF assms(1-3)]) simp_all
  then obtain r e1 where c: "chain p cfg w (entry_echo cfg w req) d = ((r, e1), d)"
    and api: "HasPrefix (rq_Route req) ''/api'' \<Longrightarrow> api_refusal req r e1" by blast
  from ServeHTTP_admitted [OF assms(4) True c] api_refusal_answer [of req r e1 p] api show ?thesis by blast
qed

theorem anonymous_requests_harmless_witness:
  "\<exists>out e'. ServeHTTP plain_params auth_cfg (plain_mws auth_cfg) zero_draws
      (bare_request ''DELETE'' ''/api/v1/todos/1'' ''/api/v1/todos/:id'') one_todo_db = (out, e', one_todo_db) \<and> ec_status e' \<in> {400, 403}"
proof -
  let ?r = "bare_request ''DELETE'' ''/api/v1/todos/1'' ''/api/v1/todos/:id''"
  obtain h where h: "todo_routes plain_params auth_cfg zero_draws (rq_Method ?r) (rq_Route ?r) = Some h"
    by (simp add: todo_routes_def todoapi_Register_def Let_def)
  have "no_credentials (cfg_Auth auth_cfg) ?r" by (simp add: no_credentials_def)
  from anonymous_requests_harmless [OF _ this, of plain_params zero_draws h "plain_mws auth_cfg" one_todo_db] h show ?thesis
    by (auto simp: HasPrefix_def)
qed

text \<open>
  C29. The text of an internal error stays inside: for an error that is neither an
  \<open>APIError\<close> nor Echo's and that maps to 500, the response does not depend on the error at
  all; and what an htmx client is shown of any error contains no HTML delimiter of its own.
\<close>

theorem internal_errors_not_leaked:
  assumes "errors_As_APIError err = None" and "\<forall>hc m i. err \<noteq> HTTPError hc m i"
    and "fst (MapError (Some err)) = 500"
  shows "ErrorHandler st rdr err e = ErrorHandler st rdr (Sentinel ErrInternal) e \<and>
    (\<forall>er. IsHTMX e \<and> \<not> ec_committed e \<longrightarrow> (\<exists>safe. ec_body (ErrorHandler st rdr er e) = HTMLBody (alert_html safe) \<and>
      set safe \<inter> {CHR ''<'', CHR ''>'', CHR 0x22, CHR 0x27} = {}))"
proof -
  have "classify st err = (500, ''INTERNAL_SERVER_ERROR'', ''An unexpected error occurred'', [])"
    using assms by (cases err) (auto simp: classify_def MapError_def Let_def split: if_splits)
  moreover have "classify st (Sentinel ErrInternal) = (500, ''INTERNAL_SERVER_ERROR'', ''An unexpected error occurred'', [])"
    by (simp add: classify_def MapError_def)
  ultimately have "ErrorHandler st rdr err e = ErrorHandler st rdr (Sentinel ErrInternal) e"
    by (simp add: ErrorHandler_def)
  moreover have "\<exists>safe. ec_body (ErrorHandler st rdr er e) = HTMLBody (alert_html safe) \<and>
      set safe \<inter> {CHR ''<'', CHR ''>'', CHR 0x22, CHR 0x27} = {}" if "IsHTMX e" "\<not> ec_committed e" for er
  proof -
    obtain status code message det where c: "classify st er = (status, code, message, det)"
      by (cases "classify st er") auto
    show ?thesis
      by (rule exI [of _ "EscapeString message"])
        (use that c EscapeString_safe [of message] in \<open>simp add: ErrorHandler_def Let_def respond_def\<close>)
  qed
  ultimately show ?thesis by blast
qed

theorem internal_errors_not_leaked_witness:
  "ErrorHandler (\<lambda>_. ''status'') (\<lambda>_ _. None) (Errorf_w (OtherErr ''pq: password authentication failed'') ''x'') (cookie_echo (small_id 1)) =
   ErrorHandler (\<lambda>_. ''status'') (\<lambda>_ _. None) (Sentinel ErrInternal) (cookie_echo (small_id 1))"
  by (rule internal_errors_not_leaked [THEN conjunct1]) (simp_all add: Errorf_w_def MapError_def)

text \<open>
  C30. The metrics page of a loaded configuration asks for the configured credentials unless
  it is public, and answers 401 otherwise. Since the credentials default to the empty text, a
  server that sets none serves the page to a client that sends an empty user and password.
\<close>

theorem metrics_page_access:
  assumes "Load pf hundred env = Inr cfg" and "boolEnv env ''METRICS_ENABLED'' True"
    and "NewEcho (pr_bytes p) cfg = Some mws" and "admitted p cfg req"
    and "rq_Method req = ''GET''" and "rq_Route req = ''/metrics''" and "\<not> HasPrefix (rq_URLPath req) ''/app''"
  shows "\<exists>out e' d'. ServeHTTP p cfg mws w req d = (out, e', d') \<and>
    (if mt_Public (cfg_Metrics cfg) \<or>
        rq_BasicAuth req = Some (env ''METRICS_BASIC_AUTH_USER'', env ''METRICS_BASIC_AUTH_PASS'')
     then ec_status e' = 200 \<and> ec_body e' = MetricsBody
     else ec_status e' = 401 \<and> ec_body e' = NoBody)"
proof -
  let ?e = "entry_echo cfg w req"
  from chain_outside_app [of ?e p cfg w d] assms(7) obtain c d1
    where ch: "chain p cfg w ?e d = dispatch p cfg w (WithContext c ?e) d1" by auto
  let ?e1 = "WithContext c ?e"
  have e1: "ec_req ?e1 = req" "\<not> ec_committed ?e1" by (simp_all add: WithContext_def)
  have "dispatch p cfg w ?e1 d1 = metrics_endpoint (cfg_Metrics cfg) ?e1 d1"
    by (rule dispatch_metrics) (use assms(2,5,6) e1 Load_metrics(3) [OF assms(1)] in simp_all)
  then have "chain p cfg w ?e d = metrics_endpoint (cfg_Metrics cfg) ?e1 d1" using ch by simp
  also have "\<dots> = ((None, snd (fst (metrics_endpoint (cfg_Metrics cfg) ?e1 d1))), d1)"
    by (simp add: metrics_endpoint_def NoContent_def)
  finally show ?thesis
    using e1 Load_metrics(1,2) [OF assms(1)] ServeHTTP_admitted [OF assms(3,4)]
    by (auto simp: metrics_endpoint_def NoContent_def SetHeader_def respond_def answer_def
        split: option.splits prod.splits)
qed

theorem metrics_page_access_witness:
  "\<exists>cfg out e' d'. Load (\<lambda>_. None) () production_env = Inr cfg \<and> \<not> mt_Public (cfg_Metrics cfg) \<and>
    ServeHTTP plain_params cfg (plain_mws cfg) zero_draws
      ((bare_request ''GET'' ''/metrics'' ''/metrics'')\<lparr>rq_BasicAuth := Some ('''', '''')\<rparr>) empty_db = (out, e', d') \<and>
    ec_status e' = 200 \<and> ec_body e' = MetricsBody"
proof -
  obtain cfg where l: "Load (\<lambda>_. None) () production_env = Inr (cfg :: unit Config)"
    and pub: "\<not> mt_Public (cfg_Metrics cfg)" using production_loads by blast
  let ?r = "(bare_request ''GET'' ''/metrics'' ''/metrics'')\<lparr>rq_BasicAuth := Some ('''', '''')\<rparr>"
  obtain out e' d' where "ServeHTTP plain_params cfg (plain_mws cfg) zero_draws ?r empty_db = (out, e', d')"
    "ec_status e' = 200" "ec_body e' = MetricsBody"
    using metrics_page_access [OF l, of plain_params "plain_mws cfg" ?r zero_draws empty_db] pub
    by (auto simp: production_env_simps HasPrefix_def)
  with l pub show ?thesis by blast
qed





text \<open>
  C33. Headers a browser relies on: every answer carries the security headers of \<open>NewEcho\<close>,
  errors and refusals included. An answer admits an origin only if it is the wildcard and
  the configuration has it (or has no origin at all), or if it is the request's own and one
  of the configured patterns matches it; without wildcards in the configuration that means
  it is listed. An admitted origin may send credentials unless the wildcard is the only
  configured origin, so that the wildcard itself is answered with credentials when it is one
  of several.
\<close>

theorem answer_headers_safe:
  assumes "NewEcho (pr_bytes p) cfg = Some mws" and "ServeHTTP p cfg mws w req d = (out, e', d')"
    and "origins = cfg_AllowedOrigins cfg" and "asked = rq_Header req ''Origin''"
  shows "map_of (ec_headers e') ''X-Content-Type-Options'' = Some ''nosniff'' \<and>
    map_of (ec_headers e') ''X-Frame-Options'' = Some ''SAMEORIGIN'' \<and>
    map_of (ec_headers e') ''Content-Security-Policy'' = Some (sc_ContentSecurityPolicy secure_config) \<and>
    (\<forall>a. map_of (ec_headers e') ''Access-Control-Allow-Origin'' = Some a \<longrightarrow>
      (a = ''*'' \<and> (origins = [] \<or> ''*'' \<in> set origins) \<or>
       a = asked \<and> (\<exists>q \<in> set origins. q = asked \<or> matchSubdomain asked q \<or> glob q asked)) \<and>
      (origins \<noteq> [] \<and> (\<forall>q \<in> set origins. literal_origin q) \<longrightarrow> a \<in> set origins) \<and>
      (map_of (ec_headers e') ''Access-Control-Allow-Credentials'' = Some ''true'' \<longleftrightarrow> origins \<noteq> [''*'']))"
proof (intro conjI allI impI)
  note h = ServeHTTP_header [OF assms(1,2)] cors_header_names_def handler_headers_def logged_echo_headers
  show "map_of (ec_headers e') ''X-Content-Type-Options'' = Some ''nosniff''"
    "map_of (ec_headers e') ''X-Frame-Options'' = Some ''SAMEORIGIN''"
    "map_of (ec_headers e') ''Content-Security-Policy'' = Some (sc_ContentSecurityPolicy secure_config)"
    by (simp_all add: h)
  fix a assume a: "map_of (ec_headers e') ''Access-Control-Allow-Origin'' = Some a"
  let ?os = "if origins = [] then [''*''] else origins"
  let ?co = "cors_config (cfg_AllowedOrigins cfg)"
  have "cors_answer ?co req (ec_headers e')" using ServeHTTP_cors [OF assms(1,2)] a by auto
  then have ne: "asked \<noteq> ''''" "a \<noteq> ''''" and al: "a = allow_origin ?os asked"
    and cred: "map_of (ec_headers e') ''Access-Control-Allow-Credentials'' =
      (if allowCredentials origins then Some ''true'' else None)"
    using a assms(3,4) by (auto simp: cors_answer_def cors_origin_def cors_config_def split: if_splits)
  show "a = ''*'' \<and> (origins = [] \<or> ''*'' \<in> set origins) \<or>
       a = asked \<and> (\<exists>q \<in> set origins. q = asked \<or> matchSubdomain asked q \<or> glob q asked)"
  proof (cases "origins = []")
    case True
    then have "a = ''*''" using al by (simp add: allow_origin_def)
    with True show ?thesis by simp
  next
    case False
    with allow_origin_cases [of origins asked] al ne show ?thesis by auto
  qed
  show "a \<in> set origins" if "origins \<noteq> [] \<and> (\<forall>q \<in> set origins. literal_origin q)"
    using allow_origin_literal [of origins asked] that al ne by (auto split: if_splits)
  show "map_of (ec_headers e') ''Access-Control-Allow-Credentials'' = Some ''true'' \<longleftrightarrow> origins \<noteq> [''*'']"
    using cred by (cases origins) (auto simp: allowCredentials_def)
qed

theorem answer_headers_safe_witness:
  "\<exists>cfg out e' d'. cfg_AllowedOrigins cfg = [''*'', ''https://a''] \<and>
    ServeHTTP plain_params (cfg :: unit Config) (plain_mws cfg) zero_draws (from_origin ''https://evil'') empty_db = (out, e', d') \<and>
    map_of (ec_headers e') ''Access-Control-Allow-Origin'' = Some ''*'' \<and>
    map_of (ec_headers e') ''Access-Control-Allow-Credentials'' = Some ''true''"
proof -
  define cfg where "cfg = default_cfg\<lparr>cfg_AllowedOrigins := [''*'', ''https://a'']\<rparr>"
  have o': "cfg_AllowedOrigins cfg = [''*'', ''https://a'']" by (simp add: cfg_def)
  obtain out e' d' where s: "ServeHTTP plain_params cfg (plain_mws cfg) zero_draws (from_origin ''https://evil'') empty_db =
      (out, e', d')" by (metis prod_cases3)
  obtain err e1 where i: "inner plain_params cfg 2097152 zero_draws
      (logged_echo zero_draws (from_origin ''https://evil'')) empty_db = ((err, e1), d')"
    and e': "e' = answer plain_params err e1"
    using ServeHTTP_inner [OF _ s] by auto
  from inner_cors [of "from_origin ''https://evil''" 2097152 cfg plain_params zero_draws empty_db] i
  have "map_of (ec_headers e') ''Access-Control-Allow-Origin'' = Some ''*''"
    by (simp add: from_origin_def cors_answer_def cors_origin_def cors_config_def o' allow_origin_def e' answer_headers)
  with answer_headers_safe [OF _ s refl refl] s o' show ?thesis by auto
qed

text \<open>
  C34. Where the error page itself does not render, the error is lost: a browser whose request
  fails while the templates do not execute is answered with nothing written at all, which
  the HTTP server of Go's library completes to an empty page of status 200.
\<close>

theorem error_page_lost:
  assumes "NewEcho (pr_bytes p) cfg = Some mws" and "admitted p cfg req"
    and "chain p cfg w (entry_echo cfg w req) d = ((Some err, e1), d1)" and "unwritten e1" and "ec_body e1 = NoBody"
    and "ec_req e1 = req" and "\<forall>page pd. pr_rdr p page pd \<noteq> None"
    and "\<not> IsHTMX e1" and "rq_Header req ''Accept'' \<notin> {'''', ''application/json''}" and "\<not> isAPI (rq_Route req)"
  shows "\<exists>out e'. ServeHTTP p cfg mws w req d = (out, e', d1) \<and>
    \<not> ec_committed e' \<and> ec_status e' = 200 \<and> ec_body e' = NoBody"
proof -
  define f where "f page pd = the (pr_rdr p page pd)" for page pd
  have fails: "pr_rdr p page pd = Some (f page pd)" for page pd using assms(7) by (simp add: f_def)
  then have "answer p (Some err) e1 = e1"
    using assms(4,6,8,9,10)
    by (auto simp: answer_def ErrorHandler_def unwritten_def render_defs fails Let_def split: prod.splits)
  with ServeHTTP_admitted [OF assms(1-3)] assms(4,5) show ?thesis by (simp add: unwritten_def)
qed

theorem error_page_lost_witness:
  "\<exists>out e'. ServeHTTP broken_params auth_cfg (plain_mws auth_cfg) zero_draws browser_request empty_db = (out, e', empty_db) \<and>
    \<not> ec_committed e' \<and> ec_status e' = 200"
proof -
  let ?e = "entry_echo auth_cfg zero_draws browser_request"
  have none: "request_principal (app_auth auth_cfg) (cfg_Auth auth_cfg) (dr_auth_now zero_draws) ?e empty_db =
      (Anonymous, empty_db)"
    by (rule request_principal_none) (simp add: browser_request_def no_credentials_def)
  let ?e1 = "WithContext (WithPrincipal (ec_ctx ?e) Anonymous) ?e"
  have route: "rq_Route (ec_req ?e1) = ''''" "rq_Allow (ec_req ?e1) = ''''" "rq_URLPath (ec_req ?e1) = ''/nowhere''"
    by (simp_all add: WithContext_def browser_request_def bare_request_def)
  have "chain broken_params auth_cfg zero_draws ?e empty_db = ((Some (HTTPError 404 (Some ''Not Found'') None), ?e1), empty_db)"
    using chain_enabled [of auth_cfg zero_draws ?e empty_db Anonymous empty_db broken_params, OF _ none] route
    by (simp add: CSRFMiddleware_def HasPrefix_def dispatch_unmatched unmatched_def)
  moreover have "unwritten ?e1" "ec_body ?e1 = NoBody" "ec_req ?e1 = browser_request" "\<not> IsHTMX ?e1"
    by (simp_all add: unwritten_def WithContext_def IsHTMX_def browser_request_def)
  moreover have "admitted broken_params auth_cfg browser_request"
    by (simp add: admitted_def browser_request_def broken_params_def plain_params_def)
  moreover have "rq_Header browser_request ''Accept'' \<notin> {'''', ''application/json''}" "\<not> isAPI (rq_Route browser_request)"
    by (simp_all add: browser_request_def isAPI_def HasPrefix_def)
  moreover have "\<forall>page pd. pr_rdr broken_params page pd \<noteq> None"
    "NewEcho (pr_bytes broken_params) auth_cfg = Some (plain_mws auth_cfg)"
    by (simp_all add: broken_params_def)
  ultimately show ?thesis using error_page_lost by blast
qed

text \<open>
  C35. Static files stay inside their tree: whatever path a client asks for under \<open>/static\<close>,
  escaped or not, the bytes it is sent are those of a file of the embedded tree, as the
  conditional and range headers select them, and a redirect leads to no other host. Every
  file of the tree is served under its own path.
\<close>

theorem static_files_confined:
  assumes "NewEcho (pr_bytes p) cfg = Some mws" and "admitted p cfg req"
    and "rq_Method req = ''GET''" and "rq_Route req = ''/static*''" and "\<not> HasPrefix (rq_URLPath req) ''/app''"
    and "ServeHTTP p cfg mws w req d = (out, e', d')" and "srv = pr_static p"
  shows "(\<forall>bytes. ec_body e' = FileBody bytes \<longrightarrow>
      (\<exists>cs content. find_asset (fl_tree srv) cs = Some (AssetFile content) \<and> ''..'' \<notin> set cs \<and>
        file_answer content (fl_decide srv req content) = (ec_status e', FileBody bytes))) \<and>
    (\<forall>uri. map_of (ec_headers e') ''Location'' = Some uri \<longrightarrow>
      \<not> (length uri > 1 \<and> slashlike (uri ! 0) \<and> slashlike (uri ! 1))) \<and>
    (\<forall>cs content. find_asset (fl_tree srv) cs = Some (AssetFile content) \<and> cs \<noteq> [] \<and>
      (\<forall>c \<in> set cs. plain_name c \<and> CHR ''%'' \<notin> set c) \<and> rq_Param req ''*'' = ''/'' @ Join cs ''/'' \<longrightarrow>
      (ec_status e', ec_body e') = file_answer content (fl_decide srv req content))"
proof -
  obtain e0 re where e0: "ec_req e0 = req" "unwritten e0" "ec_body e0 = NoBody" "map_of (ec_headers e0) ''Location'' = None"
    and re: "re = fst (StaticDirectoryHandler srv e0 d')" and so: "static_outcome srv e0 re"
    and e': "e' = answer p (fst re) (snd re)"
    using ServeHTTP_static [OF assms(1-6)] unfolding assms(7) by metis
  have nc: "\<not> ec_committed e0" using e0(2) by (simp add: unwritten_def)
  have "(\<forall>bytes. ec_body e' = FileBody bytes \<longrightarrow>
      (\<exists>cs content. find_asset (fl_tree srv) cs = Some (AssetFile content) \<and> ''..'' \<notin> set cs \<and>
        file_answer content (fl_decide srv req content) = (ec_status e', FileBody bytes))) \<and>
    (\<forall>uri. map_of (ec_headers e') ''Location'' = Some uri \<longrightarrow>
      \<not> (length uri > 1 \<and> slashlike (uri ! 0) \<and> slashlike (uri ! 1)))"
  proof (cases "fst re")
    case None
    with so consider uri where "e' = respond 301 NoBody (SetHeader ''Location'' (sanitizeURI uri) e0)"
      | cs content where "find_asset (fl_tree srv) cs = Some (AssetFile content)" "''..'' \<notin> set cs" "e' = ServeContent srv content e0"
      by (auto simp: static_outcome_def e' answer_def)
    then show ?thesis
    proof cases
      case (1 uri)
      with nc sanitizeURI_local [of uri] show ?thesis by simp
    next
      case (2 cs content)
      with ServeContent_simps(5) [OF nc, of srv content] e0(1,4) show ?thesis
        by (auto intro!: exI [of _ cs] exI [of _ content])
    qed
  next
    case (Some err)
    with so have "snd re = e0" by (simp add: static_outcome_def)
    with Some e0(3,4) ErrorHandler_no_file [of e0] show ?thesis by (simp add: e' answer_def ErrorHandler_keeps)
  qed
  moreover have "(ec_status e', ec_body e') = file_answer content (fl_decide srv req content)"
    if "find_asset (fl_tree srv) cs = Some (AssetFile content)" "cs \<noteq> []"
      "\<forall>c \<in> set cs. plain_name c \<and> CHR ''%'' \<notin> set c" "rq_Param req ''*'' = ''/'' @ Join cs ''/''" for cs content
    using static_handler_serves [OF that(3,1,2), of e0 d'] that(4) ServeContent_simps(5) [OF nc, of srv content] e0(1)
    by (simp add: re e' answer_def)
  ultimately show ?thesis by blast
qed

theorem static_files_confined_witness:
  "\<exists>out e' d'. ServeHTTP plain_params auth_cfg (plain_mws auth_cfg) zero_draws (static_request ''/css/app.css'') empty_db =
      (out, e', d') \<and> ec_status e' = 200 \<and> ec_body e' = FileBody ''body''"
proof -
  let ?r = "static_request ''/css/app.css''"
  obtain out e' d' where s: "ServeHTTP plain_params auth_cfg (plain_mws auth_cfg) zero_draws ?r empty_db = (out, e', d')"
    by (metis prod_cases3)
  have r: "admitted plain_params auth_cfg ?r" "rq_Method ?r = ''GET''" "rq_Route ?r = ''/static*''"
    "\<not> HasPrefix (rq_URLPath ?r) ''/app''" "rq_Param ?r ''*'' = ''/'' @ Join [''css'', ''app.css''] ''/''"
    by (simp_all add: static_request_def HasPrefix_def)
  have f: "find_asset (fl_tree sample_assets) [''css'', ''app.css''] = Some (AssetFile ''body'')"
    "fl_decide sample_assets ?r ''body'' = Whole" "pr_static plain_params = sample_assets"
    "\<forall>c \<in> set [''css'', ''app.css'']. plain_name c \<and> CHR ''%'' \<notin> set c"
    by (simp_all add: sample_assets_def plain_params_def plain_name_def)
  from static_files_confined [OF plain_params_simps(4) r(1-4) s f(3) [symmetric]] f(1,2,4) r(5)
  have "(ec_status e', ec_body e') = file_answer ''body'' Whole" by fastforce
  with s show ?thesis by (simp add: file_answer_def)
qed

subsection \<open>Configuration and flash messages\<close>

text \<open>
  C36. \<open>Load\<close> fails in exactly two cases, both in production: the metrics are asked to be
  public and no metrics user is set, or authentication is not switched on. So in a loaded
  production configuration authentication is on; and a loaded configuration always names a
  port, a database host, a database and a log level.
\<close>

theorem load_outcomes:
  "((\<exists>err. Load pf hundred env = Inl err) \<longleftrightarrow> env ''APP_ENV'' = ''production'' \<and>
      ((boolEnv env ''METRICS_PUBLIC'' False \<and> env ''METRICS_BASIC_AUTH_USER'' = '''') \<or>
       boolEnv env ''AUTH_DISABLED'' True)) \<and>
   (\<forall>cfg. Load pf hundred env = Inr cfg \<longrightarrow>
      (cfg_AppEnv cfg = ''production'' \<longrightarrow> \<not> ac_Disabled (cfg_Auth cfg)) \<and>
      http_Port (cfg_HTTP cfg) \<noteq> '''' \<and> dc_Host (cfg_Database cfg) \<noteq> '''' \<and>
      dc_DBName (cfg_Database cfg) \<noteq> '''' \<and> cfg_LoggingLevel cfg \<noteq> '''')"
proof (intro conjI allI impI)
  have "(\<exists>err. Load pf hundred env = Inl err) \<longleftrightarrow> \<not> (\<exists>cfg. Load pf hundred env = Inr cfg)"
    by (cases "Load pf hundred env") auto
  then show "(\<exists>err. Load pf hundred env = Inl err) \<longleftrightarrow> env ''APP_ENV'' = ''production'' \<and>
      ((boolEnv env ''METRICS_PUBLIC'' False \<and> env ''METRICS_BASIC_AUTH_USER'' = '''') \<or>
       boolEnv env ''AUTH_DISABLED'' True)"
    unfolding Load_iff by simp
next
  fix cfg assume l: "Load pf hundred env = Inr cfg"
  show "\<not> ac_Disabled (cfg_Auth cfg)" if "cfg_AppEnv cfg = ''production''" by (rule Load_production(1) [OF l that])
  show "cfg_LoggingLevel cfg \<noteq> ''''" by (rule Load_Inr(2) [OF l])
  show "http_Port (cfg_HTTP cfg) \<noteq> ''''" "dc_Host (cfg_Database cfg) \<noteq> ''''" "dc_DBName (cfg_Database cfg) \<noteq> ''''"
    using l unfolding Load_iff by (simp_all add: overrides_frame read_config_sel getenv_default)
qed

theorem load_outcomes_witness:
  "\<exists>cfg. Load (\<lambda>_. None) () production_env = Inr (cfg :: unit Config) \<and>
    (cfg_AppEnv cfg = ''production'' \<longrightarrow> \<not> ac_Disabled (cfg_Auth cfg))"
proof -
  obtain cfg where l: "Load (\<lambda>_. None) () production_env = Inr (cfg :: unit Config)" using production_loads by blast
  with load_outcomes [of "\<lambda>_. None" "()" production_env] show ?thesis by blast
qed

text \<open>
  C37. A flash message survives a redirect and is shown once: the flashes a handler sets are
  read, after those that were waiting, by the next request that brings the cookie back, and
  reading them tells the browser to drop the cookie.
\<close>

theorem flash_survives_redirect:
  assumes "codec_ok k" and "\<not> ec_committed e" and "flashes \<noteq> []"
    and "fc_enc k (fst (PeekFlash k e) @ flashes) = Some v"
    and "cookie e' flashCookieName = map_option ck_Value (last_cookie (SetFlash k flashes e) flashCookieName)"
    and "ec_flash e' = None" and "\<not> ec_committed e'"
  shows "fst (ConsumeFlash k e') = fst (PeekFlash k e) @ flashes \<and>
    (\<exists>ck. last_cookie (snd (ConsumeFlash k e')) flashCookieName = Some ck \<and> ck_MaxAge ck < 0 \<and> ck_Value ck = '''') \<and>
    fst (PeekFlash k (snd (ConsumeFlash k e'))) = []"
proof -
  obtain prior e1 where p: "PeekFlash k e = (prior, e1)" by force
  then have e1: "\<not> ec_committed e1" using assms(2) PeekFlash_frame(3) [of k e] by simp
  have enc: "fc_enc k (prior @ flashes) = Some v" using assms(4) p by simp
  then have v: "v \<noteq> ''''" "fc_dec k v = Some (prior @ flashes)" using assms(1) unfolding codec_ok_def by auto
  have "cookie e' flashCookieName = Some v"
    using assms(3,5) p enc e1 by (simp add: SetFlash_def Let_def last_cookie_SetCookie)
  then have peek: "PeekFlash k e' = (prior @ flashes, e'\<lparr>ec_flash := Some (prior @ flashes)\<rparr>)"
    using assms(6) v by (simp add: PeekFlash_def)
  then have "ConsumeFlash k e' = (prior @ flashes, clearFlash (e'\<lparr>ec_flash := Some []\<rparr>))"
    by (simp add: ConsumeFlash_def)
  moreover have "fst (PeekFlash k (clearFlash (e'\<lparr>ec_flash := Some []\<rparr>))) = []"
    using assms(7) by (simp add: PeekFlash_def clearFlash_def SetCookie_def)
  ultimately show ?thesis using p assms(7) by (simp add: clearFlash_def last_cookie_SetCookie)
qed

theorem flash_survives_redirect_witness:
  "\<exists>k e'. codec_ok k \<and> cookie e' flashCookieName = Some ''x'' \<and>
     fst (ConsumeFlash k e') = [\<lparr>fl_Type = ''success'', fl_Message = ''saved''\<rparr>]"
proof -
  let ?fs = "[\<lparr>fl_Type = ''success'', fl_Message = ''saved''\<rparr>]"
  let ?k = "\<lparr>fc_enc = (\<lambda>fs. if fs = ?fs then Some ''x'' else None), fc_dec = (\<lambda>_. Some ?fs)\<rparr>"
  let ?e = "new_echo (bare_request ''POST'' ''/app/todos'' ''/app/todos'') Background"
  let ?e' = "new_echo ((bare_request ''GET'' ''/app/todos'' ''/app/todos'')\<lparr>rq_Cookies := [(flashCookieName, ''x'')]\<rparr>) Background"
  have ok: "codec_ok ?k" by (simp add: codec_ok_def)
  have peek: "PeekFlash ?k ?e = ([], ?e)" by (simp add: PeekFlash_def new_echo_def cookie_def)
  have c: "cookie ?e' flashCookieName = Some ''x''" by (simp add: new_echo_def cookie_def)
  have nc: "\<not> ec_committed ?e" "\<not> ec_committed ?e'" "ec_flash ?e' = None" by (simp_all add: new_echo_def)
  have set: "last_cookie (SetFlash ?k ?fs ?e) flashCookieName = Some \<lparr>ck_Name = flashCookieName, ck_Value = ''x'',
      ck_Path = ''/'', ck_HttpOnly = True, ck_Lax = True, ck_MaxAge = 300, ck_Expires = None\<rparr>"
    using nc(1) by (simp add: SetFlash_def peek Let_def last_cookie_SetCookie)
  have "fst (ConsumeFlash ?k ?e') = ?fs"
    using flash_survives_redirect [of ?k ?e ?fs "''x''" ?e'] ok nc peek c set by simp
  with ok c show ?thesis by blast
qed

subsection \<open>Templates\<close>

text \<open>
  C38. The embedded templates and the same tree in a directory are one: loaded from the file
  system under any clean relative root or from the embedded one, a renderer parses the same
  files under the same names in the same order, those a listing in order meets, up to the
  first error. What was loaded is never loaded again, and an error of loading answers every
  rendering.
\<close>

theorem templates_loaded:
  assumes "plain_tree (Dir err es)" and "clean_comps rs" and "rs \<noteq> []"
    and "disk (path_text rs) = Inr (Dir err es)"
  shows "\<exists>state. state = parse_all eng (template_files [] (Dir err es)) (en_new eng) \<and>
    rn_state (load eng disk (NewRenderer (path_text rs))) = Some state \<and>
    rn_state (load eng disk' (NewRendererFS (Dir err es))) = Some state \<and>
    load eng disk'' (load eng disk r) = load eng disk r \<and>
    (\<forall>e t. state = (Some e, t) \<longrightarrow>
      fst (Render eng disk'' name pd (load eng disk (NewRenderer (path_text rs)))) = (Some e, ''''))"
proof -
  let ?state = "parse_all eng (template_files [] (Dir err es)) (en_new eng)"
  let ?r = "NewRenderer (path_text rs) :: 'a Renderer"
  have ne: "path_text rs \<noteq> ''''" using relative_Join(2) [OF assms(2,3)] assms(3) by (simp add: path_text_def)
  have d: "rn_state (load eng disk ?r) = Some ?state"
    by (rule load_directory [OF assms(1)]) (use assms(2-4) ne in \<open>simp_all add: NewRenderer_def\<close>)
  have "rn_state (load eng disk' (NewRendererFS (Dir err es))) = Some ?state"
    by (rule load_embedded [OF assms(1)]) (simp_all add: NewRendererFS_def)
  with d show ?thesis by (auto simp: load_once Render_def Let_def simp del: template_files.simps)
qed

theorem templates_loaded_witness:
  "rn_state (load list_engine (\<lambda>_. Inr sample_tree) (NewRenderer ''web/templates'')) =
     Some (None, [(''layouts/app.html'', ''a''), (''pages/x.html'', ''x'')])"
proof -
  have t: "plain_tree sample_tree" "clean_comps [''web'', ''templates'']" "path_text [''web'', ''templates''] = ''web/templates''"
    by (simp_all add: sample_tree_def plain_name_def clean_comps_def clean_step_def path_text_def)
  have f: "parse_all list_engine (template_files [] sample_tree) [] = (None, [(''layouts/app.html'', ''a''), (''pages/x.html'', ''x'')])"
    by code_simp
  have n: "en_new list_engine = []" by (simp add: list_engine_def)
  from templates_loaded [of None _ "[''web'', ''templates'']" "\<lambda>_. Inr sample_tree" list_engine] t f n show ?thesis
    by (auto simp: sample_tree_def)
qed

subsection \<open>Processes\<close>

text \<open>
  C39. A server process either boots or ends at once: without a configuration, a database, a
  body limit and its embedded files it ends with status 1 (2 where Echo panics) and has
  started nothing in the background; otherwise it starts the background work of the
  configuration and ends with status 1 if the listener fails, leaving the database open, and
  with 0 on a signal, after cancelling the workers, shutting Echo down, flushing the log and
  closing the database, in this order and each once. The compatibility entry point does the
  same but for reporting an error of the shutdown.
\<close>

theorem server_process:
  assumes "server_main env = (ev, code)"
  shows "(case be_load env of
      Inl e \<Rightarrow> code = 1 \<and> ev = [Stderr (''config: '' @ Error e @ [CHR 0x0A])]
    | Inr cfg \<Rightarrow>
        if \<not> boots env cfg then code \<in> {1, 2} \<and> filter is_launch ev = []
        else filter is_launch ev = map Launched (Start cfg) \<and>
          (case be_stop env of
             Signal \<Rightarrow> code = 0 \<and> filter is_db_event ev = db_opened (cfg_Database cfg) @ [DBClosed] \<and>
               filter is_shutdown ev = [WorkersCancelled, EchoShutdown, LogsSynced, DBClosed]
           | ListenFailed e \<Rightarrow> code = 1 \<and> filter is_db_event ev = db_opened (cfg_Database cfg) \<and>
               filter is_shutdown ev = [])) \<and>
    snd (compat_main env) = code \<and> (\<exists>rest. ev = fst (compat_main env) @ rest \<and> length rest \<le> 1)"
proof (cases "be_load env")
  case (Inl e)
  with assms show ?thesis by (auto simp: server_main_def compat_main_def)
next
  case (Inr cfg)
  show ?thesis
  proof (cases rule: app_New_cases [of env cfg])
    case (booted ev' mws)
    show ?thesis
    proof (cases "be_stop env")
      case Signal
      with assms Inr booted show ?thesis
        by (auto simp: server_main_def compat_main_def case_prod_beta split: option.split)
    next
      case (ListenFailed e)
      with assms Inr booted show ?thesis by (auto simp: server_main_def compat_main_def)
    qed
  next
    case (failed ev' e)
    with assms Inr show ?thesis by (auto simp: server_main_def compat_main_def)
  next
    case (panicked ev' m)
    with assms Inr show ?thesis by (auto simp: server_main_def compat_main_def)
  qed
qed

theorem server_process_witness:
  "\<exists>ev. server_main (plain_boot Signal) = (ev, 0) \<and>
    filter is_shutdown ev = [WorkersCancelled, EchoShutdown, LogsSynced, DBClosed]"
proof -
  obtain ev code where s: "server_main (plain_boot Signal) = (ev, code)" by force
  have "be_load (plain_boot Signal) = Inr default_cfg" "boots (plain_boot Signal) default_cfg" "be_stop (plain_boot Signal) = Signal"
    by (simp_all add: plain_boot_def boots_def)
  with server_process [OF s] s show ?thesis by simp
qed

text \<open>
  C40. A worker process always works on jobs, whatever \<open>JOBS_ENABLED\<close> says, and never listens.
  Nothing waits for its shutdown: the process may end, with status 0, before any of the
  shutdown steps, and the database is closed only if all of them came in time.
\<close>

theorem worker_process:
  assumes "worker_main env n = (ev, code)" and "be_load env = Inr cfg" and "boots env cfg"
  shows "code = 0 \<and> filter is_launch ev = [Launched (ReconcileEvery (reconcile_interval cfg)), Launched RunQueue] \<and>
    (DBClosed \<in> set ev \<longleftrightarrow> (if be_echo_shutdown env = None then 4 else 5) \<le> n)"
proof (cases rule: app_New_cases [of env "worker_config cfg"])
  case (booted ev' mws)
  let ?down = "fst (app_Shutdown env (worker_config cfg))"
  have closed: "DBClosed \<in> set (take n ?down) \<longleftrightarrow> (if be_echo_shutdown env = None then 4 else 5) \<le> n"
  proof -
    have "n < 5 \<or> 5 \<le> n" by linarith
    then have "n = 0 \<or> n = 1 \<or> n = 2 \<or> n = 3 \<or> n = 4 \<or> 5 \<le> n" by linarith
    then show ?thesis
      by (elim disjE) (auto simp: app_Shutdown_def process_log_def Let_def take_Cons' split: option.split)
  qed
  have "\<forall>x \<in> set ?down. \<not> is_launch x"
    using app_Shutdown_filters(2) [of env "worker_config cfg"] by (simp only: filter_empty_conv) 
  then have launches: "filter is_launch (take n ?down) = []"
    by (auto simp: filter_empty_conv dest: in_set_takeD simp del: app_Shutdown_filters)
  have "DBClosed \<notin> set (filter is_db_event ev')" unfolding booted(3) by (simp add: db_opened_def)
  then have "DBClosed \<notin> set ev'" by simp
  moreover have "StartWorkerOnly (worker_config cfg) = [ReconcileEvery (reconcile_interval cfg), RunQueue]"
    by (simp add: StartWorkerOnly_def reconcile_interval_def worker_config_def)
  ultimately show ?thesis
    using assms(1,2) booted closed launches
    by (auto simp: worker_main_def Let_def process_log_def)
next
  case (failed ev' e)
  with assms(3) show ?thesis by simp
next
  case (panicked ev' m)
  with assms(3) show ?thesis by simp
qed

theorem worker_process_witness:
  "\<exists>ev. worker_main (plain_boot Signal) 0 = (ev, 0) \<and> DBClosed \<notin> set ev"
proof -
  obtain ev code where s: "worker_main (plain_boot Signal) 0 = (ev, code)" by force
  have "be_load (plain_boot Signal) = Inr default_cfg" "boots (plain_boot Signal) default_cfg"
    by (simp_all add: plain_boot_def boots_def)
  from worker_process [OF s this] s show ?thesis by simp
qed

end
